(* ===== verification/Prelude.thy ===== *)
theory Prelude
  imports Main "HOL-Library.Sublist" "HOL-Library.AList" "HOL-Library.Char_ord"
    "HOL-Library.List_Lexorder" "HOL-Library.Word"
begin

text \<open>
  Shared vocabulary of the development: Rust strings as byte lists, the string functions of the
  Rust standard library that the sources call, integers at the width of \<open>i64\<close>, and the generic
  lemmas the components share.

  A Rust \<open>&str\<close> is a UTF-8 byte sequence; it is modelled as \<open>string\<close>, a list of bytes
  (\<open>char\<close> is an 8-bit value in HOL). Every delimiter the sources look for is ASCII, and an ASCII
  byte never occurs inside a multi-byte UTF-8 sequence, so a loop over \<open>chars()\<close> and a loop over
  bytes cut a valid string at the same places. The only functions that depend on characters outside
  ASCII are the white-space ones (\<open>trim\<close>, \<open>split_whitespace\<close>, \<open>char::is_whitespace\<close>) and
  \<open>char::is_control\<close>; they are given on the UTF-8 encodings of those characters.
\<close>

named_theorems rstr_simps "equations and simplification rules of the Rust string functions"
named_theorems byte_simps "facts that decide which class of bytes a concrete byte is in"

section \<open>Bytes\<close>

type_synonym rstr = string
type_synonym TimestampMs = int

abbreviation NUL :: char where "NUL \<equiv> CHR 0x00"
abbreviation TAB :: char where "TAB \<equiv> CHR 0x09"
abbreviation NL :: char where "NL \<equiv> CHR 0x0A"
abbreviation CR :: char where "CR \<equiv> CHR 0x0D"
abbreviation SP :: char where "SP \<equiv> CHR 0x20"
abbreviation DQ :: char where "DQ \<equiv> CHR 0x22"
abbreviation SQ :: char where "SQ \<equiv> CHR 0x27"
abbreviation BSL :: char where "BSL \<equiv> CHR 0x5C"
abbreviation BQ :: char where "BQ \<equiv> CHR 0x60"

definition byte :: "char \<Rightarrow> nat" where
  "byte c = of_char c"

definition is_ascii_digit :: "char \<Rightarrow> bool" where
  "is_ascii_digit c \<longleftrightarrow> 48 \<le> byte c \<and> byte c \<le> 57"

definition is_ascii_lower :: "char \<Rightarrow> bool" where
  "is_ascii_lower c \<longleftrightarrow> 97 \<le> byte c \<and> byte c \<le> 122"

definition is_ascii_upper :: "char \<Rightarrow> bool" where
  "is_ascii_upper c \<longleftrightarrow> 65 \<le> byte c \<and> byte c \<le> 90"

definition is_ascii_alphanumeric :: "char \<Rightarrow> bool" where
  "is_ascii_alphanumeric c \<longleftrightarrow> is_ascii_digit c \<or> is_ascii_lower c \<or> is_ascii_upper c"

lemmas byte_class_defs = is_ascii_alphanumeric_def is_ascii_digit_def is_ascii_lower_def
  is_ascii_upper_def byte_def

declare byte_class_defs [byte_simps]

definition ascii_lower_byte :: "char \<Rightarrow> char" where
  "ascii_lower_byte c = (if is_ascii_upper c then char_of (byte c + 32) else c)"

definition to_ascii_lowercase :: "rstr \<Rightarrow> rstr" where
  "to_ascii_lowercase s = map ascii_lower_byte s"

section \<open>Substrings, splitting and joining\<close>

abbreviation contains :: "rstr \<Rightarrow> rstr \<Rightarrow> bool" where
  "contains s pat \<equiv> sublist pat s"

abbreviation starts_with :: "rstr \<Rightarrow> rstr \<Rightarrow> bool" where
  "starts_with s pat \<equiv> prefix pat s"

abbreviation ends_with :: "rstr \<Rightarrow> rstr \<Rightarrow> bool" where
  "ends_with s pat \<equiv> suffix pat s"

text \<open>\<open>str::split\<close> on one character: there is always at least one piece.\<close>

fun split_on :: "char \<Rightarrow> rstr \<Rightarrow> rstr list" where
  "split_on c [] = [[]]"
| "split_on c (x # xs) =
     (if x = c then [] # split_on c xs
      else (case split_on c xs of [] \<Rightarrow> [[x]] | w # ws \<Rightarrow> (x # w) # ws))"

text \<open>\<open>str::split_inclusive\<close>: the pieces keep their terminator, and there is no empty last piece.\<close>

fun split_inclusive :: "char \<Rightarrow> rstr \<Rightarrow> rstr list" where
  "split_inclusive c [] = []"
| "split_inclusive c (x # xs) =
     (if x = c then [x] # split_inclusive c xs
      else (case split_inclusive c xs of [] \<Rightarrow> [[x]] | w # ws \<Rightarrow> (x # w) # ws))"

fun join :: "rstr \<Rightarrow> rstr list \<Rightarrow> rstr" where
  "join sep [] = []"
| "join sep [w] = w"
| "join sep (w # v # ws) = w @ sep @ join sep (v # ws)"

text \<open>\<open>rsplit(c).next()\<close>: the text after the last occurrence of \<open>c\<close>, or the whole string.\<close>

definition after_last :: "char \<Rightarrow> rstr \<Rightarrow> rstr" where
  "after_last c s = rev (takeWhile (\<lambda>x. x \<noteq> c) (rev s))"

text \<open>\<open>str::find\<close> for a character and for a substring: the byte offset of the first match.\<close>

fun find_char :: "char \<Rightarrow> rstr \<Rightarrow> nat option" where
  "find_char c [] = None"
| "find_char c (x # xs) = (if x = c then Some 0 else map_option Suc (find_char c xs))"

fun find_str :: "rstr \<Rightarrow> rstr \<Rightarrow> nat option" where
  "find_str pat [] = (if pat = [] then Some 0 else None)"
| "find_str pat (x # xs) =
     (if prefix pat (x # xs) then Some 0 else map_option Suc (find_str pat xs))"

definition trim_end_char :: "char \<Rightarrow> rstr \<Rightarrow> rstr" where
  "trim_end_char c s = rev (dropWhile (\<lambda>x. x = c) (rev s))"

definition trim_matches :: "(char \<Rightarrow> bool) \<Rightarrow> rstr \<Rightarrow> rstr" where
  "trim_matches p s = rev (dropWhile p (rev (dropWhile p s)))"

section \<open>White space and control characters\<close>

text \<open>The UTF-8 encodings of the characters with the Unicode property \<open>White_Space\<close>.\<close>

definition utf8_whitespace :: "rstr list" where
  "utf8_whitespace =
     [[CHR 0x20], [CHR 0x09], [CHR 0x0A], [CHR 0x0B], [CHR 0x0C], [CHR 0x0D],
      [CHR 0xC2, CHR 0x85], [CHR 0xC2, CHR 0xA0], [CHR 0xE1, CHR 0x9A, CHR 0x80],
      [CHR 0xE2, CHR 0x80, CHR 0x80], [CHR 0xE2, CHR 0x80, CHR 0x81],
      [CHR 0xE2, CHR 0x80, CHR 0x82], [CHR 0xE2, CHR 0x80, CHR 0x83],
      [CHR 0xE2, CHR 0x80, CHR 0x84], [CHR 0xE2, CHR 0x80, CHR 0x85],
      [CHR 0xE2, CHR 0x80, CHR 0x86], [CHR 0xE2, CHR 0x80, CHR 0x87],
      [CHR 0xE2, CHR 0x80, CHR 0x88], [CHR 0xE2, CHR 0x80, CHR 0x89],
      [CHR 0xE2, CHR 0x80, CHR 0x8A], [CHR 0xE2, CHR 0x80, CHR 0xA8],
      [CHR 0xE2, CHR 0x80, CHR 0xA9], [CHR 0xE2, CHR 0x80, CHR 0xAF],
      [CHR 0xE2, CHR 0x81, CHR 0x9F], [CHR 0xE3, CHR 0x80, CHR 0x80]]"

fun strip_any :: "rstr list \<Rightarrow> rstr \<Rightarrow> rstr option" where
  "strip_any [] s = None"
| "strip_any (p # ps) s =
     (if p \<noteq> [] \<and> prefix p s then Some (drop (length p) s) else strip_any ps s)"

lemma strip_any_shorter: "strip_any ps s = Some t \<Longrightarrow> length t < length s"
  by (induction ps) (auto simp: prefix_def split: if_splits)

function strip_while :: "rstr list \<Rightarrow> rstr \<Rightarrow> rstr" where
  "strip_while ps s = (case strip_any ps s of None \<Rightarrow> s | Some t \<Rightarrow> strip_while ps t)"
  by pat_completeness auto
termination
  by (relation "measure (\<lambda>(ps, s). length s)") (auto dest: strip_any_shorter)

declare strip_while.simps [simp del]

definition trim_start :: "rstr \<Rightarrow> rstr" where
  "trim_start s = strip_while utf8_whitespace s"

definition trim_end :: "rstr \<Rightarrow> rstr" where
  "trim_end s = rev (strip_while (map rev utf8_whitespace) (rev s))"

definition trim :: "rstr \<Rightarrow> rstr" where
  "trim s = trim_end (trim_start s)"

definition has_whitespace :: "rstr \<Rightarrow> bool" where
  "has_whitespace s \<longleftrightarrow> list_ex (\<lambda>w. contains s w) utf8_whitespace"

text \<open>\<open>char::is_control\<close>: the C0 controls, DEL, and the C1 controls, which are two bytes in UTF-8.\<close>

fun has_control :: "rstr \<Rightarrow> bool" where
  "has_control [] = False"
| "has_control (x # xs) =
     (byte x < 32 \<or> byte x = 127 \<or>
      (byte x = 194 \<and> xs \<noteq> [] \<and> 128 \<le> byte (hd xs) \<and> byte (hd xs) < 160) \<or> has_control xs)"

text \<open>Decimal printing, as \<open>format!("{}")\<close> does for unsigned integers.\<close>

fun show_nat :: "nat \<Rightarrow> rstr" where
  "show_nat n = (if n < 10 then [char_of (48 + n)] else show_nat (n div 10) @ [char_of (48 + n mod 10)])"

declare show_nat.simps [simp del]

section \<open>64-bit signed arithmetic\<close>

definition i64_min :: int where "i64_min = - (2 ^ 63)"
definition i64_max :: int where "i64_max = 2 ^ 63 - 1"

definition in_i64 :: "int \<Rightarrow> bool" where
  "in_i64 x \<longleftrightarrow> i64_min \<le> x \<and> x \<le> i64_max"

definition sat_i64 :: "int \<Rightarrow> int" where
  "sat_i64 x = max i64_min (min i64_max x)"

definition saturating_add :: "int \<Rightarrow> int \<Rightarrow> int" where
  "saturating_add a b = sat_i64 (a + b)"

definition saturating_sub :: "int \<Rightarrow> int \<Rightarrow> int" where
  "saturating_sub a b = sat_i64 (a - b)"

definition saturating_mul :: "int \<Rightarrow> int \<Rightarrow> int" where
  "saturating_mul a b = sat_i64 (a * b)"

definition checked_sub :: "int \<Rightarrow> int \<Rightarrow> int option" where
  "checked_sub a b = (if in_i64 (a - b) then Some (a - b) else None)"

lemmas i64_defs = i64_min_def i64_max_def in_i64_def sat_i64_def saturating_add_def
  saturating_sub_def saturating_mul_def checked_sub_def

section \<open>Lemmas on the string functions\<close>

lemma split_on_not_Nil [simp]: "split_on c s \<noteq> []"
  by (induction s) (auto split: list.splits)

lemma join_split_on: "join [c] (split_on c s) = s"
proof (induction s)
  case (Cons x xs)
  obtain w ws where "split_on c xs = w # ws" by (cases "split_on c xs") auto
  with Cons show ?case by (cases ws) auto
qed simp

lemma split_on_no_sep: "w \<in> set (split_on c s) \<Longrightarrow> c \<notin> set w"
proof (induction s arbitrary: w)
  case (Cons x xs)
  obtain v vs where "split_on c xs = v # vs" by (cases "split_on c xs") auto
  with Cons show ?case by (auto split: if_splits)
qed simp

lemma split_on_append:
  assumes "c \<notin> set w"
  shows "split_on c (w @ c # s) = w # split_on c s"
  using assms by (induction w) auto

lemma split_on_single: "c \<notin> set w \<Longrightarrow> split_on c w = [w]"
  by (induction w) auto

lemma split_on_join:
  assumes "ws \<noteq> []" and "\<forall>w \<in> set ws. c \<notin> set w"
  shows "split_on c (join [c] ws) = ws"
  using assms
proof (induction "[c]" ws rule: join.induct)
  case (3 w v ws)
  then show ?case by (simp add: split_on_append)
qed (auto simp: split_on_single)

lemma set_split_on: "w \<in> set (split_on c s) \<Longrightarrow> set w \<subseteq> set s"
proof (induction s arbitrary: w)
  case (Cons x xs)
  obtain v vs where eq: "split_on c xs = v # vs" by (cases "split_on c xs") auto
  from Cons eq show ?case by (fastforce split: if_splits)
qed simp

lemma set_join: "set (join sep ws) \<subseteq> set sep \<union> (\<Union>w \<in> set ws. set w)"
  by (induction sep ws rule: join.induct) auto

lemma concat_split_inclusive [simp]: "concat (split_inclusive c s) = s"
proof (induction s)
  case (Cons x xs)
  then show ?case by (cases "split_inclusive c xs") auto
qed simp

lemma join_Cons: "join sep (w # ws) = (if ws = [] then w else w @ sep @ join sep ws)"
  by (cases ws) auto

lemma after_last_no_sep: "c \<notin> set (after_last c s)"
  unfolding after_last_def by (auto dest: set_takeWhileD)

lemma after_last_id: "c \<notin> set s \<Longrightarrow> after_last c s = s"
proof -
  assume "c \<notin> set s"
  then have "takeWhile (\<lambda>x. x \<noteq> c) (rev s) = rev s"
    by (simp only: takeWhile_eq_all_conv) auto
  then show ?thesis by (simp only: after_last_def rev_rev_ident)
qed

lemma find_char_None: "find_char c s = None \<longleftrightarrow> c \<notin> set s"
  by (induction s) auto

lemma find_char_Some:
  "find_char c s = Some i \<Longrightarrow> i < length s \<and> s ! i = c \<and> c \<notin> set (take i s)"
  by (induction s arbitrary: i) (auto split: if_splits)

lemma find_str_Some:
  "find_str pat s = Some i \<Longrightarrow> i + length pat \<le> length s \<and> prefix pat (drop i s)"
proof (induction pat s arbitrary: i rule: find_str.induct)
  case (2 pat x xs)
  then show ?case by (auto split: if_splits dest: prefix_length_le)
qed (auto split: if_splits)

lemma strip_while_None: "strip_any ps s = None \<Longrightarrow> strip_while ps s = s"
  by (simp add: strip_while.simps)

lemma strip_any_drop: "strip_any ps s = Some t \<Longrightarrow> \<exists>n. t = drop n s"
  by (induction ps) (auto split: if_splits)

lemma strip_while_drop: "\<exists>n. strip_while ps s = drop n s"
proof (induction ps s rule: strip_while.induct)
  case (1 ps s)
  show ?case
  proof (cases "strip_any ps s")
    case None
    then show ?thesis by (auto simp: strip_while_None intro: exI [of _ 0])
  next
    case (Some t)
    with 1 obtain n where "strip_while ps t = drop n t" by blast
    moreover from Some obtain m where "t = drop m s" using strip_any_drop by blast
    ultimately show ?thesis using Some by (auto simp: strip_while.simps [of ps s])
  qed
qed

lemma strip_any_strip_while [simp]: "strip_any ps (strip_while ps s) = None"
proof (induction ps s rule: strip_while.induct)
  case (1 ps s)
  then show ?case by (cases "strip_any ps s") (auto simp: strip_while.simps [of ps s])
qed

text \<open>A string that starts with no white space and ends with none is not changed by \<open>trim\<close>.\<close>

lemma trim_idI:
  assumes "strip_any utf8_whitespace s = None"
    and "strip_any (map rev utf8_whitespace) (rev s) = None"
  shows "trim s = s"
  using assms by (simp add: trim_def trim_start_def trim_end_def strip_while_None)

lemma set_trim: "set (trim s) \<subseteq> set s"
proof -
  obtain n where n: "trim_start s = drop n s"
    using strip_while_drop unfolding trim_start_def by blast
  obtain m where "trim s = rev (drop m (rev (trim_start s)))"
    using strip_while_drop unfolding trim_def trim_end_def by blast
  then have "set (trim s) \<subseteq> set (trim_start s)"
    by (metis set_drop_subset set_rev)
  also have "\<dots> \<subseteq> set s" using n by (metis set_drop_subset)
  finally show ?thesis .
qed

lemma is_ascii_alphanumeric_ascii: "is_ascii_alphanumeric c \<Longrightarrow> byte c < 128"
  by (auto simp: byte_class_defs)

lemma sat_i64_in [simp]: "in_i64 (sat_i64 x)"
  by (simp add: i64_defs)

lemma sat_i64_id [simp]: "in_i64 x \<Longrightarrow> sat_i64 x = x"
  by (simp add: i64_defs)

section \<open>Hash maps as association lists\<close>

text \<open>
  A \<open>HashMap\<close> is an association list with distinct keys. Iteration order is not specified by the
  standard library, and no theorem of the development depends on it.
\<close>

type_synonym 'v hmap = "(rstr \<times> 'v) list"

definition hm_wf :: "'v hmap \<Rightarrow> bool" where
  "hm_wf m \<longleftrightarrow> distinct (map fst m)"

definition hm_get :: "'v hmap \<Rightarrow> rstr \<Rightarrow> 'v option" where
  "hm_get m k = map_of m k"

definition hm_insert :: "rstr \<Rightarrow> 'v \<Rightarrow> 'v hmap \<Rightarrow> 'v hmap" where
  "hm_insert k v m = AList.update k v m"

definition hm_remove :: "rstr \<Rightarrow> 'v hmap \<Rightarrow> 'v hmap" where
  "hm_remove k m = AList.delete k m"

definition hm_retain :: "('v \<Rightarrow> bool) \<Rightarrow> 'v hmap \<Rightarrow> 'v hmap" where
  "hm_retain p m = filter (\<lambda>(k, v). p v) m"

lemma hm_get_insert [simp]: "hm_get (hm_insert k v m) = (hm_get m)(k \<mapsto> v)"
  by (simp add: hm_get_def hm_insert_def update_conv' fun_eq_iff)

lemma hm_get_remove [simp]: "hm_get (hm_remove k m) = (hm_get m)(k := None)"
  by (simp add: hm_get_def hm_remove_def delete_conv' fun_eq_iff)

lemma hm_get_empty [simp]: "hm_get [] k = None"
  by (simp add: hm_get_def)

lemma hm_wf_empty [simp]: "hm_wf []"
  by (simp add: hm_wf_def)

lemma hm_wf_insert [simp]: "hm_wf m \<Longrightarrow> hm_wf (hm_insert k v m)"
  by (simp add: hm_wf_def hm_insert_def distinct_update)

lemma hm_wf_remove [simp]: "hm_wf m \<Longrightarrow> hm_wf (hm_remove k m)"
  by (simp add: hm_wf_def hm_remove_def distinct_delete)

lemma hm_wf_retain [simp]: "hm_wf m \<Longrightarrow> hm_wf (hm_retain p m)"
  by (simp add: hm_wf_def hm_retain_def distinct_map_filter)

lemma hm_get_retain:
  "hm_wf m \<Longrightarrow> hm_get (hm_retain p m) k =
     (case hm_get m k of Some v \<Rightarrow> if p v then Some v else None | None \<Rightarrow> None)"
  unfolding hm_wf_def hm_get_def hm_retain_def
proof (induction m)
  case (Cons a m)
  then show ?case
    by (cases a) (auto simp: map_of_eq_None_iff split: option.splits)
qed simp

lemma hm_mem_iff: "hm_wf m \<Longrightarrow> (k, v) \<in> set m \<longleftrightarrow> hm_get m k = Some v"
  unfolding hm_wf_def hm_get_def by simp

section \<open>Ordered maps\<close>

text \<open>
  A \<open>BTreeMap\<close> is an association list sorted strictly by key: iteration is in key order, which for
  \<open>String\<close> keys is the lexicographic order of the bytes (\<open>Char_ord\<close> and \<open>List_Lexorder\<close>).
\<close>

fun bt_insert :: "'k::linorder \<Rightarrow> 'v \<Rightarrow> ('k \<times> 'v) list \<Rightarrow> ('k \<times> 'v) list" where
  "bt_insert k v [] = [(k, v)]"
| "bt_insert k v ((k', v') # m) =
     (if k < k' then (k, v) # (k', v') # m
      else if k = k' then (k, v) # m
      else (k', v') # bt_insert k v m)"

definition bt_of_list :: "('k::linorder \<times> 'v) list \<Rightarrow> ('k \<times> 'v) list" where
  "bt_of_list kvs = fold (\<lambda>(k, v). bt_insert k v) kvs []"

definition bt_wf :: "('k::linorder \<times> 'v) list \<Rightarrow> bool" where
  "bt_wf m \<longleftrightarrow> sorted_wrt (<) (map fst m)"

lemma set_keys_bt_insert: "set (map fst (bt_insert k v m)) = insert k (set (map fst m))"
  by (induction k v m rule: bt_insert.induct) auto

lemma bt_wf_insert: "bt_wf m \<Longrightarrow> bt_wf (bt_insert k v m)"
proof (induction k v m rule: bt_insert.induct)
  case (2 k v k' v' m)
  have keys: "fst ` set (bt_insert k v m) = insert k (fst ` set m)"
    using set_keys_bt_insert [of k v m] by simp
  have "sorted_wrt (<) (map fst (bt_insert k v m))" if "k' < k"
    using 2 that unfolding bt_wf_def by auto
  moreover have "\<forall>x \<in> fst ` set (bt_insert k v m). k' < x" if "k' < k"
    using 2(2) that keys unfolding bt_wf_def by auto
  ultimately show ?case using 2(2) unfolding bt_wf_def by force
qed (simp add: bt_wf_def)

lemma bt_wf_distinct: "bt_wf m \<Longrightarrow> distinct (map fst m)"
  unfolding bt_wf_def by (simp add: strict_sorted_iff)

lemma map_of_bt_insert [simp]: "map_of (bt_insert k v m) = (map_of m)(k \<mapsto> v)"
  by (induction k v m rule: bt_insert.induct) (auto simp: fun_eq_iff)

lemma bt_wf_fold: "bt_wf m \<Longrightarrow> bt_wf (fold (\<lambda>(k, v). bt_insert k v) kvs m)"
  by (induction kvs arbitrary: m) (auto simp: bt_wf_insert)

lemma bt_wf_of_list [simp]: "bt_wf (bt_of_list kvs)"
  unfolding bt_of_list_def by (rule bt_wf_fold) (simp add: bt_wf_def)

lemma map_of_bt_fold:
  "map_of (fold (\<lambda>(k, v). bt_insert k v) kvs m) = map_of m ++ map_of (rev kvs)"
  by (induction kvs arbitrary: m) (auto simp: map_add_def fun_eq_iff split: option.splits)

lemma map_of_bt_of_list: "map_of (bt_of_list kvs) = map_of (rev kvs)"
  unfolding bt_of_list_def by (simp add: map_of_bt_fold)

end
