(* ===== verification/Core_Types.thy ===== *)
theory Core_Types
  imports Prelude
begin

text \<open>
  The shared domain model of crates/kyvon-core/src: the risk tiers (risk.rs), the error type
  (error.rs), the capability map and host facts (capability.rs), roles, tokens and approval requests
  (mcp.rs), the server inventory with its validation and the connection state machine
  (inventory.rs), and the host key records (host.rs).
\<close>

section \<open>Risk tiers (risk.rs)\<close>

datatype RiskTier = Safe | Low | Medium | High | Critical

text \<open>The order derived by \<open>#[derive(PartialOrd, Ord)]\<close> is the order of the constructors.\<close>

primrec tier_rank :: "RiskTier \<Rightarrow> nat" where
  "tier_rank Safe = 0"
| "tier_rank Low = 1"
| "tier_rank Medium = 2"
| "tier_rank High = 3"
| "tier_rank Critical = 4"

lemma tier_rank_inj: "tier_rank a = tier_rank b \<Longrightarrow> a = b"
  by (cases a; cases b) auto

instantiation RiskTier :: linorder
begin

definition less_eq_RiskTier :: "RiskTier \<Rightarrow> RiskTier \<Rightarrow> bool" where
  "less_eq_RiskTier a b \<longleftrightarrow> tier_rank a \<le> tier_rank b"

definition less_RiskTier :: "RiskTier \<Rightarrow> RiskTier \<Rightarrow> bool" where
  "less_RiskTier a b \<longleftrightarrow> tier_rank a < tier_rank b"

instance
  by standard (auto simp: less_eq_RiskTier_def less_RiskTier_def dest: tier_rank_inj)

end

lemmas tier_order_defs = less_eq_RiskTier_def less_RiskTier_def

lemma Safe_least [simp]: "Safe \<le> t"
  by (simp add: tier_order_defs)

lemma Critical_greatest [simp]: "t \<le> Critical"
  by (cases t) (simp_all add: tier_order_defs)

lemma le_Safe_iff [simp]: "t \<le> Safe \<longleftrightarrow> t = Safe"
  by (cases t) (simp_all add: tier_order_defs)

lemma Critical_le_iff [simp]: "Critical \<le> t \<longleftrightarrow> t = Critical"
  by (cases t) (simp_all add: tier_order_defs)

primrec tier_as_str :: "RiskTier \<Rightarrow> rstr" where
  "tier_as_str Safe = ''safe''"
| "tier_as_str Low = ''low''"
| "tier_as_str Medium = ''medium''"
| "tier_as_str High = ''high''"
| "tier_as_str Critical = ''critical''"

definition requires_typed_confirmation :: "RiskTier \<Rightarrow> bool" where
  "requires_typed_confirmation t \<longleftrightarrow> (case t of High \<Rightarrow> True | Critical \<Rightarrow> True | _ \<Rightarrow> False)"

definition is_auto_executable :: "RiskTier \<Rightarrow> bool" where
  "is_auto_executable t \<longleftrightarrow> (case t of Safe \<Rightarrow> True | _ \<Rightarrow> False)"

record RiskAssessment =
  ra_tier :: RiskTier
  ra_command :: rstr
  ra_reasons :: "rstr list"
  ra_expected_impact :: "rstr list"
  ra_unknown_constructs :: "rstr list"

definition assessment_safe :: "rstr \<Rightarrow> RiskAssessment" where
  "assessment_safe command =
     \<lparr>ra_tier = Safe, ra_command = command,
      ra_reasons = [''reads system state without modifying it''],
      ra_expected_impact = [], ra_unknown_constructs = []\<rparr>"

section \<open>Errors (error.rs)\<close>

type_synonym u16 = "16 word"
type_synonym u32 = "32 word"
type_synonym u64 = "64 word"

datatype KyvonError =
    UnknownServer rstr
  | NotConnected rstr
  | ConnectTimeout rstr u64
  | Unreachable rstr u16 rstr
  | AuthFailed rstr rstr rstr
  | HostKeyUntrusted rstr rstr
  | HostKeyMismatch rstr rstr rstr
  | Transport rstr
  | Sftp rstr
  | RemoteCommand u32 rstr
  | Unsupported rstr
  | PermissionDenied rstr
  | Refused rstr
  | Invalid rstr
  | ParseError rstr rstr
  | Storage rstr
  | Vault rstr
  | Io rstr

type_synonym 'a result = "KyvonError + 'a"

definition remedies :: "KyvonError \<Rightarrow> rstr list" where
  "remedies e =
     (case e of
        ConnectTimeout _ _ \<Rightarrow>
          [''the hostname or IP address is incorrect'',
           ''the SSH port is not the one configured'',
           ''a firewall or security group is blocking the connection'',
           ''the server is powered off or still booting'']
      | Unreachable _ _ _ \<Rightarrow>
          [''the hostname or IP address is incorrect'',
           ''the SSH port is not the one configured'',
           ''a firewall or security group is blocking the connection'',
           ''the server is powered off or still booting'']
      | AuthFailed _ _ _ \<Rightarrow>
          [''the username is incorrect for this host'',
           ''the private key is not authorised on the server'',
           ''the key requires a passphrase that was not supplied'',
           ''the server rejects this authentication method'']
      | HostKeyMismatch _ _ _ \<Rightarrow>
          [''the server was rebuilt and regenerated its host key'',
           ''the address now resolves to a different machine'',
           ''the connection is being intercepted'']
      | PermissionDenied _ \<Rightarrow>
          [''the login user lacks permission for this path or unit'',
           ''the action requires elevated privileges'']
      | Unsupported _ \<Rightarrow>
          [''the remote system does not ship this component'',
           ''the component is present but not on the login PATH'']
      | _ \<Rightarrow> [])"

definition is_retryable :: "KyvonError \<Rightarrow> bool" where
  "is_retryable e \<longleftrightarrow>
     (case e of ConnectTimeout _ _ \<Rightarrow> True | Unreachable _ _ _ \<Rightarrow> True | Transport _ \<Rightarrow> True
      | NotConnected _ \<Rightarrow> True | _ \<Rightarrow> False)"

text \<open>The messages of the \<open>error\<close> attributes; the dash is U+2014.\<close>

abbreviation EM_DASH :: rstr where
  "EM_DASH \<equiv> [CHR 0xE2, CHR 0x80, CHR 0x94]"

definition display_error :: "KyvonError \<Rightarrow> rstr" where
  "display_error e =
     (case e of
        UnknownServer s \<Rightarrow> ''no server is registered with id '' @ s
      | NotConnected s \<Rightarrow> ''server '' @ s @ '' is not connected''
      | ConnectTimeout host secs \<Rightarrow> ''connection to '' @ host @ '' timed out after '' @ show_nat (unat secs) @ ''s''
      | Unreachable host port reason \<Rightarrow>
          ''could not reach '' @ host @ '':'' @ show_nat (unat port) @ '' '' @ EM_DASH @ '' '' @ reason
      | AuthFailed host username meth \<Rightarrow>
          ''authentication failed for '' @ username @ ''@'' @ host @ '' using '' @ meth
      | HostKeyUntrusted host fp \<Rightarrow> ''host key for '' @ host @ '' is not trusted''
      | HostKeyMismatch host expected presented \<Rightarrow>
          ''host key for '' @ host @ '' CHANGED '' @ EM_DASH @ '' this may indicate interception''
      | Transport s \<Rightarrow> ''ssh transport error: '' @ s
      | Sftp s \<Rightarrow> ''sftp error: '' @ s
      | RemoteCommand status stderr \<Rightarrow>
          ''remote command exited with status '' @ show_nat (unat status) @ '': '' @ stderr
      | Unsupported s \<Rightarrow> ''the remote host does not provide '' @ s
      | PermissionDenied s \<Rightarrow> ''permission denied: '' @ s
      | Refused s \<Rightarrow> ''operation refused by the safety gate: '' @ s
      | Invalid s \<Rightarrow> ''invalid input: '' @ s
      | ParseError what reason \<Rightarrow> ''could not parse '' @ what @ '': '' @ reason
      | Storage s \<Rightarrow> ''storage error: '' @ s
      | Vault s \<Rightarrow> ''secret vault error: '' @ s
      | Io s \<Rightarrow> ''io error: '' @ s)"

section \<open>Capabilities and host facts (capability.rs)\<close>

type_synonym Capabilities = "(rstr \<times> bool) list"

definition caps_new :: Capabilities where
  "caps_new = []"

definition caps_set :: "rstr \<Rightarrow> bool \<Rightarrow> Capabilities \<Rightarrow> Capabilities" where
  "caps_set key present inner = bt_insert key present inner"

definition caps_has :: "Capabilities \<Rightarrow> rstr \<Rightarrow> bool" where
  "caps_has inner key = (case map_of inner key of None \<Rightarrow> False | Some b \<Rightarrow> b)"

definition caps_present :: "Capabilities \<Rightarrow> rstr list" where
  "caps_present inner = map fst (filter (\<lambda>(_, v). v) inner)"

definition caps_is_empty :: "Capabilities \<Rightarrow> bool" where
  "caps_is_empty inner \<longleftrightarrow> inner = []"

definition caps_from_iter :: "(rstr \<times> bool) list \<Rightarrow> Capabilities" where
  "caps_from_iter kvs = bt_of_list kvs"

definition caps_ALL :: "rstr list" where
  "caps_ALL =
     [''systemd'', ''journalctl'', ''proc'', ''docker'', ''ss'', ''ip'', ''ufw'', ''firewalld'',
      ''nftables'', ''iptables'', ''nginx'', ''apache'', ''postgres'', ''mysql'', ''redis'',
      ''node'', ''php'', ''python'', ''sudo_nopasswd'', ''ebpf'']"

record CapabilityProbe =
  cp_key :: rstr
  cp_label :: rstr
  cp_present :: bool
  cp_version :: "rstr option"

datatype Confidence = ConfHigh | ConfMedium | ConfLow

record CloudHint =
  ch_provider :: rstr
  ch_confidence :: Confidence
  ch_evidence :: rstr

record HostFacts =
  hf_os_id :: rstr
  hf_os_name :: rstr
  hf_os_version :: rstr
  hf_arch :: rstr
  hf_kernel :: rstr
  hf_hostname :: rstr
  hf_package_manager :: rstr
  hf_cpu_cores :: u32
  hf_memory_total_bytes :: u64
  hf_uptime_secs :: u64
  hf_cloud :: "CloudHint option"
  hf_capabilities :: Capabilities
  hf_probed_at :: TimestampMs

section \<open>The MCP data model (mcp.rs)\<close>

datatype McpRole = Observer | Developer | Operator | Administrator

definition can_write :: "McpRole \<Rightarrow> bool" where
  "can_write r \<longleftrightarrow> (case r of Developer \<Rightarrow> True | Operator \<Rightarrow> True | Administrator \<Rightarrow> True | _ \<Rightarrow> False)"

definition can_deploy_production :: "McpRole \<Rightarrow> bool" where
  "can_deploy_production r \<longleftrightarrow> (case r of Operator \<Rightarrow> True | Administrator \<Rightarrow> True | _ \<Rightarrow> False)"

definition can_administer :: "McpRole \<Rightarrow> bool" where
  "can_administer r \<longleftrightarrow> (case r of Administrator \<Rightarrow> True | _ \<Rightarrow> False)"

record EphemeralToken =
  tok_id :: rstr
  tok_server_id :: rstr
  tok_scope :: rstr
  tok_issued_at_ms :: TimestampMs
  tok_expires_at_ms :: TimestampMs

definition token_is_valid :: "EphemeralToken \<Rightarrow> TimestampMs \<Rightarrow> bool" where
  "token_is_valid t now_ms \<longleftrightarrow> now_ms < tok_expires_at_ms t"

datatype ApprovalStatus = Pending | Approved | Rejected | Expired

record McpApprovalRequest =
  req_request_id :: rstr
  req_server_id :: rstr
  req_actor :: rstr
  req_tool_name :: rstr
  req_operation_summary :: rstr
  req_risk_tier :: RiskTier
  req_proposed_commands :: "rstr list"
  req_expected_impact :: rstr
  req_requires_second_confirmation :: bool
  req_requires_backup_verification :: bool
  req_status :: ApprovalStatus
  req_created_at_ms :: TimestampMs

section \<open>The inventory (inventory.rs, host.rs)\<close>

datatype AuthMethod =
    Password
  | PrivateKey (key_path: rstr) (key_encrypted: bool)
  | Agent

definition auth_label :: "AuthMethod \<Rightarrow> rstr" where
  "auth_label a = (case a of Password \<Rightarrow> ''password'' | PrivateKey _ _ \<Rightarrow> ''publickey''
                   | Agent \<Rightarrow> ''ssh-agent'')"

record ServerProfile =
  sp_id :: rstr
  sp_alias :: rstr
  sp_hostname :: rstr
  sp_port :: u16
  sp_username :: rstr
  sp_auth :: AuthMethod
  sp_tags :: "rstr list"
  sp_facts :: "HostFacts option"
  sp_created_at :: TimestampMs
  sp_updated_at :: TimestampMs

definition target :: "ServerProfile \<Rightarrow> rstr" where
  "target p = sp_username p @ ''@'' @ sp_hostname p @ '':'' @ show_nat (unat (sp_port p))"

definition posix_user_char :: "char \<Rightarrow> bool" where
  "posix_user_char c \<longleftrightarrow> is_ascii_alphanumeric c \<or> c \<in> {CHR ''_'', CHR ''-'', CHR ''.'', CHR ''$''}"

text \<open>\<open>std::path::Path::is_absolute\<close> on Unix: the path starts at the root.\<close>

definition path_is_absolute :: "rstr \<Rightarrow> bool" where
  "path_is_absolute p \<longleftrightarrow> starts_with p ''/''"

definition validate :: "ServerProfile \<Rightarrow> unit result" where
  "validate p =
     (if trim (sp_alias p) = [] then Inl (Invalid ''alias must not be empty'')
      else if trim (sp_hostname p) = [] then Inl (Invalid ''hostname must not be empty'')
      else if has_whitespace (sp_hostname p) then Inl (Invalid ''hostname must not contain whitespace'')
      else if sp_port p = 0 then Inl (Invalid ''port must be between 1 and 65535'')
      else if trim (sp_username p) = [] then Inl (Invalid ''username must not be empty'')
      else if \<not> list_all posix_user_char (sp_username p) then
        Inl (Invalid (''username `'' @ sp_username p @
          ''` contains characters that are not valid in a POSIX user name''))
      else (case sp_auth p of
              PrivateKey path _ \<Rightarrow>
                if trim path = [] then Inl (Invalid ''private key path must not be empty'')
                else if \<not> path_is_absolute path then
                  Inl (Invalid ''private key path must be absolute on this workstation'')
                else Inr ()
            | _ \<Rightarrow> Inr ()))"

datatype ConnectionState =
    Disconnected | Connecting | VerifyingHost | Authenticating | Connected | Reconnecting | StError

definition can_transition_to :: "ConnectionState \<Rightarrow> ConnectionState \<Rightarrow> bool" where
  "can_transition_to a b \<longleftrightarrow>
     (if a = b then True
      else case a of
             Disconnected \<Rightarrow> b = Connecting
           | Connecting \<Rightarrow> b \<in> {VerifyingHost, StError, Disconnected}
           | VerifyingHost \<Rightarrow> b \<in> {Authenticating, StError, Disconnected}
           | Authenticating \<Rightarrow> b \<in> {Connected, StError, Disconnected}
           | Connected \<Rightarrow> b \<in> {Reconnecting, Disconnected, StError}
           | Reconnecting \<Rightarrow> b \<in> {Connecting, Connected, StError, Disconnected}
           | StError \<Rightarrow> b \<in> {Connecting, Disconnected})"

definition is_live :: "ConnectionState \<Rightarrow> bool" where
  "is_live s \<longleftrightarrow> (case s of Connected \<Rightarrow> True | _ \<Rightarrow> False)"

record ServerStatus =
  ss_server_id :: rstr
  ss_state :: ConnectionState
  ss_last_error :: "rstr option"
  ss_connected_at :: "TimestampMs option"
  ss_latency_ms :: "u32 option"

definition status_disconnected :: "rstr \<Rightarrow> ServerStatus" where
  "status_disconnected server_id =
     \<lparr>ss_server_id = server_id, ss_state = Disconnected, ss_last_error = None,
      ss_connected_at = None, ss_latency_ms = None\<rparr>"

record KnownHost =
  kh_host :: rstr
  kh_port :: u16
  kh_key_type :: rstr
  kh_fingerprint :: rstr
  kh_public_key :: rstr
  kh_trusted_at :: TimestampMs

record HostKeyPrompt =
  hkp_server_id :: rstr
  hkp_host :: rstr
  hkp_port :: u16
  hkp_key_type :: rstr
  hkp_fingerprint :: rstr
  hkp_public_key :: rstr
  hkp_previous_fingerprint :: "rstr option"

definition is_change :: "HostKeyPrompt \<Rightarrow> bool" where
  "is_change p \<longleftrightarrow> hkp_previous_fingerprint p \<noteq> None"

section \<open>Lemmas\<close>

lemma requires_typed_confirmation_iff: "requires_typed_confirmation t \<longleftrightarrow> High \<le> t"
  by (cases t) (auto simp: requires_typed_confirmation_def tier_order_defs)

lemma is_auto_executable_iff: "is_auto_executable t \<longleftrightarrow> t = Safe"
  by (cases t) (auto simp: is_auto_executable_def)

lemma can_deploy_imp_write: "can_deploy_production r \<Longrightarrow> can_write r"
  by (cases r) (auto simp: can_deploy_production_def can_write_def)

lemma caps_has_set: "caps_has (caps_set k b c) k' = (if k' = k then b else caps_has c k')"
  by (simp add: caps_has_def caps_set_def)

lemma caps_fold:
  "map_of (fold (\<lambda>(key, probe). caps_set key (P probe)) probes caps) key =
     (case map_of (rev probes) key of Some probe \<Rightarrow> Some (P probe) | None \<Rightarrow> map_of caps key)"
  by (induction probes arbitrary: caps) (auto simp: caps_set_def map_add_def split: option.splits)

lemma validate_okD:
  assumes "validate p = Inr ()"
  shows "trim (sp_alias p) \<noteq> []" and "sp_port p \<noteq> 0" and "\<not> has_whitespace (sp_hostname p)"
    and "sp_username p \<noteq> []" and "list_all posix_user_char (sp_username p)"
    and "sp_auth p = PrivateKey path enc \<Longrightarrow> starts_with path ''/''"
proof -
  show "trim (sp_alias p) \<noteq> []" "sp_port p \<noteq> 0" "\<not> has_whitespace (sp_hostname p)"
    "list_all posix_user_char (sp_username p)"
    using assms by (auto simp: validate_def split: if_splits)
  show "sp_username p \<noteq> []"
  proof
    assume "sp_username p = []"
    then have "trim (sp_username p) = []" using set_trim [of "sp_username p"] by simp
    with assms show False by (auto simp: validate_def split: if_splits)
  qed
  show "sp_auth p = PrivateKey path enc \<Longrightarrow> starts_with path ''/''"
    using assms by (auto simp: validate_def path_is_absolute_def split: if_splits)
qed

end
