(* ===== verification/Shell.thy ===== *)
theory Shell
  imports Core_Types
begin

text \<open>
  crates/kyvon-security/src/shell.rs: \<open>quote\<close> and the command builder \<open>Cmd\<close>. The specification
  is a reader for the POSIX shell word grammar (\<open>sh_run\<close>): blanks separate words, single quotes and
  backslashes quote, and every unquoted byte with a meaning of its own to the shell makes the reader
  give up (\<open>None\<close>). The interface \<open>word_reader\<close> states what a reader of command lines has to do
  with a quoted word; the lemma that a rendered command reads back as its words is proved once there
  and holds for the shell here and for the classifier's own parser in the theory Risk_Parse.
\<close>

section \<open>Quoting and rendering\<close>

definition bare_byte :: "char \<Rightarrow> bool" where
  "bare_byte b \<longleftrightarrow> is_ascii_alphanumeric b \<or>
     b \<in> {CHR ''_'', CHR ''-'', CHR ''.'', CHR ''/'', CHR '':'', CHR ''@'', CHR '',''}"

definition quote_char :: "char \<Rightarrow> rstr" where
  "quote_char c = (if c = SQ then [SQ, BSL, SQ, SQ] else [c])"

definition quote :: "rstr \<Rightarrow> rstr" where
  "quote s = (if s \<noteq> [] \<and> list_all bare_byte s then s
              else SQ # concat (map quote_char s) @ [SQ])"

record Cmd =
  cmd_program :: rstr
  cmd_args :: "rstr list"
  cmd_sudo :: bool

definition program_byte :: "char \<Rightarrow> bool" where
  "program_byte b \<longleftrightarrow> is_ascii_alphanumeric b \<or> b \<in> {CHR ''_'', CHR ''-'', CHR ''.'', CHR ''/''}"

definition cmd_new :: "rstr \<Rightarrow> Cmd result" where
  "cmd_new program =
     (if \<not> (program \<noteq> [] \<and> list_all program_byte program \<and> \<not> contains program ''..'')
      then Inl (Invalid (''`'' @ program @ ''` is not a valid program name''))
      else Inr \<lparr>cmd_program = program, cmd_args = [], cmd_sudo = False\<rparr>)"

definition cmd_arg :: "rstr \<Rightarrow> Cmd \<Rightarrow> Cmd" where
  "cmd_arg a c = c\<lparr>cmd_args := cmd_args c @ [a]\<rparr>"

definition cmd_args_extend :: "rstr list \<Rightarrow> Cmd \<Rightarrow> Cmd" where
  "cmd_args_extend items c = c\<lparr>cmd_args := cmd_args c @ items\<rparr>"

definition cmd_with_sudo :: "Cmd \<Rightarrow> Cmd" where
  "cmd_with_sudo c = c\<lparr>cmd_sudo := True\<rparr>"

definition render :: "Cmd \<Rightarrow> rstr" where
  "render c = join '' '' ((if cmd_sudo c then [''sudo'', ''-n''] else [])
                @ quote (cmd_program c) # map quote (cmd_args c))"

text \<open>The commands a client of the builder can hold: the fields of \<open>Cmd\<close> are private.\<close>

inductive built :: "Cmd \<Rightarrow> bool" where
  built_new: "cmd_new p = Inr c \<Longrightarrow> built c"
| built_arg: "built c \<Longrightarrow> built (cmd_arg a c)"
| built_args: "built c \<Longrightarrow> built (cmd_args_extend as c)"
| built_sudo: "built c \<Longrightarrow> built (cmd_with_sudo c)"

definition cmd_words :: "Cmd \<Rightarrow> rstr list" where
  "cmd_words c = (if cmd_sudo c then [''sudo'', ''-n''] else []) @ cmd_program c # cmd_args c"

section \<open>The POSIX shell's view of a command line\<close>

datatype sh_mode = Unquoted | SingleQuoted

definition sh_special :: "char set" where
  "sh_special = set ''|&;<>()$*?[]#~=%{}!^'' \<union> {SP, TAB, NL, NUL, DQ, SQ, BSL, BQ}"

definition word_so_far :: "rstr option \<Rightarrow> rstr" where
  "word_so_far cur = (case cur of None \<Rightarrow> [] | Some w \<Rightarrow> w)"

definition emit_word :: "rstr list \<Rightarrow> rstr option \<Rightarrow> rstr list" where
  "emit_word ws cur = (case cur of None \<Rightarrow> ws | Some w \<Rightarrow> ws @ [w])"

fun sh_run :: "sh_mode \<Rightarrow> rstr list \<Rightarrow> rstr option \<Rightarrow> rstr \<Rightarrow> rstr list option" where
  "sh_run Unquoted ws cur [] = Some (emit_word ws cur)"
| "sh_run SingleQuoted ws cur [] = None"
| "sh_run SingleQuoted ws cur (c # s) =
     (if c = SQ then sh_run Unquoted ws cur s
      else if c = NUL then None
      else sh_run SingleQuoted ws (Some (word_so_far cur @ [c])) s)"
| "sh_run Unquoted ws cur (c # s) =
     (if c = SQ then sh_run SingleQuoted ws (Some (word_so_far cur)) s
      else if c = BSL then
        (case s of [] \<Rightarrow> None
         | d # s' \<Rightarrow> if d = NL \<or> d = NUL then None
                    else sh_run Unquoted ws (Some (word_so_far cur @ [d])) s')
      else if c = SP \<or> c = TAB then sh_run Unquoted (emit_word ws cur) None s
      else if c \<in> sh_special then None
      else sh_run Unquoted ws (Some (word_so_far cur @ [c])) s)"

definition sh_words :: "rstr \<Rightarrow> rstr list option" where
  "sh_words line = sh_run Unquoted [] None line"

section \<open>Readers of command lines\<close>

fun after_words :: "('s \<Rightarrow> rstr \<Rightarrow> 's) \<Rightarrow> ('s \<Rightarrow> 's) \<Rightarrow> 's \<Rightarrow> rstr list \<Rightarrow> 's" where
  "after_words in_word close_word s [] = s"
| "after_words in_word close_word s [w] = in_word s w"
| "after_words in_word close_word s (w # v # ws) =
     after_words in_word close_word (close_word (in_word s w)) (v # ws)"

locale word_reader =
  fixes read :: "'s \<Rightarrow> rstr \<Rightarrow> 'r"
    and fresh :: "'s \<Rightarrow> bool"
    and in_word :: "'s \<Rightarrow> rstr \<Rightarrow> 's"
    and close_word :: "'s \<Rightarrow> 's"
    and readable :: "rstr \<Rightarrow> bool"
  assumes read_quote: "fresh s \<Longrightarrow> readable w \<Longrightarrow> read s (quote w @ t) = read (in_word s w) t"
    and read_blank: "fresh s \<Longrightarrow> read (in_word s w) (SP # t) = read (close_word (in_word s w)) t"
    and fresh_close: "fresh s \<Longrightarrow> fresh (close_word (in_word s w))"
begin

lemma read_line:
  assumes "fresh s" and "ws \<noteq> []" and "\<forall>w \<in> set ws. readable w"
  shows "read s (join '' '' (map quote ws)) = read (after_words in_word close_word s ws) []"
  using assms
proof (induction ws arbitrary: s rule: induct_list012)
  case (2 w)
  then show ?case using read_quote [of s w "[]"] by simp
next
  case (3 w v ws)
  then have "read s (join '' '' (map quote (w # v # ws)))
      = read (close_word (in_word s w)) (join '' '' (map quote (v # ws)))"
    by (simp add: read_quote read_blank)
  with 3 show ?case by (simp add: fresh_close)
qed simp

end

section \<open>The shell reads a quoted word as that word\<close>

lemma bare_byte_literal: "bare_byte c \<Longrightarrow> c \<notin> sh_special"
  by (auto simp: bare_byte_def sh_special_def byte_simps)

lemma special_bytes [simp]: "SQ \<in> sh_special" "BSL \<in> sh_special" "SP \<in> sh_special" "TAB \<in> sh_special"
  by (simp_all add: sh_special_def)

lemma program_byte_bare: "program_byte c \<Longrightarrow> bare_byte c"
  by (auto simp: program_byte_def bare_byte_def)

lemma bare_byte_not_NUL: "bare_byte c \<Longrightarrow> c \<noteq> NUL"
  by (auto simp: bare_byte_def byte_simps)

lemma sh_run_bare:
  "s \<noteq> [] \<Longrightarrow> list_all bare_byte s \<Longrightarrow>
     sh_run Unquoted ws cur (s @ t) = sh_run Unquoted ws (Some (word_so_far cur @ s)) t"
proof (induction s arbitrary: cur)
  case (Cons c s)
  then have "c \<notin> sh_special" by (simp add: bare_byte_literal)
  then have "c \<noteq> SQ" "c \<noteq> BSL" "c \<noteq> SP" "c \<noteq> TAB" "c \<notin> sh_special"
    using special_bytes by blast+
  with Cons show ?case by (cases s) (auto simp: word_so_far_def)
qed simp

lemma sh_run_quoted:
  "NUL \<notin> set s \<Longrightarrow>
     sh_run SingleQuoted ws (Some w) (concat (map quote_char s) @ SQ # t) =
     sh_run Unquoted ws (Some (w @ s)) t"
  by (induction s arbitrary: w) (auto simp: quote_char_def word_so_far_def)

lemma sh_run_quote:
  assumes "NUL \<notin> set w"
  shows "sh_run Unquoted ws None (quote w @ t) = sh_run Unquoted ws (Some w) t"
proof (cases "w \<noteq> [] \<and> list_all bare_byte w")
  case True
  then show ?thesis by (simp add: quote_def sh_run_bare word_so_far_def)
next
  case False
  then have "quote w @ t = SQ # concat (map quote_char w) @ SQ # t" by (auto simp: quote_def)
  with assms show ?thesis by (simp add: sh_run_quoted word_so_far_def)
qed

definition sh_read :: "rstr list \<times> rstr option \<Rightarrow> rstr \<Rightarrow> rstr list option" where
  "sh_read st t = sh_run Unquoted (fst st) (snd st) t"

definition sh_close :: "rstr list \<times> rstr option \<Rightarrow> rstr list \<times> rstr option" where
  "sh_close st = (emit_word (fst st) (snd st), None)"

interpretation sh: word_reader sh_read "\<lambda>st. snd st = None" "\<lambda>st w. (fst st, Some w)" sh_close
  "\<lambda>w. NUL \<notin> set w"
  by unfold_locales (auto simp: sh_read_def sh_close_def sh_run_quote)

lemma sh_after_words:
  "ws \<noteq> [] \<Longrightarrow> sh_read (after_words (\<lambda>st w. (fst st, Some w)) sh_close (us, None) ws) [] = Some (us @ ws)"
proof (induction ws arbitrary: us rule: induct_list012)
  case (3 w v ws)
  then show ?case by (simp add: sh_close_def emit_word_def)
qed (simp_all add: sh_read_def emit_word_def)

lemma quote_bare [simp]: "quote ''sudo'' = ''sudo''" "quote ''-n'' = ''-n''"
  by (simp_all add: quote_def bare_byte_def byte_simps)

lemma render_eq: "render c = join '' '' (map quote (cmd_words c))"
  by (simp add: render_def cmd_words_def)

lemma built_program:
  "built c \<Longrightarrow> cmd_program c \<noteq> [] \<and> list_all program_byte (cmd_program c) \<and>
     \<not> contains (cmd_program c) ''..''"
  by (induction rule: built.induct)
    (auto simp: cmd_new_def cmd_arg_def cmd_args_extend_def cmd_with_sudo_def split: if_splits)

lemma built_words_no_NUL:
  assumes "built c" and "\<forall>a \<in> set (cmd_args c). NUL \<notin> set a"
  shows "\<forall>w \<in> set (cmd_words c). NUL \<notin> set w"
proof -
  have "NUL \<notin> set (cmd_program c)"
    using built_program [OF assms(1)]
    by (metis bare_byte_not_NUL list_all_iff program_byte_bare)
  with assms(2) show ?thesis by (auto simp: cmd_words_def)
qed

lemma sh_words_render:
  assumes "built c" and "\<forall>a \<in> set (cmd_args c). NUL \<notin> set a"
  shows "sh_words (render c) = Some (cmd_words c)"
proof -
  have ne: "cmd_words c \<noteq> []" by (simp add: cmd_words_def)
  have "sh_words (render c) = sh_read ([], None) (join '' '' (map quote (cmd_words c)))"
    by (simp add: sh_words_def sh_read_def render_eq)
  also have "\<dots> = Some (cmd_words c)"
    using sh.read_line [OF _ ne built_words_no_NUL [OF assms]] sh_after_words [OF ne, of "[]"]
    by simp
  finally show ?thesis .
qed

section \<open>Properties\<close>

text \<open>
  C1. The injection-safety of the command builder. Whatever arguments a caller supplies, the string
  that \<open>render\<close> sends to the remote shell reads there as exactly the intended words: \<open>sudo -n\<close> when
  asked for, the program, and one word for each argument, with no expansion, no operator and no
  further command. An argument with a NUL byte is excluded, since no shell command line carries one.
\<close>

theorem render_reads_back:
  assumes "built c" and "\<forall>a \<in> set (cmd_args c). NUL \<notin> set a"
  shows "sh_words (render c) =
    Some ((if cmd_sudo c then [''sudo'', ''-n''] else []) @ cmd_program c # cmd_args c)"
  using sh_words_render [OF assms] by (simp add: cmd_words_def)

theorem render_reads_back_witness:
  "sh_words (render (cmd_with_sudo (cmd_arg [SQ, CHR '';'', SP, CHR ''x'']
      \<lparr>cmd_program = ''ls'', cmd_args = [], cmd_sudo = False\<rparr>))) =
   Some [''sudo'', ''-n'', ''ls'', [SQ, CHR '';'', SP, CHR ''x'']]"
proof -
  let ?c = "\<lparr>cmd_program = ''ls'', cmd_args = [], cmd_sudo = False\<rparr>"
  have "cmd_new ''ls'' = Inr ?c"
    by (simp add: cmd_new_def program_byte_def byte_simps sublist_code)
  then have "built (cmd_with_sudo (cmd_arg [SQ, CHR '';'', SP, CHR ''x''] ?c))"
    by (intro built.intros)
  from render_reads_back [OF this] show ?thesis
    by (simp add: cmd_with_sudo_def cmd_arg_def)
qed

text \<open>
  Quoting is faithful for every string without a NUL byte, empty and hostile ones included: the
  shell reads \<open>quote s\<close> as the single word \<open>s\<close>, so two different values never render alike.
\<close>

theorem quote_one_word: "NUL \<notin> set s \<Longrightarrow> sh_words (quote s) = Some [s]"
  using sh_run_quote [of s "[]" "[]"] by (simp add: sh_words_def emit_word_def)

theorem quote_one_word_witness:
  "sh_words (quote [SQ, CHR '';'', CHR ''$'']) = Some [[SQ, CHR '';'', CHR ''$'']]"
  by (rule quote_one_word) simp

text \<open>
  A program name that the builder accepts cannot smuggle anything in: every command built from
  it has a non-empty program of letters, digits and \<open>_ - . /\<close> with no \<open>..\<close> component, and a name
  that breaks this is refused with \<open>Invalid\<close>.
\<close>

theorem cmd_new_safe_program:
  "(built c \<longrightarrow> cmd_program c \<noteq> [] \<and> list_all program_byte (cmd_program c) \<and>
                 \<not> contains (cmd_program c) ''..'') \<and>
   (p = [] \<or> \<not> list_all program_byte p \<or> contains p ''..'' \<longrightarrow>
      cmd_new p = Inl (Invalid (''`'' @ p @ ''` is not a valid program name'')))"
  using built_program by (auto simp: cmd_new_def)

theorem cmd_new_safe_program_witness:
  "list_all program_byte ''ls'' \<and>
   cmd_new ''a;b'' = Inl (Invalid (''`'' @ ''a;b'' @ ''` is not a valid program name''))"
proof -
  have "cmd_new ''ls'' = Inr \<lparr>cmd_program = ''ls'', cmd_args = [], cmd_sudo = False\<rparr>"
    by (simp add: cmd_new_def program_byte_def byte_simps sublist_code)
  then have "built \<lparr>cmd_program = ''ls'', cmd_args = [], cmd_sudo = False\<rparr>"
    by (rule built_new)
  moreover have "\<not> list_all program_byte ''a;b''"
    by (simp add: program_byte_def byte_simps)
  ultimately show ?thesis
    using cmd_new_safe_program
      [of "\<lparr>cmd_program = ''ls'', cmd_args = [], cmd_sudo = False\<rparr>" "''a;b''"] by simp
qed

end
