(* ===== verification/Risk_Parse.thy ===== *)
theory Risk_Parse
  imports Shell
begin

text \<open>
  The parsing half of crates/kyvon-security/src/risk.rs (lines 101 to 436): a command line is cut
  into segments of words the way a shell would, quoting is removed, constructs that defeat static
  reading are recorded, and privilege wrappers are stripped. The loop over the character index is a
  recursion on the remaining text. The section at the end ties the parser to the command builder of
  the theory Shell.
\<close>

section \<open>Data\<close>

record Segment =
  seg_words :: "rstr list"
  seg_elevated_via :: "rstr option"
  seg_reads_pipe :: bool

record Parsed =
  par_segments :: "Segment list"
  par_opaque_constructs :: "rstr list"
  par_write_redirect_targets :: "rstr list"

definition parsed_default :: Parsed where
  "parsed_default = \<lparr>par_segments = [], par_opaque_constructs = [], par_write_redirect_targets = []\<rparr>"

section \<open>Segment accessors\<close>

definition seg_program :: "Segment \<Rightarrow> rstr option" where
  "seg_program seg = (case seg_words seg of [] \<Rightarrow> None | w # _ \<Rightarrow> Some (after_last (CHR ''/'') w))"

definition seg_args :: "Segment \<Rightarrow> rstr list" where
  "seg_args seg = tl (seg_words seg)"

definition has_flag :: "Segment \<Rightarrow> rstr \<Rightarrow> bool" where
  "has_flag seg flag \<longleftrightarrow> flag \<in> set (seg_args seg)"

definition has_short_flag :: "Segment \<Rightarrow> char \<Rightarrow> bool" where
  "has_short_flag seg ch \<longleftrightarrow>
     list_ex (\<lambda>a. starts_with a ''-'' \<and> \<not> starts_with a ''--'' \<and> ch \<in> set (tl a)) (seg_args seg)"

definition non_flags :: "Segment \<Rightarrow> rstr list" where
  "non_flags seg = filter (\<lambda>a. \<not> starts_with a ''-'') (seg_args seg)"

definition seg_subcommand :: "Segment \<Rightarrow> rstr option" where
  "seg_subcommand seg = List.find (\<lambda>a. \<not> starts_with a ''-'') (seg_args seg)"

definition seg_operands :: "Segment \<Rightarrow> rstr list" where
  "seg_operands seg = drop 1 (non_flags seg)"

definition DOWNLOADERS :: "rstr list" where
  "DOWNLOADERS = [''curl'', ''wget'', ''fetch'']"

definition SHELLS :: "rstr list" where
  "SHELLS = [''sh'', ''bash'', ''zsh'', ''dash'', ''ksh'', ''python'', ''python3'', ''perl'', ''ruby'']"

fun download_then_shell :: "Segment list \<Rightarrow> bool" where
  "download_then_shell (a # b # segs) =
     (if \<not> seg_reads_pipe b then download_then_shell (b # segs)
      else if (\<exists>p \<in> set DOWNLOADERS. seg_program a = Some p) \<and>
              (\<exists>p \<in> set SHELLS. seg_program b = Some p) then True
      else download_then_shell (b # segs))"
| "download_then_shell _ = False"

definition pipes_download_into_shell :: "Parsed \<Rightarrow> bool" where
  "pipes_download_into_shell p = download_then_shell (par_segments p)"

section \<open>Stripping assignments and privilege wrappers\<close>

definition is_assignment :: "rstr \<Rightarrow> bool" where
  "is_assignment w =
     (case find_char (CHR ''='') w of
        None \<Rightarrow> False
      | Some eq \<Rightarrow> eq > 0 \<and> list_all (\<lambda>c. is_ascii_alphanumeric c \<or> c = CHR ''_'') (take eq w))"

fun drop_sudo_options :: "rstr list \<Rightarrow> rstr list" where
  "drop_sudo_options [] = []"
| "drop_sudo_options (w # ws) =
     (if w = ''-u'' \<or> w = ''--user'' then (case ws of [] \<Rightarrow> [] | _ # ws' \<Rightarrow> drop_sudo_options ws')
      else if starts_with w ''-'' then drop_sudo_options ws
      else w # ws)"

definition drop_dash_options :: "rstr list \<Rightarrow> rstr list" where
  "drop_dash_options ws = dropWhile (\<lambda>w. starts_with w ''-'') ws"

definition drop_env_options :: "rstr list \<Rightarrow> rstr list" where
  "drop_env_options ws = dropWhile (\<lambda>w. contains w ''='' \<or> starts_with w ''-'') ws"

definition WRAPPERS :: "rstr list" where
  "WRAPPERS = [''nohup'', ''command'', ''exec'', ''time'', ''nice'', ''ionice'', ''stdbuf'', ''setsid'']"

lemma length_drop_sudo_options: "length (drop_sudo_options ws) \<le> length ws"
proof (induction ws rule: drop_sudo_options.induct)
  case (2 w ws)
  show ?case
  proof (cases "w = ''-u'' \<or> w = ''--user''")
    case True
    with 2(1) show ?thesis by (cases ws) (simp_all add: le_Suc_eq)
  next
    case False
    with 2(2) show ?thesis by (simp add: le_SucI)
  qed
qed simp

lemma length_drop_options: "length (drop_dash_options ws) \<le> length ws" "length (drop_env_options ws) \<le> length ws"
  by (simp_all add: drop_dash_options_def drop_env_options_def length_dropWhile_le)

function strip_wrappers :: "rstr option \<Rightarrow> rstr list \<Rightarrow> rstr option \<times> rstr list" where
  "strip_wrappers elevated [] = (elevated, [])"
| "strip_wrappers elevated (first # ws) =
     (if is_assignment first then strip_wrappers elevated ws
      else let base = after_last (CHR ''/'') first in
        if base = ''sudo'' \<or> base = ''doas'' then strip_wrappers (Some base) (drop_sudo_options ws)
        else if base \<in> set WRAPPERS then strip_wrappers elevated (drop_dash_options ws)
        else if base = ''env'' then strip_wrappers elevated (drop_env_options ws)
        else (elevated, first # ws))"
  by pat_completeness auto
termination
  by (relation "measure (\<lambda>(e, ws). length ws)")
    (simp_all add: length_drop_sudo_options length_drop_options less_Suc_eq_le)

declare strip_wrappers.simps(2) [simp del]

definition build_segment :: "rstr list \<Rightarrow> bool \<Rightarrow> Segment" where
  "build_segment raw reads_pipe =
     (case strip_wrappers None raw of
        (elevated_via, words) \<Rightarrow>
          \<lparr>seg_words = words, seg_elevated_via = elevated_via, seg_reads_pipe = reads_pipe\<rparr>)"

section \<open>The scanner\<close>

text \<open>The mutable variables of \<open>parse\<close>.\<close>

record pstate =
  ps_parsed :: Parsed
  ps_words :: "rstr list"
  ps_current :: rstr
  ps_has_current :: bool
  ps_reads_pipe :: bool
  ps_pending_redirect :: bool

definition pstate_init :: pstate where
  "pstate_init = \<lparr>ps_parsed = parsed_default, ps_words = [], ps_current = [], ps_has_current = False,
                  ps_reads_pipe = False, ps_pending_redirect = False\<rparr>"

definition push_word :: "pstate \<Rightarrow> pstate" where
  "push_word st =
     (if ps_has_current st then
        (let st' = (if ps_pending_redirect st then
                      st\<lparr>ps_pending_redirect := False,
                         ps_parsed := ps_parsed st\<lparr>par_write_redirect_targets :=
                           par_write_redirect_targets (ps_parsed st) @ [ps_current st]\<rparr>\<rparr>
                    else st\<lparr>ps_words := ps_words st @ [ps_current st]\<rparr>)
         in st'\<lparr>ps_current := [], ps_has_current := False\<rparr>)
      else st)"

definition end_segment :: "bool \<Rightarrow> pstate \<Rightarrow> pstate" where
  "end_segment next_reads_pipe st =
     (let st' = (if ps_words st \<noteq> [] then
                   st\<lparr>ps_words := [],
                      ps_parsed := ps_parsed st\<lparr>par_segments :=
                        par_segments (ps_parsed st) @ [build_segment (ps_words st) (ps_reads_pipe st)]\<rparr>\<rparr>
                 else st)
      in st'\<lparr>ps_reads_pipe := next_reads_pipe\<rparr>)"

definition add_text :: "rstr \<Rightarrow> pstate \<Rightarrow> pstate" where
  "add_text w st = st\<lparr>ps_current := ps_current st @ w, ps_has_current := True\<rparr>"

definition add_opaque :: "rstr list \<Rightarrow> pstate \<Rightarrow> pstate" where
  "add_opaque cs st = st\<lparr>ps_parsed := ps_parsed st\<lparr>par_opaque_constructs :=
                         par_opaque_constructs (ps_parsed st) @ cs\<rparr>\<rparr>"

definition DOLLAR_SUBST :: rstr where
  "DOLLAR_SUBST = ''a command substitution `$(...)`''"

definition BACKTICK_SUBST :: rstr where
  "BACKTICK_SUBST = ''a command substitution `` `...` ``''"

text \<open>The character U+2026 (an ellipsis) in UTF-8.\<close>

abbreviation ELLIPSIS :: rstr where
  "ELLIPSIS \<equiv> [CHR 0xE2, CHR 0x80, CHR 0xA6]"

text \<open>The inner loops: the text up to the closing quote, and what follows it.\<close>

fun take_single :: "rstr \<Rightarrow> rstr \<times> rstr" where
  "take_single [] = ([], [])"
| "take_single (c # s) =
     (if c = SQ then ([], s) else case take_single s of (w, r) \<Rightarrow> (c # w, r))"

definition dq_subst :: "char \<Rightarrow> rstr \<Rightarrow> rstr list" where
  "dq_subst c s = (if c = CHR ''$'' \<and> starts_with s ''('' then [DOLLAR_SUBST] else [])"

function take_double :: "rstr \<Rightarrow> rstr \<times> rstr list \<times> rstr" where
  "take_double [] = ([], [], [])"
| "take_double (c # s) =
     (if c = DQ then ([], [], s)
      else if c = BSL \<and> s \<noteq> [] then
        (case take_double (tl s) of (w, os, r) \<Rightarrow> (hd s # w, dq_subst (hd s) (tl s) @ os, r))
      else (case take_double s of (w, os, r) \<Rightarrow> (c # w, dq_subst c s @ os, r)))"
  by pat_completeness auto
termination
  by (relation "measure length") simp_all

fun skip_paren :: "int \<Rightarrow> rstr \<Rightarrow> rstr" where
  "skip_paren depth [] = []"
| "skip_paren depth (c # s) =
     (if c = CHR ''('' then skip_paren (depth + 1) s
      else if c = CHR '')'' then (if depth - 1 = 0 then s else skip_paren (depth - 1) s)
      else skip_paren depth s)"

fun skip_backtick :: "rstr \<Rightarrow> rstr" where
  "skip_backtick [] = []"
| "skip_backtick (c # s) = (if c = BQ then s else skip_backtick s)"

lemma length_take_single: "length (snd (take_single s)) \<le> length s"
  by (induction s) (auto split: prod.splits)

lemma length_take_double: "length (snd (snd (take_double s))) \<le> length s"
proof (induction s rule: take_double.induct)
  case (2 c s)
  then show ?case
    by (cases "take_double s"; cases "take_double (tl s)") auto
qed simp

lemma length_skip_paren: "length (skip_paren d s) \<le> length s"
  by (induction d s rule: skip_paren.induct) auto

lemma length_skip_paren_Cons: "length (skip_paren d (CHR ''$'' # s)) \<le> length s"
  using length_skip_paren [of d s] by simp

lemma length_skip_backtick: "length (skip_backtick s) \<le> length s"
  by (induction s) auto

function parse_loop :: "pstate \<Rightarrow> rstr \<Rightarrow> pstate" where
  "parse_loop st [] = st"
| "parse_loop st (c # s) =
     (if c = SQ then parse_loop (add_text (fst (take_single s)) st) (snd (take_single s))
      else if c = DQ then
        parse_loop (add_opaque (fst (snd (take_double s))) (add_text (fst (take_double s)) st))
          (snd (snd (take_double s)))
      else if c = BSL \<and> s \<noteq> [] then parse_loop (add_text [hd s] st) (tl s)
      else if c = CHR ''$'' \<and> starts_with s ''('' then
        parse_loop (add_text (''$('' @ ELLIPSIS @ '')'') (add_opaque [DOLLAR_SUBST] st))
          (skip_paren 0 (c # s))
      else if c = BQ then
        parse_loop (add_text ([BQ] @ ELLIPSIS @ [BQ]) (add_opaque [BACKTICK_SUBST] st)) (skip_backtick s)
      else if c = SP \<or> c = TAB then parse_loop (push_word st) s
      else if c = CHR ''|'' then
        (if starts_with s ''|'' then parse_loop (end_segment False (push_word st)) (tl s)
         else parse_loop (end_segment True (push_word st)) s)
      else if c = CHR '';'' \<or> c = NL then parse_loop (end_segment False (push_word st)) s
      else if c = CHR ''&'' then
        parse_loop (end_segment False (push_word st)) (if starts_with s ''&'' then tl s else s)
      else if c = CHR ''>'' then
        parse_loop ((push_word st)\<lparr>ps_pending_redirect := True\<rparr>)
          (if starts_with s ''>'' then tl s else s)
      else if c = CHR ''<'' then parse_loop (push_word st) s
      else parse_loop (add_text [c] st) s)"
  by pat_completeness auto
termination
  by (relation "measure (\<lambda>(st, s). length s)")
    (simp_all add: length_take_single length_take_double length_skip_backtick less_Suc_eq_le
      length_skip_paren_Cons del: skip_paren.simps)

declare parse_loop.simps(2) [simp del]

definition parse_finish :: "pstate \<Rightarrow> Parsed" where
  "parse_finish st = ps_parsed (end_segment False (push_word st))"

definition parse :: "rstr \<Rightarrow> Parsed" where
  "parse input = parse_finish (parse_loop pstate_init input)"

section \<open>The parser reads what the builder writes\<close>

lemma parse_literal:
  assumes "c \<notin> sh_special"
  shows "parse_loop st (c # s) = parse_loop (add_text [c] st) s"
proof -
  have "c \<notin> {SQ, DQ, BSL, CHR ''$'', BQ, SP, TAB, CHR ''|'', CHR '';'', NL, CHR ''&'', CHR ''>'', CHR ''<''}"
    using assms by (auto simp: sh_special_def)
  then show ?thesis by (simp add: parse_loop.simps(2))
qed

lemma quote_char_SQ: "quote_char SQ = [SQ, BSL, SQ, SQ]"
  by (simp add: quote_char_def)

lemma quote_char_other: "c \<noteq> SQ \<Longrightarrow> quote_char c = [c]"
  by (simp add: quote_char_def)

lemma add_text_add_text [simp]: "add_text v (add_text w st) = add_text (w @ v) st"
  by (simp add: add_text_def)

lemma parse_bare:
  "s \<noteq> [] \<Longrightarrow> list_all bare_byte s \<Longrightarrow> parse_loop st (s @ t) = parse_loop (add_text s st) t"
proof (induction s arbitrary: st)
  case (Cons c s)
  then have "parse_loop st ((c # s) @ t) = parse_loop (add_text [c] st) (s @ t)"
    by (simp add: parse_literal bare_byte_literal)
  with Cons show ?case by (cases "s = []") simp_all
qed simp

lemma parse_quoted:
  "parse_loop st (SQ # concat (map quote_char s) @ SQ # t) = parse_loop (add_text s st) t"
proof (induction s arbitrary: st)
  case Nil
  then show ?case by (simp add: parse_loop.simps(2))
next
  case (Cons c s)
  let ?u = "concat (map quote_char s) @ SQ # t"
  show ?case
  proof (cases "c = SQ")
    case True
    have "parse_loop st (SQ # SQ # BSL # SQ # SQ # ?u) = parse_loop (add_text [SQ] st) (SQ # ?u)"
      by (simp add: parse_loop.simps(2))
    with True Cons.IH [of "add_text [SQ] st"] show ?thesis by (simp add: quote_char_SQ)
  next
    case False
    have "parse_loop st (SQ # c # ?u) = parse_loop (add_text [c] st) (SQ # ?u)"
      using False by (simp add: parse_loop.simps(2) split: prod.split)
    with False Cons.IH [of "add_text [c] st"] show ?thesis by (simp add: quote_char_other)
  qed
qed

lemma parse_quote: "parse_loop st (quote w @ t) = parse_loop (add_text w st) t"
proof (cases "w \<noteq> [] \<and> list_all bare_byte w")
  case True
  then show ?thesis by (simp add: quote_def parse_bare)
next
  case False
  then have "quote w @ t = SQ # concat (map quote_char w) @ SQ # t" by (auto simp: quote_def)
  then show ?thesis by (simp only: parse_quoted)
qed

definition ps_fresh :: "pstate \<Rightarrow> bool" where
  "ps_fresh st \<longleftrightarrow> \<not> ps_has_current st \<and> ps_current st = [] \<and> \<not> ps_pending_redirect st"

definition ps_in_word :: "pstate \<Rightarrow> rstr \<Rightarrow> pstate" where
  "ps_in_word st w = st\<lparr>ps_current := w, ps_has_current := True\<rparr>"

lemma add_text_fresh: "ps_fresh st \<Longrightarrow> add_text w st = ps_in_word st w"
  by (simp add: ps_fresh_def add_text_def ps_in_word_def)

interpretation risk: word_reader "\<lambda>st t. parse_finish (parse_loop st t)" ps_fresh ps_in_word push_word
  "\<lambda>w. True"
proof unfold_locales
  fix st :: pstate and w t :: rstr
  assume fresh: "ps_fresh st"
  show "parse_finish (parse_loop st (quote w @ t)) = parse_finish (parse_loop (ps_in_word st w) t)"
    by (simp add: parse_quote add_text_fresh [OF fresh])
  show "parse_finish (parse_loop (ps_in_word st w) (SP # t))
      = parse_finish (parse_loop (push_word (ps_in_word st w)) t)"
    by (simp add: parse_loop.simps(2))
  show "ps_fresh (push_word (ps_in_word st w))"
    using fresh by (simp add: ps_fresh_def ps_in_word_def push_word_def)
qed

lemma risk_after_words:
  "ps_fresh st \<Longrightarrow> ws \<noteq> [] \<Longrightarrow>
   push_word (after_words ps_in_word push_word st ws) =
     st\<lparr>ps_words := ps_words st @ ws, ps_current := [], ps_has_current := False\<rparr>"
proof (induction ws arbitrary: st rule: induct_list012)
  case (3 w v ws)
  have step: "push_word (ps_in_word st w) = st\<lparr>ps_words := ps_words st @ [w]\<rparr>"
    using 3(3) by (simp add: ps_fresh_def ps_in_word_def push_word_def)
  moreover have "ps_fresh (push_word (ps_in_word st w))" using 3(3) by (rule risk.fresh_close)
  ultimately show ?case using 3(2) [of "push_word (ps_in_word st w)"] by simp
qed (simp_all add: ps_fresh_def ps_in_word_def push_word_def)

lemma parse_words:
  assumes "ws \<noteq> []"
  shows "parse (join '' '' (map quote ws)) =
    \<lparr>par_segments = [build_segment ws False], par_opaque_constructs = [], par_write_redirect_targets = []\<rparr>"
proof -
  have fresh: "ps_fresh pstate_init" by (simp add: ps_fresh_def pstate_init_def)
  have "parse (join '' '' (map quote ws))
      = parse_finish (parse_loop (after_words ps_in_word push_word pstate_init ws) [])"
    using risk.read_line [OF fresh assms] by (simp add: parse_def)
  also have "\<dots> = ps_parsed (end_segment False (pstate_init\<lparr>ps_words := ws\<rparr>))"
    using risk_after_words [OF fresh assms] by (simp add: parse_finish_def pstate_init_def)
  finally show ?thesis
    using assms by (simp add: end_segment_def pstate_init_def parsed_default_def)
qed

section \<open>Lemmas on wrappers and segments\<close>

lemma strip_sudo:
  assumes "w = ''sudo'' \<or> w = ''doas''"
  shows "strip_wrappers e (w # ws) = strip_wrappers (Some w) (drop_sudo_options ws)"
proof -
  have "\<not> is_assignment ''sudo''" "\<not> is_assignment ''doas''"
    "after_last (CHR ''/'') ''sudo'' = ''sudo''" "after_last (CHR ''/'') ''doas'' = ''doas''"
    by (simp_all add: is_assignment_def after_last_def)
  with assms show ?thesis by (elim disjE) (simp_all add: strip_wrappers.simps(2))
qed

lemma strip_wrappers_cases:
  obtains (assign) "\<And>e. strip_wrappers e (first # ws) = strip_wrappers e ws" "is_assignment first"
  | (sudo) base where "\<And>e. strip_wrappers e (first # ws) = strip_wrappers (Some base) (drop_sudo_options ws)"
      "\<not> is_assignment first" "base = after_last (CHR ''/'') first" "base = ''sudo'' \<or> base = ''doas''"
  | (wrap) "\<And>e. strip_wrappers e (first # ws) = strip_wrappers e (drop_dash_options ws)"
      "\<not> is_assignment first" "after_last (CHR ''/'') first \<in> set WRAPPERS"
      "\<not> (after_last (CHR ''/'') first = ''sudo'' \<or> after_last (CHR ''/'') first = ''doas'')"
  | (env) "\<And>e. strip_wrappers e (first # ws) = strip_wrappers e (drop_env_options ws)"
      "\<not> is_assignment first" "after_last (CHR ''/'') first = ''env''"
      "after_last (CHR ''/'') first \<notin> set WRAPPERS"
      "\<not> (after_last (CHR ''/'') first = ''sudo'' \<or> after_last (CHR ''/'') first = ''doas'')"
  | (stop) "\<And>e. strip_wrappers e (first # ws) = (e, first # ws)"
proof -
  let ?b = "after_last (CHR ''/'') first"
  note eqn = strip_wrappers.simps(2) [of _ first ws]
  consider "is_assignment first"
    | "\<not> is_assignment first" "?b = ''sudo'' \<or> ?b = ''doas''"
    | "\<not> is_assignment first" "\<not> (?b = ''sudo'' \<or> ?b = ''doas'')" "?b \<in> set WRAPPERS"
    | "\<not> is_assignment first" "\<not> (?b = ''sudo'' \<or> ?b = ''doas'')" "?b \<notin> set WRAPPERS" "?b = ''env''"
    | "\<not> is_assignment first" "\<not> (?b = ''sudo'' \<or> ?b = ''doas'')" "?b \<notin> set WRAPPERS" "?b \<noteq> ''env''"
    by blast
  then show thesis
  proof cases
    case 1
    then have "\<And>e. strip_wrappers e (first # ws) = strip_wrappers e ws" by (simp only: eqn if_True)
    with 1 show thesis by (rule assign [rotated])
  next
    case 2
    then have "\<And>e. strip_wrappers e (first # ws) = strip_wrappers (Some ?b) (drop_sudo_options ws)"
      by (simp only: eqn Let_def if_True if_False)
    then show thesis using 2(1) refl 2(2) by (rule sudo)
  next
    case 3
    then have "\<And>e. strip_wrappers e (first # ws) = strip_wrappers e (drop_dash_options ws)"
      by (simp only: eqn Let_def if_True if_False)
    then show thesis using 3(1,3,2) by (rule wrap)
  next
    case 4
    then have "\<And>e. strip_wrappers e (first # ws) = strip_wrappers e (drop_env_options ws)"
      by (simp only: eqn Let_def refl if_True if_False)
    then show thesis using 4(1,4,3,2) by (rule env)
  next
    case 5
    then have "\<And>e. strip_wrappers e (first # ws) = (e, first # ws)"
      by (simp only: eqn Let_def if_False)
    then show thesis by (rule stop)
  qed
qed

text \<open>The words that are left do not depend on the elevation seen so far.\<close>

lemma strip_wrappers_words: "snd (strip_wrappers e ws) = snd (strip_wrappers e' ws)"
proof (induction "length ws" arbitrary: e e' ws rule: less_induct)
  case less
  have IH: "length vs < length ws \<Longrightarrow> snd (strip_wrappers e vs) = snd (strip_wrappers e' vs)" for vs e e'
    using less by blast
  show ?case
  proof (cases ws)
    case (Cons first vs)
    have le: "length (drop_sudo_options vs) < length ws" "length (drop_dash_options vs) < length ws"
      "length (drop_env_options vs) < length ws"
      using Cons by (simp_all add: length_drop_sudo_options length_drop_options less_Suc_eq_le)
    show ?thesis
      by (cases rule: strip_wrappers_cases [of first vs])
        (use Cons IH le in \<open>simp_all\<close>)
  qed simp
qed

text \<open>Stripping is complete: nothing that is left at the front would be stripped again.\<close>

lemma strip_wrappers_idem:
  "strip_wrappers e'' (snd (strip_wrappers e ws)) = (e'', snd (strip_wrappers e ws))"
proof (induction "length ws" arbitrary: e ws rule: less_induct)
  case less
  have IH: "length vs < length ws \<Longrightarrow>
      strip_wrappers e'' (snd (strip_wrappers e vs)) = (e'', snd (strip_wrappers e vs))" for vs e
    using less by blast
  show ?case
  proof (cases ws)
    case (Cons first vs)
    have le: "length (drop_sudo_options vs) < length ws" "length (drop_dash_options vs) < length ws"
      "length (drop_env_options vs) < length ws" "length vs < length ws"
      using Cons by (simp_all add: length_drop_sudo_options length_drop_options less_Suc_eq_le)
    show ?thesis
      by (cases rule: strip_wrappers_cases [of first vs])
        (use Cons IH le in \<open>simp_all\<close>)
  qed simp
qed

end
