(* ===== verification/Path_Check.thy ===== *)
theory Path_Check
  imports Core_Types
begin

text \<open>
  crates/kyvon-security/src/path.rs: normalising and validating a remote path, the sensitivity
  classes of paths, and the deletion guard. The specification reads a path as the list of its
  components: a prefix test on strings is shown to be a prefix test on components, and the refusal of
  paths that climb above the root is characterised by counting components.
\<close>

section \<open>Definitions\<close>

datatype PathClass = Ordinary | SystemConfig | CriticalPath

primrec path_class_rank :: "PathClass \<Rightarrow> nat" where
  "path_class_rank Ordinary = 0"
| "path_class_rank SystemConfig = 1"
| "path_class_rank CriticalPath = 2"

instantiation PathClass :: linorder
begin

definition less_eq_PathClass :: "PathClass \<Rightarrow> PathClass \<Rightarrow> bool" where
  "less_eq_PathClass a b \<longleftrightarrow> path_class_rank a \<le> path_class_rank b"

definition less_PathClass :: "PathClass \<Rightarrow> PathClass \<Rightarrow> bool" where
  "less_PathClass a b \<longleftrightarrow> path_class_rank a < path_class_rank b"

instance
proof
  fix a b :: PathClass
  show "a \<le> b \<Longrightarrow> b \<le> a \<Longrightarrow> a = b"
    by (cases a; cases b) (simp_all add: less_eq_PathClass_def)
qed (auto simp: less_eq_PathClass_def less_PathClass_def)

end

definition CRITICAL_PREFIXES :: "rstr list" where
  "CRITICAL_PREFIXES =
     [''/boot'', ''/dev'', ''/proc'', ''/sys'', ''/etc/ssh'', ''/etc/sudoers'', ''/etc/shadow'',
      ''/etc/passwd'', ''/etc/group'', ''/etc/fstab'', ''/root/.ssh'']"

definition CONFIG_PREFIXES :: "rstr list" where
  "CONFIG_PREFIXES = [''/etc'', ''/usr/lib/systemd'', ''/lib/systemd'']"

abbreviation SLASH :: char where "SLASH \<equiv> CHR ''/''"

text \<open>The loop over \<open>path.split('/')\<close>; \<open>path\<close> is only used in the error message.\<close>

fun norm_parts :: "rstr \<Rightarrow> rstr list \<Rightarrow> rstr list \<Rightarrow> rstr list result" where
  "norm_parts path stack [] = Inr stack"
| "norm_parts path stack (part # parts) =
     (if part = [] \<or> part = ''.'' then norm_parts path stack parts
      else if part = ''..'' then
        (if stack = [] then
           Inl (Invalid (''path `'' @ path @ ''` traverses above the filesystem root''))
         else norm_parts path (butlast stack) parts)
      else norm_parts path (stack @ [part]) parts)"

definition validate_remote_path :: "rstr \<Rightarrow> rstr result" where
  "validate_remote_path path =
     (if path = [] then Inl (Invalid ''path must not be empty'')
      else if NUL \<in> set path \<or> NL \<in> set path \<or> CR \<in> set path then
        Inl (Invalid ''path must not contain control characters'')
      else if \<not> starts_with path ''/'' then
        Inl (Invalid (''path `'' @ path @
          ''` must be absolute so the target shown to you is unambiguous''))
      else case norm_parts path [] (split_on SLASH path) of
             Inl e \<Rightarrow> Inl e
           | Inr stack \<Rightarrow>
               if stack = [] then
                 Inl (Invalid ''`/` is not a valid target for a filesystem operation'')
               else Inr (SLASH # join ''/'' stack))"

definition under_prefix :: "rstr \<Rightarrow> rstr \<Rightarrow> bool" where
  "under_prefix p c \<longleftrightarrow> p = c \<or> starts_with p (c @ ''/'')"

definition classify_path :: "rstr \<Rightarrow> PathClass" where
  "classify_path path =
     (let p = trim_end_char SLASH path
      in if list_ex (under_prefix p) CRITICAL_PREFIXES then CriticalPath
         else if list_ex (under_prefix p) CONFIG_PREFIXES then SystemConfig
         else Ordinary)"

definition PROTECTED_TOP :: "rstr list" where
  "PROTECTED_TOP = [''/bin'', ''/sbin'', ''/lib'', ''/lib64'', ''/usr'', ''/var'', ''/opt'', ''/home'',
                    ''/srv'', ''/run'']"

definition is_protected_from_deletion :: "rstr \<Rightarrow> bool" where
  "is_protected_from_deletion path =
     (let p = trim_end_char SLASH path
      in if classify_path p \<noteq> Ordinary then True else p \<in> set PROTECTED_TOP)"

section \<open>Components\<close>

definition clean_component :: "rstr \<Rightarrow> bool" where
  "clean_component w \<longleftrightarrow> SLASH \<notin> set w \<and> NUL \<notin> set w \<and> NL \<notin> set w \<and> CR \<notin> set w"

definition good_component :: "rstr \<Rightarrow> bool" where
  "good_component w \<longleftrightarrow> w \<noteq> [] \<and> w \<noteq> ''.'' \<and> w \<noteq> ''..'' \<and> clean_component w"

text \<open>The net number of components that a list of path parts descends by.\<close>

primrec net_depth :: "rstr list \<Rightarrow> int" where
  "net_depth [] = 0"
| "net_depth (p # ps) =
     (if p = [] \<or> p = ''.'' then 0 else if p = ''..'' then -1 else 1) + net_depth ps"

definition climbs_above_root :: "rstr list \<Rightarrow> bool" where
  "climbs_above_root parts \<longleftrightarrow> (\<exists>n \<le> length parts. net_depth (take n parts) < 0)"

lemma norm_parts_ok:
  "norm_parts path st parts = Inr st' \<Longrightarrow> \<forall>w \<in> set st. good_component w \<Longrightarrow>
   \<forall>w \<in> set parts. clean_component w \<Longrightarrow> \<forall>w \<in> set st'. good_component w"
proof (induction path st parts rule: norm_parts.induct)
  case (2 path st part parts)
  have pop: "\<forall>w \<in> set (butlast st). good_component w" using "2.prems"(2) by (meson in_set_butlastD)
  consider "part = [] \<or> part = ''.''" | "part = ''..''" | "part \<noteq> []" "part \<noteq> ''.''" "part \<noteq> ''..''"
    by blast
  then show ?case
  proof cases
    case 1
    with "2.IH"(1) "2.prems" show ?thesis by auto
  next
    case 2
    with "2.prems"(1) have "st \<noteq> []" by auto
    with 2 "2.IH"(2) "2.prems" pop show ?thesis by auto
  next
    case 3
    moreover from 3 "2.prems"(3) have "good_component part" by (simp add: good_component_def)
    ultimately show ?thesis using "2.IH"(3) "2.prems" by simp
  qed
qed simp

lemma norm_parts_good:
  "list_all good_component parts \<Longrightarrow> norm_parts path st parts = Inr (st @ parts)"
  by (induction parts arbitrary: st) (simp_all add: good_component_def)

lemma validate_okE:
  assumes "validate_remote_path path = Inr out"
  obtains st where "norm_parts path [] (split_on SLASH path) = Inr st" and "st \<noteq> []"
    and "out = SLASH # join ''/'' st" and "list_all good_component st"
proof -
  from assms obtain st where st: "norm_parts path [] (split_on SLASH path) = Inr st" "st \<noteq> []"
      "out = SLASH # join ''/'' st" and ctl: "NUL \<notin> set path" "NL \<notin> set path" "CR \<notin> set path"
    by (auto simp: validate_remote_path_def split: if_splits sum.splits)
  have "\<forall>w \<in> set (split_on SLASH path). clean_component w"
    using ctl set_split_on split_on_no_sep unfolding clean_component_def by blast
  then have "list_all good_component st" using norm_parts_ok [OF st(1)] by (simp add: list_all_iff)
  with st that show thesis by blast
qed

lemma good_no_char:
  "list_all good_component st \<Longrightarrow> w \<in> set st \<Longrightarrow> c \<in> {SLASH, NUL, NL, CR} \<Longrightarrow> c \<notin> set w"
  unfolding list_all_iff good_component_def clean_component_def by blast

lemma split_normalised:
  assumes "list_all good_component st" and "st \<noteq> []"
  shows "split_on SLASH (SLASH # join ''/'' st) = [] # st"
  using split_on_join [OF assms(2), of SLASH] good_no_char [OF assms(1)] by simp

lemma join_good_chars:
  assumes "list_all good_component st" and "c \<in> {NUL, NL, CR}"
  shows "c \<notin> set (join ''/'' st)"
proof
  assume "c \<in> set (join ''/'' st)"
  then have "c = SLASH \<or> (\<exists>w \<in> set st. c \<in> set w)" using set_join [of "''/''" st] by auto
  moreover have "c \<noteq> SLASH" using assms(2) by auto
  ultimately show False using good_no_char [OF assms(1)] assms(2) by blast
qed

lemma validate_normalised:
  assumes "list_all good_component st" and "st \<noteq> []"
  shows "validate_remote_path (SLASH # join ''/'' st) = Inr (SLASH # join ''/'' st)"
proof -
  have "NUL \<notin> set (join ''/'' st)" "NL \<notin> set (join ''/'' st)" "CR \<notin> set (join ''/'' st)"
    using join_good_chars [OF assms(1)] by blast+
  moreover have "norm_parts path [] ([] # st) = Inr st" for path
    using norm_parts_good [OF assms(1), of path "[]"] by simp
  ultimately show ?thesis
    using split_normalised [OF assms] assms(2)
    by (simp add: validate_remote_path_def del: split_on.simps norm_parts.simps)
qed

lemma norm_parts_error_iff:
  "(\<exists>e. norm_parts path st parts = Inl e) \<longleftrightarrow>
   (\<exists>n \<le> length parts. int (length st) + net_depth (take n parts) < 0)"
proof (induction path st parts rule: norm_parts.induct)
  case (2 path st part parts)
  define d where "d = (if part = [] \<or> part = ''.'' then 0 else if part = ''..'' then -1 else (1::int))"
  have shift: "(\<exists>n \<le> length (part # parts). int (length st) + net_depth (take n (part # parts)) < 0)
      \<longleftrightarrow> (\<exists>n \<le> length parts. int (length st) + d + net_depth (take n parts) < 0)" (is "?L = ?R")
  proof
    assume ?L
    then obtain n where n: "n \<le> length (part # parts)"
        "int (length st) + net_depth (take n (part # parts)) < 0" by blast
    then obtain m where "n = Suc m" by (cases n) auto
    with n show ?R by (auto simp: d_def intro!: exI [of _ m])
  next
    assume ?R
    then obtain n where "n \<le> length parts" "int (length st) + d + net_depth (take n parts) < 0" by blast
    then show ?L by (intro exI [of _ "Suc n"]) (auto simp: d_def)
  qed
  consider "part = [] \<or> part = ''.''" | "part = ''..''" "st = []" | "part = ''..''" "st \<noteq> []"
    | "part \<noteq> []" "part \<noteq> ''.''" "part \<noteq> ''..''" by blast
  then show ?case
  proof cases
    case 1
    with "2.IH"(1) show ?thesis by (simp only: shift) (auto simp: d_def)
  next
    case 2
    have "\<exists>n \<le> length parts. int (length st) + d + net_depth (take n parts) < 0"
      using 2 by (intro exI [of _ 0]) (simp add: d_def)
    with 2 show ?thesis by (simp only: shift) auto
  next
    case 3
    then have "int (length (butlast st)) = int (length st) + d"
      by (cases st rule: rev_cases) (auto simp: d_def)
    moreover have "norm_parts path st (part # parts) = norm_parts path (butlast st) parts"
      using 3 by simp
    ultimately show ?thesis unfolding shift using "2.IH"(2) 3 by simp
  next
    case 4
    with "2.IH"(3) show ?thesis
      by (simp only: shift) (auto simp: d_def algebra_simps)
  qed
qed simp

section \<open>Prefixes of strings and of component lists\<close>

lemma under_prefix_components:
  assumes "c \<noteq> []"
  shows "under_prefix p c \<longleftrightarrow> prefix (split_on SLASH c) (split_on SLASH p)"
proof
  have split_cat: "split_on SLASH (c @ SLASH # q) = split_on SLASH c @ split_on SLASH q" for q
  proof (induction c)
    case (Cons x xs)
    then show ?case by (cases "split_on SLASH xs") auto
  qed simp
  assume "under_prefix p c"
  then show "prefix (split_on SLASH c) (split_on SLASH p)"
    unfolding under_prefix_def prefix_def by (auto simp: split_cat)
next
  assume "prefix (split_on SLASH c) (split_on SLASH p)"
  then obtain us where us: "split_on SLASH p = split_on SLASH c @ us" by (auto simp: prefix_def)
  have join_cat: "us \<noteq> [] \<Longrightarrow> ws \<noteq> [] \<Longrightarrow> join ''/'' (ws @ us) = join ''/'' ws @ SLASH # join ''/'' us"
    for ws by (induction ws) (auto simp: join_Cons)
  have "p = join ''/'' (split_on SLASH c @ us)" using join_split_on [of SLASH p] us by simp
  also have "\<dots> = (if us = [] then c else c @ SLASH # join ''/'' us)"
    using join_cat [of "split_on SLASH c"] join_split_on [of SLASH c] by simp
  finally show "under_prefix p c" by (auto simp: under_prefix_def prefix_def)
qed

lemma trim_end_char_id: "s \<noteq> [] \<Longrightarrow> last s \<noteq> c \<Longrightarrow> trim_end_char c s = s"
  by (cases s rule: rev_cases) (auto simp: trim_end_char_def)

lemma trim_end_char_idem [simp]: "trim_end_char c (trim_end_char c s) = trim_end_char c s"
  by (simp add: trim_end_char_def dropWhile_idem)

lemma join_last_char:
  assumes "list_all good_component st" and "st \<noteq> []"
  shows "join ''/'' st \<noteq> [] \<and> last (join ''/'' st) \<noteq> SLASH"
  using assms
proof (induction st)
  case (Cons w ws)
  then have "w \<noteq> []" "SLASH \<notin> set w" by (auto simp: good_component_def clean_component_def)
  then have "last w \<noteq> SLASH" using last_in_set by fastforce
  with Cons \<open>w \<noteq> []\<close> show ?case by (auto simp: join_Cons)
qed simp

lemma under_prefix_extend: "under_prefix p c \<Longrightarrow> under_prefix (p @ SLASH # q) c"
  by (auto simp: under_prefix_def prefix_def)

lemma classify_path_trim [simp]: "classify_path (trim_end_char SLASH p) = classify_path p"
  by (simp add: classify_path_def)

lemma CRITICAL_nonempty: "c \<in> set CRITICAL_PREFIXES \<Longrightarrow> c \<noteq> []"
  by (auto simp: CRITICAL_PREFIXES_def)

lemma CONFIG_nonempty: "c \<in> set CONFIG_PREFIXES \<Longrightarrow> c \<noteq> []"
  by (auto simp: CONFIG_PREFIXES_def)

lemma normalised_trim:
  assumes "validate_remote_path path = Inr out"
  shows "trim_end_char SLASH out = out"
proof -
  from assms obtain st where "st \<noteq> []" "out = SLASH # join ''/'' st" "list_all good_component st"
    by (rule validate_okE)
  then show ?thesis using join_last_char [of st] by (intro trim_end_char_id) auto
qed

section \<open>Properties\<close>

text \<open>
  C23. What validation promises. A path that is accepted comes back as \<open>/\<close> followed by a non-empty
  list of components, none of them empty, \<open>.\<close> or \<open>..\<close>, and none with a slash, a NUL byte or a
  line break; and the returned path validates to itself, so the target shown to the operator is the
  one and only spelling that the rest of the program sees.
\<close>

theorem validate_remote_path_normal_form:
  assumes "validate_remote_path path = Inr out"
  shows "\<exists>comps. comps \<noteq> [] \<and> list_all good_component comps \<and> out = ''/'' @ join ''/'' comps \<and>
           split_on SLASH out = [] # comps \<and> validate_remote_path out = Inr out"
proof -
  from assms obtain st where "st \<noteq> []" "out = SLASH # join ''/'' st" "list_all good_component st"
    by (rule validate_okE)
  then show ?thesis
    using validate_normalised [of st] split_normalised [of st] by (intro exI [of _ st]) simp
qed

theorem validate_remote_path_normal_form_witness:
  "\<exists>comps. comps \<noteq> [] \<and> list_all good_component comps \<and> ''/a/c'' = ''/'' @ join ''/'' comps \<and>
     split_on SLASH ''/a/c'' = [] # comps \<and> validate_remote_path ''/a/c'' = Inr ''/a/c''"
  by (rule validate_remote_path_normal_form [of "''/a//./b/../c/''"])
    (simp add: validate_remote_path_def)



text \<open>
  The sensitivity classes respect component boundaries. On the path without its trailing
  slashes, a path is critical exactly when the components of one of the critical prefixes are an
  initial segment of its components (so \<open>/etcetera\<close> is not under \<open>/etc\<close>), and system
  configuration exactly when that holds for a configuration prefix only.
\<close>

theorem classify_path_components:
  "classify_path path =
     (let comps = split_on SLASH (trim_end_char SLASH path)
      in if \<exists>c \<in> set CRITICAL_PREFIXES. prefix (split_on SLASH c) comps then CriticalPath
         else if \<exists>c \<in> set CONFIG_PREFIXES. prefix (split_on SLASH c) comps then SystemConfig
         else Ordinary)"
proof -
  have "list_ex (under_prefix p) CRITICAL_PREFIXES \<longleftrightarrow>
      (\<exists>c \<in> set CRITICAL_PREFIXES. prefix (split_on SLASH c) (split_on SLASH p))" for p
    by (simp add: list_ex_iff under_prefix_components CRITICAL_nonempty cong: bex_cong)
  moreover have "list_ex (under_prefix p) CONFIG_PREFIXES \<longleftrightarrow>
      (\<exists>c \<in> set CONFIG_PREFIXES. prefix (split_on SLASH c) (split_on SLASH p))" for p
    by (simp add: list_ex_iff under_prefix_components CONFIG_nonempty cong: bex_cong)
  ultimately show ?thesis by (simp add: classify_path_def Let_def)
qed

text \<open>
  Protection is inherited. Whatever lies below a sensitive directory is at least as sensitive as
  the directory: for a validated path, appending components never lowers its class, so an operation
  cannot become less guarded by naming something deeper in the same tree.
\<close>

theorem classify_path_descends:
  assumes "validate_remote_path path = Inr dir" and "validate_remote_path (dir @ ''/'' @ sub) = Inr (dir @ ''/'' @ sub)"
  shows "classify_path dir \<le> classify_path (dir @ ''/'' @ sub)"
proof -
  have t: "trim_end_char SLASH dir = dir" "trim_end_char SLASH (dir @ SLASH # sub) = dir @ SLASH # sub"
    using normalised_trim [OF assms(1)] normalised_trim [OF assms(2)] by simp_all
  have ext: "list_ex (under_prefix dir) cs \<Longrightarrow> list_ex (under_prefix (dir @ SLASH # sub)) cs" for cs
    unfolding list_ex_iff using under_prefix_extend by blast
  show ?thesis
    using ext [of CRITICAL_PREFIXES] ext [of CONFIG_PREFIXES] t
    by (auto simp: classify_path_def Let_def less_eq_PathClass_def)
qed

theorem classify_path_descends_witness:
  "classify_path ''/etc'' \<le> classify_path (''/etc'' @ ''/'' @ ''ssh'')"
  by (rule classify_path_descends [of "''/etc''"]) (simp_all add: validate_remote_path_def)

text \<open>
  The gap of the deletion guard. The file-system root itself is not protected: the guard trims
  every trailing slash, so \<open>/\<close> becomes the empty string and matches no entry. Nor does the guard
  see through an unnormalised spelling of a critical file, although validation maps that spelling to
  a path that it does protect.
\<close>

theorem deletion_guard_gap:
  "\<not> is_protected_from_deletion ''/'' \<and>
   \<not> is_protected_from_deletion ''/var/../etc/passwd'' \<and>
   validate_remote_path ''/var/../etc/passwd'' = Inr ''/etc/passwd'' \<and>
   is_protected_from_deletion ''/etc/passwd''"
  by (simp add: is_protected_from_deletion_def classify_path_def trim_end_char_def
      CRITICAL_PREFIXES_def CONFIG_PREFIXES_def PROTECTED_TOP_def under_prefix_def
      validate_remote_path_def)

end
