(* ===== verification/Risk_Classify.thy ===== *)
theory Risk_Classify
  imports Risk_Parse Path_Check
begin

text \<open>
  The classification half of crates/kyvon-security/src/risk.rs: the verdict on one segment (a table
  of programs, split here into one definition for each group of arms of the \<open>match\<close>, in the order of
  the source) and \<open>classify\<close>, which combines the segments of a command line, the opaque
  constructs and the redirections into a risk assessment.
\<close>

section \<open>Verdicts\<close>

record Verdict =
  v_tier :: RiskTier
  v_reasons :: "rstr list"
  v_impact :: "rstr list"
  v_unknown :: "rstr list"

definition verdict_default :: Verdict where
  "verdict_default = \<lparr>v_tier = Safe, v_reasons = [], v_impact = [], v_unknown = []\<rparr>"

definition set_tier :: "RiskTier \<Rightarrow> Verdict \<Rightarrow> Verdict" where
  "set_tier t v = v\<lparr>v_tier := t\<rparr>"

definition push_reason :: "rstr \<Rightarrow> Verdict \<Rightarrow> Verdict" where
  "push_reason r v = v\<lparr>v_reasons := v_reasons v @ [r]\<rparr>"

definition push_impact :: "rstr \<Rightarrow> Verdict \<Rightarrow> Verdict" where
  "push_impact i v = v\<lparr>v_impact := v_impact v @ [i]\<rparr>"

definition push_unknown :: "rstr \<Rightarrow> Verdict \<Rightarrow> Verdict" where
  "push_unknown u v = v\<lparr>v_unknown := v_unknown v @ [u]\<rparr>"

definition push_if :: "bool \<Rightarrow> (Verdict \<Rightarrow> Verdict) \<Rightarrow> Verdict \<Rightarrow> Verdict" where
  "push_if b f v = (if b then f v else v)"

definition READ_ONLY :: "rstr list" where
  "READ_ONLY =
     [''cat'', ''head'', ''tail'', ''less'', ''more'', ''ls'', ''stat'', ''file'', ''du'', ''df'', ''free'',
      ''uptime'', ''uname'', ''hostname'', ''hostnamectl'', ''id'', ''whoami'', ''who'', ''w'', ''last'',
      ''lastlog'', ''ps'', ''pgrep'', ''top'', ''htop'', ''vmstat'', ''iostat'', ''mpstat'', ''pidstat'',
      ''lsof'', ''ss'', ''netstat'', ''arp'', ''dig'', ''nslookup'', ''host'', ''ping'', ''traceroute'',
      ''mtr'', ''getent'', ''lscpu'', ''lsblk'', ''lsmod'', ''lspci'', ''lsusb'', ''dmesg'', ''journalctl'',
      ''date'', ''wc'', ''grep'', ''egrep'', ''fgrep'', ''awk'', ''cut'', ''sort'', ''uniq'', ''tr'', ''tee'',
      ''xargs'', ''echo'', ''printf'', ''basename'', ''dirname'', ''readlink'', ''realpath'', ''sha256sum'',
      ''md5sum'', ''nproc'', ''findmnt'', ''blkid'', ''mount'', ''sysctl'', ''ip'', ''true'', ''false'',
      ''test'', ''sleep'', ''env'', ''printenv'', ''which'', ''type'']"

definition first_or_empty :: "rstr list \<Rightarrow> rstr" where
  "first_or_empty xs = (case xs of [] \<Rightarrow> [] | x # _ \<Rightarrow> x)"

definition sub_or_empty :: "Segment \<Rightarrow> rstr" where
  "sub_or_empty seg = (case seg_subcommand seg of None \<Rightarrow> [] | Some s \<Rightarrow> s)"

section \<open>Destructive programs\<close>

definition rm_recursive :: "Segment \<Rightarrow> bool" where
  "rm_recursive seg \<longleftrightarrow>
     has_short_flag seg (CHR ''r'') \<or> has_short_flag seg (CHR ''R'') \<or> has_flag seg ''--recursive''"

definition rm_forced :: "Segment \<Rightarrow> bool" where
  "rm_forced seg \<longleftrightarrow> has_short_flag seg (CHR ''f'') \<or> has_flag seg ''--force''"

definition hits_protected :: "Segment \<Rightarrow> bool" where
  "hits_protected seg \<longleftrightarrow> list_ex is_protected_from_deletion (non_flags seg)"

definition classify_rm :: "Segment \<Rightarrow> Verdict \<Rightarrow> Verdict" where
  "classify_rm seg v =
     (let recursive = rm_recursive seg;
          forced = rm_forced seg;
          hits = hits_protected seg;
          wildcard = list_ex (\<lambda>t. contains t ''*'' \<or> contains t ''?'') (non_flags seg);
          v = set_tier (if hits \<or> (recursive \<and> forced) then Critical
                        else if recursive \<or> forced then High else Medium) v;
          v = push_if forced
                (push_reason ''`-f` suppresses the prompts that would otherwise stop a mistaken path'') v;
          v = push_reason (if recursive then ''deletes files recursively'' else ''deletes files'') v;
          v = push_if hits
                (push_impact ''can render the host unbootable or unreachable'' \<circ>
                 push_reason ''targets a system-managed path that the host needs to function'') v;
          v = push_if wildcard
                (push_reason ''expands a wildcard on the remote host, so the exact set of files cannot be shown here'') v
      in push_impact ''deleted files are not recoverable from KyvonOPS'' v)"

definition classify_shred :: "rstr \<Rightarrow> Verdict \<Rightarrow> Verdict" where
  "classify_shred program v =
     push_impact ''data cannot be recovered''
       (push_reason (''`'' @ program @ ''` irreversibly destroys data'') (set_tier Critical v))"

definition classify_dd :: "Segment \<Rightarrow> Verdict \<Rightarrow> Verdict" where
  "classify_dd seg v =
     (let writes_device = list_ex (\<lambda>a. starts_with a ''of=/dev/'' \<and> a \<noteq> ''of=/dev/null'') (seg_args seg);
          v = set_tier (if writes_device then Critical else High) v;
          v = push_reason ''writes raw blocks'' v
      in push_if writes_device
           (push_impact ''overwrites a block device and every filesystem on it'') v)"

definition classify_mkfs :: "Verdict \<Rightarrow> Verdict" where
  "classify_mkfs v =
     push_impact ''all data on the target device is lost''
       (push_reason ''creates a new filesystem, discarding the existing one'' (set_tier Critical v))"

definition classify_power :: "Verdict \<Rightarrow> Verdict" where
  "classify_power v =
     push_impact ''the host and every service on it go offline; SSH access is lost until it returns''
       (push_reason ''changes the running state of the whole machine'' (set_tier Critical v))"

section \<open>Services and processes\<close>

definition join_units :: "rstr list \<Rightarrow> rstr" where
  "join_units units = (if units = [] then ''the unit'' else join '', '' units)"

definition systemctl_action :: "rstr \<Rightarrow> rstr \<Rightarrow> Verdict \<Rightarrow> Verdict" where
  "systemctl_action sub unit_list v =
     (if sub \<in> {[], ''status'', ''show'', ''cat'', ''list-units'', ''list-unit-files'', ''list-timers'',
                ''is-active'', ''is-enabled'', ''is-failed'', ''get-default''} then set_tier Safe v
      else if sub = ''start'' then push_reason (''starts '' @ unit_list) (set_tier Medium v)
      else if sub = ''reload'' then
        push_impact ''a configuration error can leave the service in a failed state''
          (push_reason (''reloads configuration for '' @ unit_list) (set_tier Medium v))
      else if sub \<in> {''restart'', ''try-restart'', ''reload-or-restart''} then
        push_impact ''brief service interruption; in-flight requests may fail''
          (push_reason (''restarts '' @ unit_list) (set_tier Medium v))
      else if sub = ''stop'' then
        push_impact ''the service stays down until it is started again''
          (push_reason (''stops '' @ unit_list @ '' and leaves it stopped'') (set_tier High v))
      else if sub \<in> {''enable'', ''disable'', ''mask'', ''unmask'', ''preset'', ''set-default''} then
        push_impact ''the effect is only fully visible after the next reboot''
          (push_reason (''changes whether '' @ unit_list @ '' starts at boot'') (set_tier High v))
      else if sub = ''daemon-reload'' then
        push_reason (''reloads systemd'' @ [SQ] @ ''s own unit definitions'') (set_tier Low v)
      else if sub = ''kill'' then
        push_reason (''sends a signal directly to '' @ unit_list) (set_tier High v)
      else if sub \<in> {''isolate'', ''rescue'', ''emergency''} then
        push_impact ''most services, possibly including sshd, are stopped''
          (push_reason ''switches the machine to a different systemd target'' (set_tier Critical v))
      else if sub \<in> {''reboot'', ''poweroff'', ''halt''} then
        push_impact ''the host goes offline; SSH access is lost until it returns''
          (push_reason ''shuts down or restarts the machine'' (set_tier Critical v))
      else push_unknown (''`systemctl '' @ sub @ ''`'') (set_tier Medium v))"

definition classify_systemctl :: "Segment \<Rightarrow> Verdict \<Rightarrow> Verdict" where
  "classify_systemctl seg v =
     (let sub = sub_or_empty seg;
          units = seg_operands seg;
          v = systemctl_action sub (join_units units) v
      in if list_ex (\<lambda>u. starts_with u ''ssh'') units \<and>
            sub \<in> {''restart'', ''stop'', ''disable'', ''mask''}
         then push_impact ''if the new configuration is invalid you will not be able to reconnect without console access''
                (push_reason ''targets the SSH service that KyvonOPS itself connects through''
                  (set_tier (max (v_tier v) Critical) v))
         else v)"

definition classify_service :: "Segment \<Rightarrow> Verdict \<Rightarrow> Verdict" where
  "classify_service seg v =
     (let action = first_or_empty (seg_operands seg)
      in if action = ''status'' then set_tier Safe v
         else if action \<in> {''restart'', ''stop'', ''start'', ''reload''} then
           push_impact ''requests in flight may fail while the service is unavailable''
             (push_reason (action @ ''s a system service'') (set_tier Medium v))
         else push_unknown (''`service '' @ action @ ''`'') (set_tier Medium v))"

definition classify_journalctl :: "Segment \<Rightarrow> Verdict \<Rightarrow> Verdict" where
  "classify_journalctl seg v =
     (if list_ex (\<lambda>a. starts_with a ''--vacuum'') (seg_args seg) then
        push_impact ''past log evidence for incidents is lost''
          (push_reason ''permanently discards journal history'' (set_tier High v))
      else v)"

definition classify_kill :: "rstr \<Rightarrow> Segment \<Rightarrow> Verdict \<Rightarrow> Verdict" where
  "classify_kill program seg v =
     (let sigkill = has_flag seg ''-9'' \<or> has_flag seg ''-KILL'' \<or> has_flag seg ''-SIGKILL'';
          v = set_tier (if sigkill then High else Medium) v;
          v = push_reason
                (if sigkill then ''terminates a process immediately with SIGKILL, giving it no chance to shut down cleanly''
                 else ''signals a running process to terminate'') v;
          v = push_if sigkill (push_impact ''in-flight work and unflushed data are lost'') v
      in push_if (program \<noteq> ''kill'')
           (push_reason ''matches processes by name, so it may signal more than one'') v)"

section \<open>Packages, firewall, accounts and permissions\<close>

definition classify_package_manager :: "rstr \<Rightarrow> Segment \<Rightarrow> Verdict \<Rightarrow> Verdict" where
  "classify_package_manager program seg v =
     (let sub = sub_or_empty seg
      in if sub \<in> {''list'', ''search'', ''show'', ''info'', ''policy'', ''list-updates'', ''check-update'',
                   ''-Q'', ''-Ss'', ''-Si''} then set_tier Safe v
         else if sub = ''update'' \<and> (program = ''apt'' \<or> program = ''apt-get'') then
           push_reason ''refreshes the package index without changing installed packages'' (set_tier Low v)
         else if sub \<in> {''install'', ''add'', ''-S''} then
           push_impact ''post-install scripts can restart running services''
             (push_reason ''installs packages, which may pull in dependencies and restart services''
               (set_tier High v))
         else if sub \<in> {''upgrade'', ''dist-upgrade'', ''full-upgrade'', ''update'', ''-Syu''} then
           push_impact ''a kernel upgrade takes effect only after a reboot''
             (push_impact ''services are restarted as their packages are replaced''
               (push_reason ''upgrades installed packages'' (set_tier High v)))
         else if sub \<in> {''remove'', ''purge'', ''erase'', ''del'', ''-R'', ''-Rs''} then
           push_impact ''dependency resolution may remove more than the named package''
             (push_reason ''removes installed packages'' (set_tier Critical v))
         else if sub \<in> {''autoremove'', ''autoclean'', ''clean''} then
           push_reason ''removes cached or orphaned packages'' (set_tier Medium v)
         else push_unknown (''`'' @ program @ '' '' @ sub @ ''`'') (set_tier High v))"

definition classify_ufw :: "Segment \<Rightarrow> Verdict \<Rightarrow> Verdict" where
  "classify_ufw seg v =
     (let sub = sub_or_empty seg
      in if sub \<in> {''status'', ''show'', ''version''} then set_tier Safe v
         else if sub = ''disable'' then
           push_impact ''every listening port becomes reachable from anywhere the network allows''
             (push_reason ''disables the host firewall entirely'' (set_tier Critical v))
         else if sub = ''reset'' then
           push_impact ''existing SSH access may be dropped by the default policy''
             (push_reason ''deletes all firewall rules and returns ufw to its defaults'' (set_tier Critical v))
         else if sub \<in> {''enable'', ''allow'', ''deny'', ''reject'', ''delete'', ''limit'', ''default''} then
           push_impact ''a mistake can lock out SSH; you would need console access to recover''
             (push_reason ''changes firewall rules'' (set_tier High v))
         else push_unknown (''`ufw '' @ sub @ ''`'') (set_tier High v))"

definition classify_packet_filter :: "Segment \<Rightarrow> Verdict \<Rightarrow> Verdict" where
  "classify_packet_filter seg v =
     (let flushes = has_flag seg ''-F'' \<or> has_flag seg ''--flush'' \<or> has_flag seg ''flush'';
          lists = has_flag seg ''-L'' \<or> has_flag seg ''--list'' \<or> has_flag seg ''list'' \<or>
                  has_flag seg ''-S'' \<or> has_flag seg ''--list-all''
      in if flushes then
           push_impact ''the host may become fully exposed, or unreachable if the default policy is DROP''
             (push_reason ''removes every firewall rule at once'' (set_tier Critical v))
         else if lists then set_tier Safe v
         else
           push_impact ''a mistake here can lock out SSH; you would need console access''
             (push_reason ''changes packet filtering rules'' (set_tier High v)))"

definition classify_ssh :: "Verdict \<Rightarrow> Verdict" where
  "classify_ssh v =
     push_impact ''can prevent future SSH logins''
       (push_reason ''changes SSH host or key configuration'' (set_tier High v))"

definition classify_account_change :: "Verdict \<Rightarrow> Verdict" where
  "classify_account_change v =
     push_impact ''affects who can log in and with what privileges''
       (push_reason ''changes system accounts or credentials'' (set_tier High v))"

definition classify_account_removal :: "Verdict \<Rightarrow> Verdict" where
  "classify_account_removal v =
     push_impact ''processes owned by the account and its home directory may be lost''
       (push_reason ''removes a system account'' (set_tier Critical v))"

definition classify_visudo :: "Verdict \<Rightarrow> Verdict" where
  "classify_visudo v =
     push_impact ''a syntax error here can remove all privilege escalation on the host''
       (push_reason ''edits sudo authorisation'' (set_tier Critical v))"

definition classify_permissions :: "Segment \<Rightarrow> Verdict \<Rightarrow> Verdict" where
  "classify_permissions seg v =
     (let recursive = has_short_flag seg (CHR ''R'') \<or> has_flag seg ''--recursive'';
          world_writable = list_ex (\<lambda>a. ends_with a ''777'' \<or> ends_with a ''666'') (seg_args seg);
          protected = hits_protected seg;
          v = set_tier (if protected \<or> (recursive \<and> world_writable) then Critical else High) v;
          v = push_reason ''changes file ownership or permissions'' v;
          v = push_if world_writable (push_reason ''grants write access to every user on the host'') v
      in push_if protected
           (push_impact ''altering permissions on system paths can break login or boot'') v)"

section \<open>Containers, files and tools\<close>

definition classify_docker :: "Segment \<Rightarrow> Verdict \<Rightarrow> Verdict" where
  "classify_docker seg v =
     (let sub = sub_or_empty seg; op = first_or_empty (seg_operands seg)
      in if sub \<in> {''ps'', ''images'', ''logs'', ''inspect'', ''stats'', ''version'', ''info'', ''top'', ''port'',
                   ''diff'', ''history'', ''events''} then set_tier Safe v
         else if sub = ''start'' then push_reason ''starts a container'' (set_tier Low v)
         else if sub \<in> {''restart'', ''stop'', ''pause'', ''unpause'', ''kill''} then
           push_impact ''traffic served by the container fails until it is running again''
             (push_reason (sub @ ''s a running container'') (set_tier Medium v))
         else if sub \<in> {''rm'', ''rmi''} then
           push_impact ''anonymous volumes attached to a removed container may be lost''
             (push_reason ''removes containers or images'' (set_tier High v))
         else if sub \<in> {''prune'', ''system''} then
           push_impact ''stopped containers, unused images and dangling volumes are deleted''
             (push_reason ''bulk-deletes unused Docker objects'' (set_tier Critical v))
         else if sub \<in> {''exec'', ''run''} then
           push_unknown ''the command run inside the container''
             (push_reason ''executes a command inside a container'' (set_tier High v))
         else if sub = ''volume'' then
           (let v = set_tier (if op \<in> {''ls'', ''inspect''} then Safe else Critical) v
            in push_if (v_tier v = Critical)
                 (push_reason ''changes Docker volumes, which hold persistent data'') v)
         else if sub = ''compose'' then
           push_if (op = ''down'') (push_reason ''stops and removes the whole compose stack'')
             (set_tier (if op \<in> {''ps'', ''logs'', ''config''} then Safe
                        else if op \<in> {''up'', ''restart''} then Medium
                        else if op = ''down'' then High else Medium) v)
         else push_unknown (''`docker '' @ sub @ ''`'') (set_tier Medium v))"

definition classify_sed :: "Segment \<Rightarrow> Verdict \<Rightarrow> Verdict" where
  "classify_sed seg v =
     (if has_short_flag seg (CHR ''i'') \<or> list_ex (\<lambda>a. starts_with a ''--in-place'') (seg_args seg) then
        push_impact ''the original content is replaced without a backup unless one was requested''
          (push_reason ''edits files in place'' (set_tier High v))
      else v)"

definition classify_truncate :: "Verdict \<Rightarrow> Verdict" where
  "classify_truncate v =
     push_reason (''changes a file'' @ [SQ] @ ''s length, discarding content beyond it'') (set_tier Medium v)"

definition classify_tee :: "Verdict \<Rightarrow> Verdict" where
  "classify_tee v = push_reason ''writes its input to a file'' (set_tier Medium v)"

definition classify_move :: "Segment \<Rightarrow> Verdict \<Rightarrow> Verdict" where
  "classify_move seg v =
     (let protected = hits_protected seg;
          v = set_tier (if protected then High else Low) v;
          v = push_reason ''creates or moves files'' v
      in push_if protected (push_reason ''one of the targets is a system-managed path'') v)"

definition classify_eval :: "rstr \<Rightarrow> Verdict \<Rightarrow> Verdict" where
  "classify_eval program v =
     push_unknown (''`'' @ program @ ''`'')
       (push_reason ''executes text as code, so its effect cannot be read from the command'' (set_tier High v))"

definition classify_schedule :: "Verdict \<Rightarrow> Verdict" where
  "classify_schedule v =
     push_reason ''schedules commands to run later, outside this session'' (set_tier High v)"

definition classify_web_server :: "rstr \<Rightarrow> Segment \<Rightarrow> Verdict \<Rightarrow> Verdict" where
  "classify_web_server program seg v =
     (if has_flag seg ''-t'' \<or> has_flag seg ''configtest'' then
        push_reason ''validates configuration without applying it'' (set_tier Safe v)
      else if has_flag seg ''-s'' \<or>
              (case seg_subcommand seg of None \<Rightarrow> False
               | Some s \<Rightarrow> contains s ''restart'' \<or> contains s ''reload'') then
        push_impact ''connections may be reset during the reload''
          (push_reason ''signals the web server to reload or restart'' (set_tier Medium v))
      else push_unknown (''`'' @ program @ ''` invocation'') (set_tier Medium v))"

definition classify_git :: "Segment \<Rightarrow> Verdict \<Rightarrow> Verdict" where
  "classify_git seg v =
     (let sub = sub_or_empty seg;
          v = set_tier
                (if sub \<in> {''status'', ''log'', ''diff'', ''show'', ''branch'', ''remote'', ''rev-parse''} then Safe
                 else if sub \<in> {''pull'', ''fetch'', ''checkout'', ''switch''} then Medium
                 else if sub \<in> {''reset'', ''clean'', ''push''} then High
                 else Low) v;
          v = push_if (v_tier v \<ge> Medium)
                (push_reason (''`git '' @ sub @ ''` changes the working tree or a remote'')) v
      in push_if (sub = ''reset'' \<or> sub = ''clean'')
           (push_impact ''uncommitted local changes on the server are discarded'') v)"

definition classify_unknown :: "rstr \<Rightarrow> Verdict \<Rightarrow> Verdict" where
  "classify_unknown other v =
     push_reason (''`'' @ other @ ''` is not in the classifier'' @ [SQ] @
         ''s table, so its effect is treated as unknown rather than assumed safe'')
       (push_unknown (''`'' @ other @ ''`, which KyvonOPS does not recognise'') (set_tier Medium v))"

section \<open>One segment\<close>

definition classify_program :: "rstr \<Rightarrow> Segment \<Rightarrow> Verdict \<Rightarrow> Verdict" where
  "classify_program program seg v =
     (if program = ''rm'' then classify_rm seg v
      else if program \<in> {''shred'', ''wipefs''} then classify_shred program v
      else if program = ''dd'' then classify_dd seg v
      else if starts_with program ''mkfs'' then classify_mkfs v
      else if program \<in> {''reboot'', ''shutdown'', ''poweroff'', ''halt'', ''init''} then classify_power v
      else if program = ''systemctl'' then classify_systemctl seg v
      else if program = ''service'' then classify_service seg v
      else if program = ''journalctl'' then classify_journalctl seg v
      else if program \<in> {''kill'', ''pkill'', ''killall''} then classify_kill program seg v
      else if program \<in> {''apt'', ''apt-get'', ''dnf'', ''yum'', ''zypper'', ''apk'', ''pacman''}
        then classify_package_manager program seg v
      else if program = ''ufw'' then classify_ufw seg v
      else if program \<in> {''iptables'', ''ip6tables'', ''nft'', ''firewall-cmd''}
        then classify_packet_filter seg v
      else if program \<in> {''sshd'', ''ssh-keygen''} then classify_ssh v
      else if program \<in> {''useradd'', ''usermod'', ''groupadd'', ''groupmod'', ''passwd'', ''chpasswd'', ''adduser''}
        then classify_account_change v
      else if program \<in> {''userdel'', ''groupdel'', ''deluser''} then classify_account_removal v
      else if program = ''visudo'' then classify_visudo v
      else if program \<in> {''chmod'', ''chown'', ''chgrp'', ''setfacl''} then classify_permissions seg v
      else if program \<in> {''docker'', ''podman''} then classify_docker seg v
      else if program = ''sed'' then classify_sed seg v
      else if program = ''truncate'' then classify_truncate v
      else if program = ''tee'' \<and> seg_args seg \<noteq> [] then classify_tee v
      else if program \<in> {''mv'', ''cp'', ''ln'', ''mkdir'', ''touch''} then classify_move seg v
      else if program \<in> {''eval'', ''source'', ''.''} then classify_eval program v
      else if program \<in> {''crontab'', ''at''} then classify_schedule v
      else if program \<in> {''nginx'', ''apache2ctl'', ''apachectl'', ''httpd''}
        then classify_web_server program seg v
      else if program = ''git'' then classify_git seg v
      else if program \<in> set READ_ONLY then set_tier Safe v
      else classify_unknown program v)"

definition classify_segment :: "Segment \<Rightarrow> Verdict" where
  "classify_segment seg =
     (case seg_program seg of
        None \<Rightarrow> verdict_default
      | Some program \<Rightarrow>
          classify_program program seg
            (case seg_elevated_via seg of
               None \<Rightarrow> verdict_default
             | Some via \<Rightarrow>
                 push_reason (''runs `'' @ program @ ''` with elevated privileges via '' @ via)
                   verdict_default))"

section \<open>The whole command line\<close>

fun dedup_from :: "rstr set \<Rightarrow> rstr list \<Rightarrow> rstr list" where
  "dedup_from seen [] = []"
| "dedup_from seen (x # xs) =
     (if x \<in> seen then dedup_from seen xs else x # dedup_from (insert x seen) xs)"

definition dedup :: "rstr list \<Rightarrow> rstr list" where
  "dedup v = dedup_from {} v"

text \<open>The accumulator of \<open>classify\<close> is a verdict: tier, reasons, impact and unknown constructs.\<close>

definition opaque_step :: "rstr \<Rightarrow> Verdict \<Rightarrow> Verdict" where
  "opaque_step construct v =
     push_reason (''contains '' @ construct @ '', whose effect cannot be determined without running it'')
       (set_tier (max (v_tier v) Medium) (push_unknown construct v))"

definition segment_step :: "Segment \<Rightarrow> Verdict \<Rightarrow> Verdict" where
  "segment_step seg v =
     (let w = classify_segment seg
      in \<lparr>v_tier = max (v_tier v) (v_tier w), v_reasons = v_reasons v @ v_reasons w,
          v_impact = v_impact v @ v_impact w, v_unknown = v_unknown v @ v_unknown w\<rparr>)"

definition redirect_step :: "rstr \<Rightarrow> Verdict \<Rightarrow> Verdict" where
  "redirect_step tgt v =
     (if tgt = ''/dev/null'' then v
      else if starts_with tgt ''/dev/'' then
        push_impact ''can destroy a block device and its filesystem''
          (push_reason (''writes directly to the device node '' @ tgt) (set_tier Critical v))
      else if is_protected_from_deletion tgt then
        push_reason (''overwrites '' @ tgt @ '', a system-managed path'') (set_tier (max (v_tier v) High) v)
      else v)"

definition assess :: "Parsed \<Rightarrow> Verdict" where
  "assess parsed =
     (let v = fold opaque_step (par_opaque_constructs parsed) verdict_default;
          v = (if pipes_download_into_shell parsed then
                 push_impact (''runs unreviewed remote code with this user'' @ [SQ] @ ''s privileges'')
                   (push_reason ''pipes downloaded content directly into a shell interpreter''
                     (set_tier Critical v))
               else v);
          v = fold segment_step (par_segments parsed) v
      in fold redirect_step (par_write_redirect_targets parsed) v)"

definition classify :: "rstr \<Rightarrow> RiskAssessment" where
  "classify command_in =
     (let command = trim command_in
      in if command = [] then
           \<lparr>ra_tier = Safe, ra_command = [], ra_reasons = [''empty command''],
            ra_expected_impact = [], ra_unknown_constructs = []\<rparr>
         else
           (let v = assess (parse command);
                reasons = (if v_reasons v = [] then [''reads system state without modifying it'']
                           else v_reasons v)
            in \<lparr>ra_tier = v_tier v, ra_command = command, ra_reasons = dedup reasons,
                ra_expected_impact = dedup (v_impact v), ra_unknown_constructs = dedup (v_unknown v)\<rparr>))"

end
