(* ===== verification/Risk_Theorems.thy ===== *)
theory Risk_Theorems
  imports Risk_Classify
begin

text \<open>
  What the classifier guarantees: the tier of a command line is the worst tier found in it, an
  unknown or opaque construct always escalates, a command that may run without confirmation has
  nothing suspicious in it, privilege wrappers do not hide a program, and the assessment of a command
  made by the builder is about exactly the words that run. The last properties record the
  constructs that the classifier misses.
\<close>

section \<open>Verdict primitives\<close>

lemma verdict_prims [simp]:
  "v_tier (set_tier t v) = t" "v_reasons (set_tier t v) = v_reasons v"
  "v_impact (set_tier t v) = v_impact v" "v_unknown (set_tier t v) = v_unknown v"
  "v_tier (push_reason r v) = v_tier v" "v_reasons (push_reason r v) = v_reasons v @ [r]"
  "v_impact (push_reason r v) = v_impact v" "v_unknown (push_reason r v) = v_unknown v"
  "v_tier (push_impact r v) = v_tier v" "v_reasons (push_impact r v) = v_reasons v"
  "v_impact (push_impact r v) = v_impact v @ [r]" "v_unknown (push_impact r v) = v_unknown v"
  "v_tier (push_unknown r v) = v_tier v" "v_reasons (push_unknown r v) = v_reasons v"
  "v_impact (push_unknown r v) = v_impact v" "v_unknown (push_unknown r v) = v_unknown v @ [r]"
  by (simp_all add: set_tier_def push_reason_def push_impact_def push_unknown_def)

lemma verdict_default_sel [simp]:
  "v_tier verdict_default = Safe" "v_reasons verdict_default = []" "v_impact verdict_default = []"
  "v_unknown verdict_default = []"
  by (simp_all add: verdict_default_def)

lemma push_if_simps [simp]: "push_if True f v = f v" "push_if False f v = v"
  by (simp_all add: push_if_def)

text \<open>A verdict is honest when a Safe one announces no impact and nothing unknown stays below Medium.\<close>

definition honest :: "Verdict \<Rightarrow> bool" where
  "honest v \<longleftrightarrow> (v_tier v = Safe \<longrightarrow> v_impact v = []) \<and> (v_tier v < Medium \<longrightarrow> v_unknown v = [])"

definition quiet :: "Verdict \<Rightarrow> bool" where
  "quiet v \<longleftrightarrow> v_impact v = [] \<and> v_unknown v = []"

named_theorems honest_arms "every arm of the program table gives an honest verdict"
named_theorems tier_arms "the tier an arm assigns does not depend on the text gathered so far"

lemmas arm_defs = classify_rm_def classify_shred_def classify_dd_def classify_mkfs_def
  classify_power_def systemctl_action_def classify_systemctl_def classify_service_def
  classify_journalctl_def classify_kill_def classify_package_manager_def classify_ufw_def
  classify_packet_filter_def classify_ssh_def classify_account_change_def
  classify_account_removal_def classify_visudo_def classify_permissions_def classify_docker_def
  classify_sed_def classify_truncate_def classify_tee_def classify_move_def classify_eval_def
  classify_schedule_def classify_web_server_def classify_git_def classify_unknown_def

lemma honestI_high: "Medium \<le> v_tier v \<Longrightarrow> honest v"
  by (cases "v_tier v") (auto simp: honest_def tier_order_defs)

lemma honestI_quiet: "quiet v \<Longrightarrow> honest v"
  by (simp add: honest_def quiet_def)

lemma quiet_prims [simp]: "quiet (set_tier t v) = quiet v" "quiet (push_reason r v) = quiet v"
  "quiet verdict_default"
  by (simp_all add: quiet_def)

lemma tier_le_simps [simp]: "Medium \<le> High" "Medium \<le> Critical" "Medium \<le> max t Critical" "\<not> Medium \<le> Low"
  "\<not> Medium \<le> Safe" "max t Critical = Critical"
  by (cases t; simp add: tier_order_defs max_def)+

lemma push_if_tier [simp]: "(\<And>v. v_tier (f v) = v_tier v) \<Longrightarrow> v_tier (push_if b f v) = v_tier v"
  by (simp add: push_if_def)

lemma quiet_push_if [simp]: "(\<And>v. quiet (f v) = quiet v) \<Longrightarrow> quiet (push_if b f v) = quiet v"
  by (simp add: push_if_def)

lemma honest_if: "honest x \<Longrightarrow> honest y \<Longrightarrow> honest (if b then x else y)"
  by simp

lemmas honest_rules = honestI_high honestI_quiet

lemma honest_destructive [honest_arms]:
  assumes "quiet v"
  shows "honest (classify_rm seg v)" "honest (classify_shred p v)" "honest (classify_dd seg v)"
    "honest (classify_mkfs v)" "honest (classify_power v)"
  unfolding arm_defs Let_def by (simp_all add: honestI_high)

lemma honest_systemctl_action: "quiet v \<Longrightarrow> honest (systemctl_action sub us v)"
  unfolding systemctl_action_def by (intro honest_if) (simp_all add: honest_rules)

lemma honest_services [honest_arms]:
  assumes "quiet v"
  shows "honest (classify_systemctl seg v)" "honest (classify_service seg v)"
    "honest (classify_journalctl seg v)" "honest (classify_kill p seg v)"
  unfolding classify_systemctl_def classify_service_def classify_journalctl_def classify_kill_def Let_def
  using assms by (auto intro!: honest_if simp: honest_rules honest_systemctl_action)

lemma honest_admin [honest_arms]:
  assumes "quiet v"
  shows "honest (classify_package_manager p seg v)" "honest (classify_ufw seg v)"
    "honest (classify_packet_filter seg v)" "honest (classify_ssh v)" "honest (classify_account_change v)"
    "honest (classify_account_removal v)" "honest (classify_visudo v)" "honest (classify_permissions seg v)"
  unfolding arm_defs Let_def by (rule honest_if | (simp add: assms honest_rules; fail))+

lemma honest_tools [honest_arms]:
  assumes "quiet v"
  shows "honest (classify_docker seg v)" "honest (classify_sed seg v)" "honest (classify_truncate v)"
    "honest (classify_tee v)" "honest (classify_move seg v)" "honest (classify_eval p v)"
    "honest (classify_schedule v)" "honest (classify_web_server p seg v)" "honest (classify_unknown p v)"
  unfolding arm_defs Let_def by (rule honest_if | (simp add: assms honest_rules; fail))+

lemma honest_git [honest_arms]: "quiet v \<Longrightarrow> honest (classify_git seg v)"
  unfolding classify_git_def Let_def
  by (cases "sub_or_empty seg = ''reset'' \<or> sub_or_empty seg = ''clean''")
    (auto simp: honest_rules)

lemma honest_program: "quiet v \<Longrightarrow> honest (classify_program p seg v)"
  unfolding classify_program_def by (intro honest_if) (simp_all add: honest_arms honest_rules)

lemma honest_segment: "honest (classify_segment seg)"
  unfolding classify_segment_def
  by (cases "seg_program seg"; cases "seg_elevated_via seg")
    (simp_all add: honest_program honestI_quiet)

section \<open>Tiers do not depend on the text gathered so far\<close>

lemma tier_if:
  "v_tier x = v_tier x' \<Longrightarrow> v_tier y = v_tier y' \<Longrightarrow>
     v_tier (if b then x else y) = v_tier (if b then x' else y')"
  by simp

lemma tier_action: "v_tier v = v_tier v' \<Longrightarrow> v_tier (systemctl_action s us v) = v_tier (systemctl_action s us v')"
  unfolding systemctl_action_def by (rule tier_if | (simp; fail))+

lemma tier_arms_cong [tier_arms]:
  assumes "v_tier v = v_tier v'"
  shows "v_tier (classify_rm seg v) = v_tier (classify_rm seg v')"
    "v_tier (classify_shred p v) = v_tier (classify_shred p v')"
    "v_tier (classify_dd seg v) = v_tier (classify_dd seg v')"
    "v_tier (classify_mkfs v) = v_tier (classify_mkfs v')"
    "v_tier (classify_power v) = v_tier (classify_power v')"
    "v_tier (classify_systemctl seg v) = v_tier (classify_systemctl seg v')"
    "v_tier (classify_service seg v) = v_tier (classify_service seg v')"
    "v_tier (classify_journalctl seg v) = v_tier (classify_journalctl seg v')"
    "v_tier (classify_kill p seg v) = v_tier (classify_kill p seg v')"
    "v_tier (classify_package_manager p seg v) = v_tier (classify_package_manager p seg v')"
    "v_tier (classify_ufw seg v) = v_tier (classify_ufw seg v')"
    "v_tier (classify_packet_filter seg v) = v_tier (classify_packet_filter seg v')"
    "v_tier (classify_ssh v) = v_tier (classify_ssh v')"
    "v_tier (classify_account_change v) = v_tier (classify_account_change v')"
    "v_tier (classify_account_removal v) = v_tier (classify_account_removal v')"
    "v_tier (classify_visudo v) = v_tier (classify_visudo v')"
    "v_tier (classify_permissions seg v) = v_tier (classify_permissions seg v')"
    "v_tier (classify_docker seg v) = v_tier (classify_docker seg v')"
    "v_tier (classify_sed seg v) = v_tier (classify_sed seg v')"
    "v_tier (classify_truncate v) = v_tier (classify_truncate v')"
    "v_tier (classify_tee v) = v_tier (classify_tee v')"
    "v_tier (classify_move seg v) = v_tier (classify_move seg v')"
    "v_tier (classify_eval p v) = v_tier (classify_eval p v')"
    "v_tier (classify_schedule v) = v_tier (classify_schedule v')"
    "v_tier (classify_web_server p seg v) = v_tier (classify_web_server p seg v')"
    "v_tier (classify_git seg v) = v_tier (classify_git seg v')"
    "v_tier (classify_unknown p v) = v_tier (classify_unknown p v')"
  unfolding classify_rm_def classify_shred_def classify_dd_def classify_mkfs_def
    classify_power_def classify_systemctl_def classify_service_def
    classify_journalctl_def classify_kill_def classify_package_manager_def classify_ufw_def
    classify_packet_filter_def classify_ssh_def classify_account_change_def
    classify_account_removal_def classify_visudo_def classify_permissions_def classify_docker_def
    classify_sed_def classify_truncate_def classify_tee_def classify_move_def classify_eval_def
    classify_schedule_def classify_web_server_def classify_git_def classify_unknown_def Let_def
  by (rule tier_if | (simp add: assms tier_action [OF assms]; fail))+

lemma tier_program: "v_tier v = v_tier v' \<Longrightarrow> v_tier (classify_program p seg v) = v_tier (classify_program p seg v')"
  unfolding classify_program_def by (rule tier_if | (simp; fail) | (rule tier_arms; assumption))+

lemma tier_segment:
  "v_tier (classify_segment seg) =
     (case seg_program seg of None \<Rightarrow> Safe | Some p \<Rightarrow> v_tier (classify_program p seg verdict_default))"
  unfolding classify_segment_def by (auto split: option.splits intro: tier_program)

text \<open>A verdict looks at the words of a segment only.\<close>

lemma classify_program_words:
  assumes "seg_words seg = seg_words seg'"
  shows "classify_program p seg v = classify_program p seg' v"
proof -
  have "seg_args seg = seg_args seg'" using assms by (simp add: seg_args_def)
  then have "non_flags seg = non_flags seg'" "seg_subcommand seg = seg_subcommand seg'"
    "has_flag seg = has_flag seg'" "has_short_flag seg = has_short_flag seg'"
    by (simp_all add: non_flags_def seg_subcommand_def has_flag_def has_short_flag_def fun_eq_iff)
  moreover from this have "seg_operands seg = seg_operands seg'" "sub_or_empty seg = sub_or_empty seg'"
    "hits_protected seg = hits_protected seg'" "rm_recursive seg = rm_recursive seg'"
    "rm_forced seg = rm_forced seg'"
    by (simp_all add: seg_operands_def sub_or_empty_def hits_protected_def rm_recursive_def rm_forced_def)
  ultimately show ?thesis
    unfolding classify_program_def arm_defs by (simp only: \<open>seg_args seg = seg_args seg'\<close>)
qed

section \<open>The tier of a command line\<close>

definition redirect_tier :: "rstr \<Rightarrow> RiskTier" where
  "redirect_tier tgt =
     (if tgt = ''/dev/null'' then Safe else if starts_with tgt ''/dev/'' then Critical
      else if is_protected_from_deletion tgt then High else Safe)"

lemma max_Safe [simp]: "max t Safe = t" "max Safe t = t"
  by (simp_all add: max_def order.antisym)

lemma tier_redirect_step: "v_tier (redirect_step tgt v) = max (v_tier v) (redirect_tier tgt)"
  by (simp add: redirect_step_def redirect_tier_def)

lemma tier_fold_le:
  assumes "\<And>x v. v_tier (f x v) = max (v_tier v) (g x)"
  shows "v_tier (fold f xs v) \<le> t \<longleftrightarrow> v_tier v \<le> t \<and> (\<forall>x \<in> set xs. g x \<le> t)"
  using assms by (induction xs arbitrary: v) auto

lemma tier_segment_step: "v_tier (segment_step seg v) = max (v_tier v) (v_tier (classify_segment seg))"
  by (simp add: segment_step_def Let_def)

lemma tier_opaque_step: "v_tier (opaque_step c v) = max (v_tier v) Medium"
  by (simp add: opaque_step_def)

text \<open>Everything that can raise the tier of a command line.\<close>

definition risk_factors :: "Parsed \<Rightarrow> RiskTier set" where
  "risk_factors p =
     insert Safe
      ((if par_opaque_constructs p = [] then {} else {Medium}) \<union>
       (if pipes_download_into_shell p then {Critical} else {}) \<union>
       (\<lambda>seg. v_tier (classify_segment seg)) ` set (par_segments p) \<union>
       redirect_tier ` set (par_write_redirect_targets p))"

lemma finite_risk_factors [simp]: "finite (risk_factors p)"
  by (simp add: risk_factors_def)

lemma tier_assess_le: "v_tier (assess p) \<le> t \<longleftrightarrow> (\<forall>x \<in> risk_factors p. x \<le> t)"
  by (auto simp: assess_def Let_def risk_factors_def tier_fold_le [OF tier_redirect_step]
      tier_fold_le [OF tier_segment_step] tier_fold_le [OF tier_opaque_step])

lemma tier_assess: "v_tier (assess p) = Max (risk_factors p)"
proof (rule order.antisym)
  show "v_tier (assess p) \<le> Max (risk_factors p)" by (simp add: tier_assess_le)
  have "risk_factors p \<noteq> {}" by (simp add: risk_factors_def)
  then show "Max (risk_factors p) \<le> v_tier (assess p)"
    using tier_assess_le [of p "v_tier (assess p)"] by simp
qed

section \<open>Honesty of the whole assessment\<close>

lemma honest_segment_step: "honest v \<Longrightarrow> honest (segment_step seg v)"
  using honest_segment [of seg] by (auto simp: honest_def segment_step_def Let_def max_def split: if_splits)

lemma honest_opaque_step: "honest (opaque_step c v)"
  by (rule honestI_high) (simp add: opaque_step_def)

lemma honest_redirect_step: "honest v \<Longrightarrow> honest (redirect_step tgt v)"
  unfolding redirect_step_def by (intro honest_if) (auto intro: honestI_high simp: le_max_iff_disj)

lemma honest_fold: "honest v \<Longrightarrow> (\<And>x v. honest v \<Longrightarrow> honest (f x v)) \<Longrightarrow> honest (fold f xs v)"
  by (induction xs arbitrary: v) auto

lemma honest_assess: "honest (assess p)"
proof -
  let ?v1 = "fold opaque_step (par_opaque_constructs p) verdict_default"
  have v1: "honest ?v1" by (rule honest_fold) (simp_all add: honest_opaque_step honestI_quiet)
  have "honest (if pipes_download_into_shell p then push_impact i (push_reason r (set_tier Critical ?v1)) else ?v1)"
    for i r by (intro honest_if) (simp_all add: honestI_high v1)
  then show ?thesis
    unfolding assess_def Let_def
    by (intro honest_fold) (simp_all add: honest_segment_step honest_redirect_step)
qed

lemma set_dedup_from: "set (dedup_from seen xs) = set xs - seen"
  by (induction seen xs rule: dedup_from.induct) auto

lemma distinct_dedup_from: "distinct (dedup_from seen xs)"
  by (induction seen xs rule: dedup_from.induct) (auto simp: set_dedup_from)

lemma set_dedup [simp]: "set (dedup xs) = set xs"
  by (simp add: dedup_def set_dedup_from)

lemma distinct_dedup [simp]: "distinct (dedup xs)"
  by (simp add: dedup_def distinct_dedup_from)

lemma dedup_Nil_iff [simp]: "dedup xs = [] \<longleftrightarrow> xs = []"
  using set_dedup [of xs] by (metis set_empty)

lemma classify_sel:
  assumes "trim cmd \<noteq> []"
  shows "ra_tier (classify cmd) = v_tier (assess (parse (trim cmd)))"
    "ra_command (classify cmd) = trim cmd"
    "ra_expected_impact (classify cmd) = dedup (v_impact (assess (parse (trim cmd))))"
    "ra_unknown_constructs (classify cmd) = dedup (v_unknown (assess (parse (trim cmd))))"
  using assms by (simp_all add: classify_def Let_def)

lemma classify_empty: "trim cmd = [] \<Longrightarrow> ra_tier (classify cmd) = Safe \<and> ra_expected_impact (classify cmd) = []
    \<and> ra_unknown_constructs (classify cmd) = []"
  by (simp add: classify_def)

section \<open>Rendered commands are not touched by trimming\<close>

definition plain_byte :: "char \<Rightarrow> bool" where
  "plain_byte c \<longleftrightarrow> 32 < byte c \<and> byte c < 128"

lemma strip_any_plain: "plain_byte c \<Longrightarrow> list_all (\<lambda>p. p \<noteq> [] \<longrightarrow> \<not> plain_byte (hd p)) ps \<Longrightarrow> strip_any ps (c # t) = None"
  by (induction ps) (auto simp: prefix_def neq_Nil_conv)

lemma whitespace_not_plain:
  "list_all (\<lambda>p. p \<noteq> [] \<longrightarrow> \<not> plain_byte (hd p)) utf8_whitespace"
  "list_all (\<lambda>p. p \<noteq> [] \<longrightarrow> \<not> plain_byte (hd p)) (map rev utf8_whitespace)"
  by (simp_all add: utf8_whitespace_def plain_byte_def byte_def)

lemma trim_plain:
  assumes "s \<noteq> []" and "plain_byte (hd s)" and "plain_byte (last s)"
  shows "trim s = s"
proof -
  obtain c t where s: "s = c # t" using assms(1) by (cases s) auto
  obtain d u where r: "rev s = d # u" "d = last s"
    using assms(1) by (metis hd_rev list.exhaust_sel rev_is_Nil_conv)
  show ?thesis
    using strip_any_plain [OF _ whitespace_not_plain(1)] strip_any_plain [OF _ whitespace_not_plain(2)]
      assms(2,3) s r by (intro trim_idI) simp_all
qed

lemma quote_plain: "quote w \<noteq> [] \<and> plain_byte (hd (quote w)) \<and> plain_byte (last (quote w))"
proof -
  have bare: "bare_byte c \<Longrightarrow> plain_byte c" for c
    by (auto simp: bare_byte_def plain_byte_def byte_simps)
  have sq: "plain_byte SQ" by (simp add: plain_byte_def byte_def)
  show ?thesis
  proof (cases "w \<noteq> [] \<and> list_all bare_byte w")
    case True
    then have "bare_byte (hd w)" "bare_byte (last w)" by (simp_all add: list_all_iff)
    with True bare show ?thesis by (simp add: quote_def)
  next
    case False
    then have "quote w = SQ # concat (map quote_char w) @ [SQ]" by (auto simp: quote_def)
    with sq show ?thesis by simp
  qed
qed

lemma trim_quoted_words:
  assumes "ws \<noteq> []"
  shows "trim (join '' '' (map quote ws)) = join '' '' (map quote ws)"
proof -
  have "join '' '' (map quote ws) \<noteq> [] \<and> plain_byte (hd (join '' '' (map quote ws)))
      \<and> plain_byte (last (join '' '' (map quote ws)))"
    using assms
  proof (induction ws)
    case (Cons w ws)
    then show ?case using quote_plain [of w] by (cases "ws = []") (auto simp: join_Cons)
  qed simp
  then show ?thesis by (intro trim_plain) auto
qed

lemma parse_render:
  "parse (trim (render c)) =
     \<lparr>par_segments = [build_segment (cmd_words c) False], par_opaque_constructs = [],
      par_write_redirect_targets = []\<rparr>"
  "trim (render c) = render c" "render c \<noteq> []"
proof -
  have ne: "cmd_words c \<noteq> []" by (simp add: cmd_words_def)
  show tr: "trim (render c) = render c" unfolding render_eq by (rule trim_quoted_words [OF ne])
  show pr: "parse (trim (render c)) =
     \<lparr>par_segments = [build_segment (cmd_words c) False], par_opaque_constructs = [],
      par_write_redirect_targets = []\<rparr>"
    unfolding tr unfolding render_eq by (rule parse_words [OF ne])
  show "render c \<noteq> []"
  proof
    assume "render c = []"
    then have "parse (trim (render c)) = parsed_default"
      using tr by (simp add: parse_def parse_finish_def push_word_def end_segment_def pstate_init_def)
    then show False
      using pr by (simp add: parsed_default_def)
  qed
qed

lemma tier_single_segment:
  "v_tier (assess \<lparr>par_segments = [seg], par_opaque_constructs = [], par_write_redirect_targets = []\<rparr>)
     = v_tier (classify_segment seg)"
  by (simp add: assess_def Let_def pipes_download_into_shell_def tier_segment_step)

section \<open>Properties\<close>

text \<open>
  C10. The tier of a command line is the tier of its worst part: exactly the maximum of Safe, Medium
  when it has a construct that defeats static reading, Critical when it pipes a download into a
  shell, the verdicts on its segments, and the tiers of the files it redirects into.
\<close>

theorem classify_worst_part:
  assumes "trim cmd \<noteq> []"
  shows "ra_tier (classify cmd) = Max (risk_factors (parse (trim cmd)))"
  using assms by (simp add: classify_sel tier_assess)

theorem classify_worst_part_witness:
  "trim ''rm x'' \<noteq> [] \<and> ra_tier (classify ''rm x'') = Max (risk_factors (parse (trim ''rm x'')))"
proof -
  have "trim ''rm x'' \<noteq> []" by code_simp
  then show ?thesis using classify_worst_part [of "''rm x''"] by blast
qed

text \<open>
  Nothing unknown is assumed harmless. Whenever an assessment lists a construct that could not
  be classified (an unrecognised program or subcommand, a command substitution, \<open>eval\<close>, a command
  run inside a container), its tier is at least Medium, so the command cannot run without a
  preview; and an assessment of tier Safe announces no impact.
\<close>

theorem classify_unknown_escalates:
  "(ra_unknown_constructs (classify cmd) \<noteq> [] \<longrightarrow>
      Medium \<le> ra_tier (classify cmd) \<and> \<not> is_auto_executable (ra_tier (classify cmd))) \<and>
   (ra_tier (classify cmd) = Safe \<longrightarrow> ra_expected_impact (classify cmd) = [])"
proof (cases "trim cmd = []")
  case True
  then show ?thesis using classify_empty [of cmd] by simp
next
  case False
  have h: "honest (assess (parse (trim cmd)))" by (rule honest_assess)
  have "Medium \<le> t \<Longrightarrow> \<not> is_auto_executable t" for t
    by (cases t) (simp_all add: is_auto_executable_def)
  with h False show ?thesis by (auto simp: classify_sel honest_def not_less)
qed

theorem classify_unknown_escalates_witness:
  "ra_unknown_constructs (classify ''xyzzy'') \<noteq> [] \<and> Medium \<le> ra_tier (classify ''xyzzy'') \<and>
   \<not> is_auto_executable (ra_tier (classify ''xyzzy''))"
proof -
  have "ra_unknown_constructs (classify ''xyzzy'') \<noteq> []" by code_simp
  then show ?thesis using classify_unknown_escalates [of "''xyzzy''"] by blast
qed



text \<open>
  The assessment describes what runs. For every command made by the builder, the classifier
  keeps the rendered text unchanged as the command to show, and its tier is the verdict on the one
  segment made of exactly the words that the remote shell will see (C1): no argument, however
  hostile, is read as a separate command, a redirection or a substitution.
\<close>

theorem classify_render:
  "ra_command (classify (render c)) = render c \<and>
   ra_tier (classify (render c)) = v_tier (classify_segment (build_segment (cmd_words c) False)) \<and>
   par_segments (parse (trim (render c))) = [build_segment (cmd_words c) False]"
  using parse_render [of c] by (simp add: classify_sel tier_single_segment)

text \<open>
  Privilege wrappers hide nothing. A segment that starts with \<open>sudo\<close> or \<open>doas\<close>, whatever
  options and target user follow it, has the same tier as the wrapped command on its own, and the
  segment that remains has no wrapper or environment assignment left in front of its program.
\<close>

theorem elevation_transparent:
  assumes "w = ''sudo'' \<or> w = ''doas''"
  shows "v_tier (classify_segment (build_segment (w # ws) rp)) =
           v_tier (classify_segment (build_segment (drop_sudo_options ws) rp)) \<and>
         seg_words (build_segment (seg_words (build_segment (w # ws) rp)) rp) =
           seg_words (build_segment (w # ws) rp)"
proof
  have words: "seg_words (build_segment xs rp) = snd (strip_wrappers None xs)" for xs
    by (simp add: build_segment_def split: prod.splits)
  have eq: "snd (strip_wrappers None (w # ws)) = snd (strip_wrappers None (drop_sudo_options ws))"
    using strip_sudo [OF assms] strip_wrappers_words by metis
  then have "seg_program (build_segment (w # ws) rp) = seg_program (build_segment (drop_sudo_options ws) rp)"
    by (simp add: seg_program_def words)
  then show "v_tier (classify_segment (build_segment (w # ws) rp)) =
      v_tier (classify_segment (build_segment (drop_sudo_options ws) rp))"
    using classify_program_words [of "build_segment (w # ws) rp" "build_segment (drop_sudo_options ws) rp"]
      eq by (simp add: tier_segment words split: option.splits)
  show "seg_words (build_segment (seg_words (build_segment (w # ws) rp)) rp) = seg_words (build_segment (w # ws) rp)"
    by (simp add: words strip_wrappers_idem)
qed

theorem elevation_transparent_witness:
  "v_tier (classify_segment (build_segment [''sudo'', ''-u'', ''root'', ''reboot''] False)) =
     v_tier (classify_segment (build_segment (drop_sudo_options [''-u'', ''root'', ''reboot'']) False))"
  using elevation_transparent [of "''sudo''" "[''-u'', ''root'', ''reboot'']" False] by simp

text \<open>
  Forced recursive deletion is always critical, whatever it names and however the flags are
  bundled; and so is any deletion of a protected path. Every assessment has at least one reason, and
  no reason, impact or unknown construct is listed twice.
\<close>

theorem rm_and_explanations:
  "(rm_recursive seg \<and> rm_forced seg \<or> hits_protected seg \<longrightarrow>
      v_tier (classify_program ''rm'' seg v) = Critical) \<and>
   ra_reasons (classify cmd) \<noteq> [] \<and> distinct (ra_reasons (classify cmd)) \<and>
   distinct (ra_expected_impact (classify cmd)) \<and> distinct (ra_unknown_constructs (classify cmd))"
proof (intro conjI impI)
  show "v_tier (classify_program ''rm'' seg v) = Critical"
    if "rm_recursive seg \<and> rm_forced seg \<or> hits_protected seg"
    using that by (auto simp: classify_program_def classify_rm_def Let_def)
qed (simp_all add: classify_def Let_def)

theorem rm_and_explanations_witness:
  "v_tier (classify_program ''rm'' (build_segment [''rm'', ''-fr'', ''x''] False) verdict_default) = Critical"
proof -
  have "rm_recursive (build_segment [''rm'', ''-fr'', ''x''] False)"
    "rm_forced (build_segment [''rm'', ''-fr'', ''x''] False)" by code_simp+
  then show ?thesis
    using rm_and_explanations [of "build_segment [''rm'', ''-fr'', ''x''] False" verdict_default] by blast
qed

text \<open>
  Where the classifier is blind. A command run through \<open>xargs\<close>, a backquote substitution
  inside double quotes, and the deletion of the root directory without \<open>-f\<close> are not seen for what
  they are: the first two count as Safe and may run without confirmation, and the third is not
  Critical.
\<close>

theorem classify_blind_spots:
  "ra_tier (classify ''xargs rm -rf /etc'') = Safe \<and>
   ra_tier (classify (''echo '' @ [DQ, BQ] @ ''reboot'' @ [BQ, DQ])) = Safe \<and>
   ra_tier (classify ''rm -r /'') = High"
  by code_simp

text \<open>
  A high tier with a harmless explanation. The option-style subcommands of the package
  managers are never found, because a word that starts with a dash is not a subcommand: removing a
  package with \<open>pacman -Rs\<close> gets the tier High of an unknown subcommand instead of Critical, and
  the only reason shown for it is the one for commands that read state.
\<close>

theorem pacman_remove_misread:
  "ra_tier (classify ''pacman -Rs nginx'') = High \<and>
   ra_reasons (classify ''pacman -Rs nginx'') = [''reads system state without modifying it'']"
  by code_simp

end
