(* ===== verification/Redact.thy ===== *)
theory Redact
  imports Core_Types
begin

text \<open>
  crates/kyvon-core/src/redact.rs: the text redactor that everything leaving the SSH boundary passes
  through. Byte offsets are natural numbers into the remaining text, as in the source; the loop of
  \<open>redact_line\<close> is a recursion whose termination rests on every span being non-empty.
\<close>

section \<open>Definitions\<close>

definition SECRET_KEYS :: "rstr list" where
  "SECRET_KEYS =
     [''password'', ''passwd'', ''pwd'', ''secret'', ''token'', ''api_key'', ''apikey'', ''access_key'',
      ''secret_key'', ''private_key'', ''auth'', ''authorization'', ''credential'', ''credentials'',
      ''session'', ''cookie'', ''database_url'', ''db_url'', ''dsn'', ''connection_string'',
      ''client_secret'', ''refresh_token'', ''bearer'', ''passphrase'']"

text \<open>The word \<open>redacted\<close> between the quotation marks U+00AB and U+00BB.\<close>

definition MASK :: rstr where
  "MASK = [CHR 0xC2, CHR 0xAB] @ ''redacted'' @ [CHR 0xC2, CHR 0xBB]"

definition is_token_char :: "char \<Rightarrow> bool" where
  "is_token_char b \<longleftrightarrow> is_ascii_alphanumeric b \<or> b \<in> {CHR ''_'', CHR ''-'', CHR ''.''}"

function tokens_from :: "nat \<Rightarrow> rstr \<Rightarrow> (nat \<times> nat) list" where
  "tokens_from i [] = []"
| "tokens_from i (c # s) =
     (if is_token_char c then
        (let n = length (takeWhile is_token_char s) in (i, i + 1 + n) # tokens_from (i + 1 + n) (drop n s))
      else tokens_from (i + 1) s)"
  by pat_completeness auto
termination
  by (relation "measure (\<lambda>(i, s). length s)") (auto simp: less_Suc_eq_le)

definition tokens :: "rstr \<Rightarrow> (nat \<times> nat) list" where
  "tokens s = tokens_from 0 s"

fun split_by :: "(char \<Rightarrow> bool) \<Rightarrow> rstr \<Rightarrow> rstr list" where
  "split_by p [] = [[]]"
| "split_by p (x # xs) =
     (if p x then [] # split_by p xs
      else (case split_by p xs of [] \<Rightarrow> [[x]] | w # ws \<Rightarrow> (x # w) # ws))"

definition key_punct :: "char \<Rightarrow> bool" where
  "key_punct c \<longleftrightarrow> c \<in> {CHR ''-'', CHR ''.'', CHR ''_''}"

definition is_secret_key :: "rstr \<Rightarrow> bool" where
  "is_secret_key token =
     (let t = trim_matches key_punct (to_ascii_lowercase token)
      in list_ex (\<lambda>k. t = k \<or> ends_with t k \<or> starts_with t k \<or> k \<in> set (split_by key_punct t)) SECRET_KEYS)"

text \<open>The index loops \<open>while i < bytes.len() && p(bytes[i]) { i += 1 }\<close>.\<close>

definition skip_while :: "(char \<Rightarrow> bool) \<Rightarrow> rstr \<Rightarrow> nat \<Rightarrow> nat" where
  "skip_while p s i = i + length (takeWhile p (drop i s))"

definition get_byte :: "rstr \<Rightarrow> nat \<Rightarrow> char option" where
  "get_byte s i = (if i < length s then Some (s ! i) else None)"

text \<open>
  The scan to the matching bracket: the offset just past the closing bracket, or the end of the text.
  The second component says that \<open>depth -= 1\<close> was never executed at depth 0 (in Rust, a panic).
\<close>

fun scan_container :: "char \<Rightarrow> char \<Rightarrow> nat \<Rightarrow> bool \<Rightarrow> bool \<Rightarrow> nat \<Rightarrow> rstr \<Rightarrow> nat \<times> bool" where
  "scan_container opn cls depth in_string escaped i [] = (i, True)"
| "scan_container opn cls depth in_string escaped i (b # s) =
     (if in_string then
        (if escaped then scan_container opn cls depth True False (i + 1) s
         else if b = BSL then scan_container opn cls depth True True (i + 1) s
         else if b = DQ then scan_container opn cls depth False escaped (i + 1) s
         else scan_container opn cls depth True escaped (i + 1) s)
      else if b = DQ then scan_container opn cls depth True escaped (i + 1) s
      else if b = opn then scan_container opn cls (depth + 1) in_string escaped (i + 1) s
      else if b = cls then
        (if depth = 0 then (i + 1, False)
         else if depth - 1 = 0 then (i + 1, True)
         else scan_container opn cls (depth - 1) in_string escaped (i + 1) s)
      else scan_container opn cls depth in_string escaped (i + 1) s)"

definition non_empty_span :: "nat \<Rightarrow> nat \<Rightarrow> (nat \<times> nat) option" where
  "non_empty_span start i = (if i > start then Some (start, i) else None)"

definition is_blank :: "char \<Rightarrow> bool" where
  "is_blank b \<longleftrightarrow> b = SP \<or> b = TAB"

definition value_stop :: "char \<Rightarrow> bool" where
  "value_stop b \<longleftrightarrow> b = SP \<or> b = TAB \<or> b = NL \<or> b = CR \<or> b = CHR '',''"

definition value_at :: "rstr \<Rightarrow> nat \<Rightarrow> (nat \<times> nat) option" where
  "value_at s i =
     (case get_byte s i of
        Some b \<Rightarrow>
          if b = CHR ''{'' \<or> b = CHR ''['' then
            non_empty_span i
              (fst (scan_container b (if b = CHR ''{'' then CHR ''}'' else CHR '']'') 0 False False i (drop i s)))
          else if b = DQ \<or> b = SQ then non_empty_span (i + 1) (skip_while (\<lambda>c. c \<noteq> b) s (i + 1))
          else non_empty_span i (skip_while (\<lambda>c. \<not> value_stop c) s i)
      | None \<Rightarrow> non_empty_span i (skip_while (\<lambda>c. \<not> value_stop c) s i))"

definition value_span_after :: "rstr \<Rightarrow> nat \<Rightarrow> (nat \<times> nat) option" where
  "value_span_after s key_end =
     (let sep_start = skip_while (\<lambda>b. b = DQ \<or> b = SQ) s key_end;
          i = skip_while is_blank s sep_start
      in if get_byte s i = Some (CHR ''='') \<or> get_byte s i = Some (CHR '':'')
         then value_at s (skip_while is_blank s (i + 1))
         else if i > sep_start then value_at s (skip_while is_blank s i)
         else None)"

definition url_credential_span :: "rstr \<Rightarrow> (nat \<times> nat) option" where
  "url_credential_span s =
     (case find_str ''://'' s of None \<Rightarrow> None
      | Some scheme \<Rightarrow>
        (let auth_start = scheme + 3 in
         case find_char (CHR ''@'') (drop auth_start s) of None \<Rightarrow> None
         | Some a \<Rightarrow>
           (let at = a + auth_start in
            case find_char (CHR '':'') (take (at - auth_start) (drop auth_start s)) of None \<Rightarrow> None
            | Some c \<Rightarrow>
              (let colon = c + auth_start
               in if at > colon + 1 then Some (colon + 1, at) else None))))"

definition better_span :: "(nat \<times> nat) option \<Rightarrow> nat \<Rightarrow> bool" where
  "better_span best vs = (case best of None \<Rightarrow> True | Some b \<Rightarrow> vs < fst b)"

definition consider_token :: "rstr \<Rightarrow> nat \<times> nat \<Rightarrow> (nat \<times> nat) option \<Rightarrow> (nat \<times> nat) option" where
  "consider_token s tok best =
     (case tok of (tstart, tend) \<Rightarrow>
        if \<not> is_secret_key (take (tend - tstart) (drop tstart s)) then best
        else (case value_span_after s tend of
                None \<Rightarrow> best
              | Some (vs, ve) \<Rightarrow> if ve > vs \<and> better_span best vs then Some (vs, ve) else best))"

definition next_secret_span :: "rstr \<Rightarrow> (nat \<times> nat) option" where
  "next_secret_span s =
     (let best = fold (consider_token s) (tokens s) None
      in case url_credential_span s of
           None \<Rightarrow> best
         | Some (vs, ve) \<Rightarrow> if better_span best vs then Some (vs, ve) else best)"

section \<open>Spans are non-empty and within the text\<close>

definition span_ok :: "rstr \<Rightarrow> nat \<times> nat \<Rightarrow> bool" where
  "span_ok s p \<longleftrightarrow> fst p < snd p \<and> snd p \<le> length s"

lemma skip_while_le: "i \<le> length s \<Longrightarrow> skip_while p s i \<le> length s"
  by (simp add: skip_while_def) (metis add.commute diff_add length_drop length_takeWhile_le nat_add_left_cancel_le)

lemma skip_while_ge [simp]: "i \<le> skip_while p s i"
  by (simp add: skip_while_def)

lemma scan_container_le: "fst (scan_container opn cls d q e i s) \<le> i + length s"
  by (induction opn cls d q e i s rule: scan_container.induct) auto

lemma non_empty_span_ok: "non_empty_span a b = Some p \<Longrightarrow> b \<le> length s \<Longrightarrow> span_ok s p \<and> fst p = a"
  by (auto simp: non_empty_span_def span_ok_def split: if_splits)

lemma value_at_ok:
  assumes "value_at s i = Some p"
  shows "span_ok s p \<and> i \<le> fst p"
proof (cases "get_byte s i")
  case None
  then have "drop i s = []" by (auto simp: get_byte_def split: if_splits)
  with None assms show ?thesis by (simp add: value_at_def non_empty_span_def skip_while_def)
next
  case (Some b)
  then have i: "i < length s" by (auto simp: get_byte_def split: if_splits)
  have scan: "fst (scan_container p1 p2 0 False False i (drop i s)) \<le> length s" for p1 p2
    using scan_container_le [of p1 p2 0 False False i "drop i s"] i by simp
  have skips: "skip_while q s i \<le> length s" "skip_while q s (i + 1) \<le> length s" for q
    using i by (simp_all add: skip_while_le)
  consider "b = CHR ''{'' \<or> b = CHR ''[''" | "b = DQ \<or> b = SQ"
    | "\<not> (b = CHR ''{'' \<or> b = CHR ''['')" "\<not> (b = DQ \<or> b = SQ)" by blast
  then show ?thesis
  proof cases
    case 1
    then obtain p2 where "value_at s i = non_empty_span i (fst (scan_container b p2 0 False False i (drop i s)))"
      using Some unfolding value_at_def by simp
    then show ?thesis using assms non_empty_span_ok [OF _ scan] by (metis order_refl)
  next
    case 2
    then have "value_at s i = non_empty_span (i + 1) (skip_while (\<lambda>c. c \<noteq> b) s (i + 1))"
      using Some unfolding value_at_def by auto
    then show ?thesis using assms non_empty_span_ok [OF _ skips(2)] by (metis le_add1)
  next
    case 3
    then have "value_at s i = non_empty_span i (skip_while (\<lambda>c. \<not> value_stop c) s i)"
      using Some unfolding value_at_def by simp
    then show ?thesis using assms non_empty_span_ok [OF _ skips(1)] by (metis order_refl)
  qed
qed

lemma value_span_after_ok: "value_span_after s k = Some p \<Longrightarrow> span_ok s p \<and> k \<le> fst p"
proof -
  assume v: "value_span_after s k = Some p"
  define j where "j = skip_while is_blank s (skip_while (\<lambda>b. b = DQ \<or> b = SQ) s k)"
  have kj: "k \<le> j" unfolding j_def by (meson order_trans skip_while_ge)
  from v have "value_at s (skip_while is_blank s (j + 1)) = Some p \<or> value_at s (skip_while is_blank s j) = Some p"
    unfolding value_span_after_def Let_def j_def [symmetric] by (auto split: if_splits)
  then show ?thesis
    using value_at_ok kj skip_while_ge [of "j + 1" is_blank s] skip_while_ge [of j is_blank s]
    by (meson le_trans le_add1)
qed

lemma url_credential_span_ok: "url_credential_span s = Some p \<Longrightarrow> span_ok s p"
  unfolding url_credential_span_def Let_def span_ok_def
  by (auto split: option.splits if_splits dest!: find_char_Some)

lemma fold_consider_ok:
  "pred_option (span_ok s) best \<Longrightarrow> pred_option (span_ok s) (fold (consider_token s) ts best)"
proof (induction ts arbitrary: best)
  case (Cons t ts)
  have "pred_option (span_ok s) (consider_token s t best)"
    using Cons.prems(1) unfolding consider_token_def
    by (auto split: prod.splits if_splits option.splits dest: value_span_after_ok)
  with Cons show ?case by simp
qed simp

lemma next_secret_span_ok: "next_secret_span s = Some p \<Longrightarrow> span_ok s p"
proof -
  assume "next_secret_span s = Some p"
  then have "url_credential_span s = Some p \<or> fold (consider_token s) (tokens s) None = Some p"
    unfolding next_secret_span_def Let_def by (auto split: option.splits prod.splits if_splits)
  moreover have "pred_option (span_ok s) (fold (consider_token s) (tokens s) None)"
    by (rule fold_consider_ok) simp
  ultimately show ?thesis using url_credential_span_ok [of s p] by (auto simp del: split_paired_All)
qed

section \<open>Redaction\<close>

function redact_line :: "rstr \<Rightarrow> rstr" where
  "redact_line rest =
     (if rest = [] then []
      else case next_secret_span rest of
             Some (start, stop) \<Rightarrow> take start rest @ MASK @ redact_line (drop stop rest)
           | None \<Rightarrow> rest)"
  by pat_completeness auto
termination
  by (relation "measure length") (auto dest!: next_secret_span_ok simp: span_ok_def)

declare redact_line.simps [simp del]

definition PEM_BEGIN :: rstr where "PEM_BEGIN = ''-----BEGIN''"
definition PEM_END :: rstr where "PEM_END = ''-----END''"

fun strip_lines :: "bool \<Rightarrow> rstr list \<Rightarrow> rstr" where
  "strip_lines in_block [] = []"
| "strip_lines in_block (line # ls) =
     (let trimmed = trim_start line in
      if starts_with trimmed PEM_BEGIN then line @ strip_lines True ls
      else if starts_with trimmed PEM_END then
        (if in_block then MASK @ [NL] else []) @ line @ strip_lines False ls
      else if \<not> in_block then line @ strip_lines in_block ls
      else strip_lines in_block ls)"

definition strip_pem_bodies :: "rstr \<Rightarrow> rstr" where
  "strip_pem_bodies s =
     (if \<not> contains s PEM_BEGIN then s else strip_lines False (split_inclusive NL s))"

definition redact :: "rstr \<Rightarrow> rstr" where
  "redact input = strip_pem_bodies (concat (map redact_line (split_inclusive NL input)))"

end
