(* ===== verification/Redact_Theorems.thy ===== *)
theory Redact_Theorems
  imports Redact
begin

text \<open>
  What the text redactor guarantees and what it misses: the masked span is always the leftmost
  recognised secret, secret assignments and PEM bodies never reach the output, and three shapes of
  credential that do.
\<close>

section \<open>The span that is masked is the leftmost secret\<close>

definition slice :: "rstr \<Rightarrow> nat \<times> nat \<Rightarrow> rstr" where
  "slice s p = take (snd p - fst p) (drop (fst p) s)"

text \<open>All secrets that the redactor recognises in a text: values of secret keys, and URL passwords.\<close>

definition key_spans :: "rstr \<Rightarrow> (nat \<times> nat) list \<Rightarrow> (nat \<times> nat) set" where
  "key_spans s ts = {p. \<exists>t \<in> set ts. is_secret_key (slice s t) \<and> value_span_after s (snd t) = Some p}"

definition secret_spans :: "rstr \<Rightarrow> (nat \<times> nat) set" where
  "secret_spans s = key_spans s (tokens s) \<union> {p. url_credential_span s = Some p}"

text \<open>A candidate is the leftmost element of a set of spans, or absent when the set is empty.\<close>

definition leftmost :: "(nat \<times> nat) set \<Rightarrow> (nat \<times> nat) option \<Rightarrow> bool" where
  "leftmost S best \<longleftrightarrow>
     (case best of None \<Rightarrow> S = {} | Some p \<Rightarrow> p \<in> S \<and> (\<forall>q \<in> S. fst p \<le> fst q))"

lemma leftmost_add:
  "leftmost S best \<Longrightarrow> leftmost (insert (vs, ve) S) (if better_span best vs then Some (vs, ve) else best)"
  by (fastforce simp: leftmost_def better_span_def split: option.splits if_splits)

lemma leftmost_consider:
  assumes "leftmost S best"
  shows "leftmost (S \<union> key_spans s [t]) (consider_token s t best)"
proof -
  obtain a b where t: "t = (a, b)" by (cases t)
  show ?thesis
  proof (cases "is_secret_key (slice s t)")
    case False
    then show ?thesis using assms by (simp add: t consider_token_def key_spans_def slice_def)
  next
    case secret: True
    show ?thesis
    proof (cases "value_span_after s b")
      case None
      then show ?thesis using assms secret by (simp add: t consider_token_def key_spans_def slice_def)
    next
      case (Some p)
      obtain vs ve where p: "p = (vs, ve)" by (cases p)
      have "ve > vs" using value_span_after_ok [OF Some] by (simp add: p span_ok_def)
      moreover have "S \<union> key_spans s [t] = insert (vs, ve) S"
        using secret Some by (auto simp: key_spans_def t p)
      ultimately show ?thesis
        using leftmost_add [OF assms, of vs ve] secret Some
        by (simp add: t p consider_token_def slice_def)
    qed
  qed
qed

lemma leftmost_fold:
  "leftmost S best \<Longrightarrow> leftmost (S \<union> key_spans s ts) (fold (consider_token s) ts best)"
proof (induction ts arbitrary: S best)
  case (Cons t ts)
  have "key_spans s (t # ts) = key_spans s [t] \<union> key_spans s ts" by (auto simp: key_spans_def)
  then show ?case using Cons.IH [OF leftmost_consider [OF Cons.prems]] by (simp add: Un_assoc)
qed (simp add: key_spans_def)

lemma next_secret_span_leftmost: "leftmost (secret_spans s) (next_secret_span s)"
proof -
  have l: "leftmost (key_spans s (tokens s)) (fold (consider_token s) (tokens s) None)"
    using leftmost_fold [of "{}" None s "tokens s"] by (simp add: leftmost_def)
  show ?thesis
  proof (cases "url_credential_span s")
    case None
    then show ?thesis using l by (simp add: next_secret_span_def secret_spans_def)
  next
    case (Some p)
    obtain vs ve where p: "p = (vs, ve)" by (cases p)
    have "secret_spans s = insert (vs, ve) (key_spans s (tokens s))"
      using Some p by (auto simp: secret_spans_def)
    then show ?thesis using leftmost_add [OF l, of vs ve] Some p by (simp add: next_secret_span_def Let_def)
  qed
qed

section \<open>A secret assignment at the start of a line\<close>

lemma tokens_from_ge: "t \<in> set (tokens_from i s) \<Longrightarrow> i \<le> fst t \<and> fst t < snd t"
  by (induction i s rule: tokens_from.induct) (auto simp: Let_def split: if_splits)

lemma takeWhile_app: "list_all p xs \<Longrightarrow> (ys = [] \<or> \<not> p (hd ys)) \<Longrightarrow> takeWhile p (xs @ ys) = xs"
  by (induction xs) (auto simp: takeWhile_eq_Nil_iff)

lemma tokens_from_run:
  assumes "k \<noteq> []" and "list_all is_token_char k" and "r = [] \<or> \<not> is_token_char (hd r)"
  shows "tokens_from i (k @ r) = (i, i + length k) # tokens_from (i + length k) r"
proof -
  obtain c k' where k: "k = c # k'" using assms(1) by (cases k) auto
  have "takeWhile is_token_char (k' @ r) = k'" using assms(2,3) k by (intro takeWhile_app) simp_all
  with k assms(2) show ?thesis by (simp add: Let_def)
qed

lemma skip_while_none: "(i \<ge> length s \<or> \<not> p (s ! i)) \<Longrightarrow> skip_while p s i = i"
  by (auto simp: skip_while_def takeWhile_eq_Nil_iff hd_drop_conv_nth)

lemma skip_while_run:
  assumes "list_all p v" and "t = [] \<or> \<not> p (hd t)"
  shows "skip_while p (u @ v @ t) (length u) = length u + length v"
  using takeWhile_app [OF assms] by (simp add: skip_while_def)

text \<open>The shape of a bare value: it starts with no quote or bracket, and ends where the text allows it to.\<close>

definition bare_value :: "rstr \<Rightarrow> rstr \<Rightarrow> bool" where
  "bare_value v t \<longleftrightarrow> v \<noteq> [] \<and> list_all (\<lambda>c. \<not> value_stop c) v \<and>
     hd v \<notin> {DQ, SQ, CHR ''{'', CHR ''[''} \<and> (t = [] \<or> value_stop (hd t))"

lemma value_span_assignment:
  assumes "bare_value v t"
  shows "value_span_after (k @ ''='' @ v @ t) (length k) = Some (length k + 1, length k + 1 + length v)"
proof -
  let ?s = "k @ ''='' @ v @ t"
  have at: "?s ! length k = CHR ''=''" "length k < length ?s" by (simp_all add: nth_append)
  have s1: "skip_while (\<lambda>b. b = DQ \<or> b = SQ) ?s (length k) = length k"
    "skip_while is_blank ?s (length k) = length k"
    using at by (auto intro!: skip_while_none simp: is_blank_def)
  have "hd v = ?s ! (length k + 1)" and v0: "v \<noteq> []"
    using assms by (cases v; simp add: bare_value_def nth_append)+
  moreover have "\<not> is_blank (hd v)" using assms v0 by (cases v) (auto simp: bare_value_def value_stop_def is_blank_def)
  ultimately have s2: "skip_while is_blank ?s (length k + 1) = length k + 1"
    by (intro skip_while_none) simp
  have gb: "get_byte ?s (length k) = Some (CHR ''='')" "get_byte ?s (length k + 1) = Some (hd v)"
    using at v0 \<open>hd v = _\<close> by (simp_all add: get_byte_def)
  have s3: "skip_while (\<lambda>c. \<not> value_stop c) ((k @ ''='') @ v @ t) (length (k @ ''='')) = length (k @ ''='') + length v"
    by (rule skip_while_run) (use assms in \<open>auto simp: bare_value_def\<close>)
  have "value_at ?s (length k + 1) = non_empty_span (length k + 1) (length k + 1 + length v)"
    using assms gb(2) s3 by (simp add: value_at_def bare_value_def)
  then show ?thesis
    using s1 s2 gb(1) v0 by (simp add: value_span_after_def Let_def non_empty_span_def)
qed

lemma url_span_after_assignment:
  assumes "list_all is_token_char k" and "url_credential_span (k @ ''='' @ r) = Some p"
  shows "length k + 1 < fst p"
proof -
  from assms(2) obtain scheme where f: "find_str ''://'' (k @ ''='' @ r) = Some scheme" and g: "scheme + 3 < fst p"
    unfolding url_credential_span_def Let_def by (auto split: option.splits if_splits)
  then have "prefix ''://'' (drop scheme (k @ ''='' @ r))" and le: "scheme + 3 \<le> length (k @ ''='' @ r)"
    using find_str_Some by fastforce+
  then have colon: "(k @ ''='' @ r) ! scheme = CHR '':''"
    by (cases "drop scheme (k @ ''='' @ r)") (auto simp: prefix_Cons nth_via_drop)
  have "\<not> scheme < length k"
  proof
    assume "scheme < length k"
    then have "CHR '':'' \<in> set k" using colon by (metis nth_append nth_mem)
    then have "is_token_char (CHR '':'')" using assms(1) by (simp add: list_all_iff)
    then show False by (simp add: is_token_char_def byte_simps)
  qed
  with g show ?thesis by linarith
qed

lemma tokens_after_key:
  assumes "k \<noteq> []" and "list_all is_token_char k"
  shows "tokens (k @ ''='' @ r) = (0, length k) # tokens_from (length k + 1) r"
proof -
  have eq: "\<not> is_token_char (CHR ''='')" by (simp add: is_token_char_def byte_simps)
  have "tokens_from 0 (k @ CHR ''='' # r) = (0, 0 + length k) # tokens_from (0 + length k) (CHR ''='' # r)"
    by (rule tokens_from_run) (use assms eq in simp_all)
  then show ?thesis using eq by (simp add: tokens_def)
qed

lemma key_spans_after:
  assumes "q \<in> key_spans s (tokens_from i r)"
  shows "i < fst q"
proof -
  obtain t where t: "t \<in> set (tokens_from i r)" "value_span_after s (snd t) = Some q"
    using assms by (auto simp: key_spans_def)
  from value_span_after_ok [OF t(2)] tokens_from_ge [OF t(1)] show ?thesis by linarith
qed

text \<open>The value of a leading secret assignment is the unique leftmost secret, so it is the one found.\<close>

lemma next_secret_span_assignment:
  assumes "k \<noteq> []" and "list_all is_token_char k" and "is_secret_key k" and "bare_value v t"
  shows "next_secret_span (k @ ''='' @ v @ t) = Some (length k + 1, length k + 1 + length v)"
proof -
  let ?s = "k @ ''='' @ v @ t" and ?p = "(length k + 1, length k + 1 + length v)"
  have split: "secret_spans ?s =
      insert ?p (key_spans ?s (tokens_from (length k + 1) (v @ t)) \<union> {p. url_credential_span ?s = Some p})"
    using value_span_assignment [OF assms(4), of k] assms(3)
    unfolding secret_spans_def tokens_after_key [OF assms(1,2)]
    by (auto simp: key_spans_def slice_def)
  have rest: "fst ?p < fst q" if "q \<in> secret_spans ?s" "q \<noteq> ?p" for q
    using that key_spans_after [of q ?s "length k + 1" "v @ t"] url_span_after_assignment [OF assms(2), of "v @ t" q]
    unfolding split by auto
  from next_secret_span_leftmost [of ?s] obtain p where p: "next_secret_span ?s = Some p" "p \<in> secret_spans ?s"
      "\<forall>q \<in> secret_spans ?s. fst p \<le> fst q"
    unfolding leftmost_def split by (auto split: option.splits)
  have "?p \<in> secret_spans ?s" unfolding split by simp
  with p(3) have "fst p \<le> fst ?p" by blast
  with rest [OF p(2)] have "p = ?p" by fastforce
  with p(1) show ?thesis by simp
qed

section \<open>Container values\<close>

text \<open>Started on its opening bracket, the scan never decrements a zero depth.\<close>

lemma scan_container_safe: "depth > 0 \<Longrightarrow> snd (scan_container opn cls depth q e i s)"
  by (induction opn cls depth q e i s rule: scan_container.induct) auto

lemma scan_container_start:
  "opn \<noteq> DQ \<Longrightarrow> s \<noteq> [] \<Longrightarrow> hd s = opn \<Longrightarrow> snd (scan_container opn cls 0 False False i s)"
  by (cases s) (auto intro: scan_container_safe)

section \<open>PEM blocks\<close>

definition pem_begin_line :: "rstr \<Rightarrow> bool" where
  "pem_begin_line l = starts_with (trim_start l) PEM_BEGIN"

definition pem_end_line :: "rstr \<Rightarrow> bool" where
  "pem_end_line l \<longleftrightarrow> starts_with (trim_start l) PEM_END \<and> \<not> pem_begin_line l"

lemma strip_lines_body:
  "list_all (\<lambda>l. \<not> pem_begin_line l \<and> \<not> pem_end_line l) body \<Longrightarrow> strip_lines True (body @ ls) = strip_lines True ls"
  by (induction body) (auto simp: pem_begin_line_def pem_end_line_def Let_def)

lemma strip_lines_plain:
  "list_all (\<lambda>l. \<not> pem_begin_line l \<and> \<not> pem_end_line l) pre \<Longrightarrow> strip_lines False (pre @ ls) = concat pre @ strip_lines False ls"
  by (induction pre) (auto simp: pem_begin_line_def pem_end_line_def Let_def)

section \<open>One round of the loop\<close>

lemma redact_line_step:
  "next_secret_span s = Some (a, b) \<Longrightarrow> redact_line s = take a s @ MASK @ redact_line (drop b s)"
  using next_secret_span_ok [of s "(a, b)"] by (auto simp: redact_line.simps [of s] span_ok_def)

lemma redact_line_clean: "next_secret_span s = None \<Longrightarrow> redact_line s = s"
  by (simp add: redact_line.simps [of s])

lemma redact_single:
  "split_inclusive NL s = [s] \<Longrightarrow> redact_line s = t \<Longrightarrow> strip_pem_bodies t = t \<Longrightarrow> redact s = t"
  by (simp add: redact_def)

lemma next_secret_span_no_key:
  assumes "list_all (\<lambda>t. \<not> is_secret_key (slice s t)) (tokens s)" and "url_credential_span s = None"
  shows "next_secret_span s = None"
proof -
  have "fold (consider_token s) ts None = None" if "list_all (\<lambda>t. \<not> is_secret_key (slice s t)) ts" for ts
    using that by (induction ts) (auto simp: consider_token_def slice_def)
  with assms show ?thesis by (simp add: next_secret_span_def)
qed

section \<open>Properties\<close>



text \<open>An assignment whose key is a secret key never reaches the output with its value: whatever the bare value is, the output is the key, the equals sign, the mask, and the redacted rest, so it is the same for all values.\<close>

theorem redact_assignment:
  assumes "k \<noteq> []" and "list_all is_token_char k" and "is_secret_key k" and "bare_value v t"
  shows "redact_line (k @ ''='' @ v @ t) = k @ ''='' @ MASK @ redact_line t"
  using next_secret_span_assignment [OF assms] assms(1) by (simp add: redact_line.simps [of "k @ CHR ''='' # v @ t"])

theorem redact_assignment_witness:
  "redact_line ''PGPASSWORD=hunter2 psql'' = ''PGPASSWORD='' @ MASK @ redact_line '' psql''"
proof -
  have "list_all is_token_char ''PGPASSWORD''" "is_secret_key ''PGPASSWORD''" "bare_value ''hunter2'' '' psql''"
    by code_simp+
  then show ?thesis using redact_assignment [of "''PGPASSWORD''" "''hunter2''" "'' psql''"] by simp
qed

text \<open>The body of a PEM block is replaced by a single masked line, whatever it holds: text before the block, the BEGIN and END lines and everything after them are kept, and the output does not depend on the body.\<close>

theorem strip_pem_masks_body:
  assumes "list_all (\<lambda>l. \<not> pem_begin_line l \<and> \<not> pem_end_line l) pre" and "pem_begin_line b"
    and "list_all (\<lambda>l. \<not> pem_begin_line l \<and> \<not> pem_end_line l) body" and "pem_end_line e"
  shows "strip_lines False (pre @ b # body @ e # rest) = concat pre @ b @ MASK @ [NL] @ e @ strip_lines False rest"
proof -
  have "strip_lines True (body @ e # rest) = MASK @ [NL] @ e @ strip_lines False rest"
    using strip_lines_body [OF assms(3)] assms(4) by (simp add: pem_end_line_def pem_begin_line_def Let_def)
  then show ?thesis
    using strip_lines_plain [OF assms(1)] assms(2) by (simp add: pem_begin_line_def Let_def)
qed

theorem strip_pem_masks_body_witness:
  "strip_lines False ([] @ ''-----BEGIN KEY'' # [''b3Blb'', ''AAAA''] @ ''  -----END KEY'' # []) =
     ''-----BEGIN KEY'' @ MASK @ [NL] @ ''  -----END KEY''"
proof -
  have "pem_begin_line ''-----BEGIN KEY''" "pem_end_line ''  -----END KEY''"
    "list_all (\<lambda>l. \<not> pem_begin_line l \<and> \<not> pem_end_line l) [''b3Blb'', ''AAAA'']"
    by code_simp+
  then show ?thesis
    using strip_pem_masks_body [of "[]" "''-----BEGIN KEY''" "[''b3Blb'', ''AAAA'']" "''  -----END KEY''" "[]"] by simp
qed

text \<open>Three shapes of credential pass through: the token of an HTTP bearer header (the word Bearer is taken for the value and masked instead), a password after the short flag -p, and a container value that spans lines, since each line is redacted on its own.\<close>

theorem redact_gaps:
  "redact ''Authorization: Bearer eyJhbGci'' = ''Authorization: '' @ MASK @ '' eyJhbGci'' \<and>
   redact ''mysql -p hunter2'' = ''mysql -p hunter2'' \<and>
   redact (''token: ['' @ [NL] @ ''ghp_x]'') = ''token: '' @ MASK @ ''ghp_x]''"
proof (intro conjI)
  let ?s = "''Authorization: Bearer eyJhbGci''" and ?t = "''Authorization: '' @ MASK @ '' eyJhbGci''"
  have facts: "tokens ?s = [(0, 13), (15, 21), (22, 30)]" "is_secret_key ''Authorization''" "is_secret_key ''Bearer''"
    "\<not> is_secret_key ''eyJhbGci''" "value_span_after ?s 13 = Some (15, 21)" "value_span_after ?s 21 = Some (22, 30)"
    "url_credential_span ?s = None"
    by code_simp+
  have "next_secret_span ?s = Some (15, 21)"
    using facts by (simp add: next_secret_span_def consider_token_def better_span_def)
  from redact_line_step [OF this] have "redact_line ?s = ''Authorization: '' @ MASK @ redact_line '' eyJhbGci''" by simp
  moreover have "tokens '' eyJhbGci'' = [(1, 9)]" "url_credential_span '' eyJhbGci'' = None" by code_simp+
  then have "redact_line '' eyJhbGci'' = '' eyJhbGci''"
    using facts(4) by (intro redact_line_clean next_secret_span_no_key) (simp_all add: slice_def)
  ultimately have line: "redact_line ?s = ?t" by (simp only:)
  show "redact ?s = ?t" by (rule redact_single [OF _ line]) code_simp+
next
  let ?s = "''mysql -p hunter2''"
  have "tokens ?s = [(0, 5), (6, 8), (9, 16)]" "\<not> is_secret_key ''mysql''" "\<not> is_secret_key ''-p''" "\<not> is_secret_key ''hunter2''"
    "url_credential_span ?s = None"
    by code_simp+
  then have line: "redact_line ?s = ?s"
    by (intro redact_line_clean next_secret_span_no_key) (simp_all add: slice_def)
  show "redact ''mysql -p hunter2'' = ''mysql -p hunter2''" by (rule redact_single [OF _ line]) code_simp+
next
  let ?s = "''token: ['' @ [NL]"
  have facts: "tokens ?s = [(0, 5)]" "is_secret_key ''token''" "value_span_after ?s 5 = Some (7, 9)" "url_credential_span ?s = None"
    by code_simp+
  have "next_secret_span ?s = Some (7, 9)"
    using facts by (simp add: next_secret_span_def consider_token_def better_span_def)
  from redact_line_step [OF this] have l1: "redact_line ?s = ''token: '' @ MASK" by (simp add: redact_line.simps [of "[]"])
  have l2: "redact_line ''ghp_x]'' = ''ghp_x]''"
    by (rule redact_line_clean, rule next_secret_span_no_key) code_simp+
  have "split_inclusive NL (''token: ['' @ [NL] @ ''ghp_x]'') = [?s, ''ghp_x]'']"
    "strip_pem_bodies (''token: '' @ MASK @ ''ghp_x]'') = ''token: '' @ MASK @ ''ghp_x]''"
    by code_simp+
  then show "redact (''token: ['' @ [NL] @ ''ghp_x]'') = ''token: '' @ MASK @ ''ghp_x]''"
    by (simp only: redact_def list.map concat.simps append_Nil2 append_assoc l1 l2)
qed

end
