(* ===== verification/Known_Hosts.thy ===== *)
theory Known_Hosts
  imports Core_Types "HOL-Library.Product_Lexorder"
begin

text \<open>
  The contract of a table with a primary key, and crates/kyvon-storage/src/hosts.rs, the trust store
  for host keys, which implements it. A database call may fail; what the driver reports is an argument
  of every repository operation.
\<close>

section \<open>Tables with a primary key\<close>

datatype ('k, 'v) table_op = Upsert 'v | Delete 'k

locale keyed_table =
  fixes inv :: "'s \<Rightarrow> bool"
    and get :: "'s \<Rightarrow> 'k \<Rightarrow> 'v option"
    and upsert :: "'v \<Rightarrow> 's \<Rightarrow> 's"
    and delete :: "'k \<Rightarrow> 's \<Rightarrow> 's"
    and key :: "'v \<Rightarrow> 'k"
  assumes inv_upsert: "inv s \<Longrightarrow> inv (upsert v s)"
    and inv_delete: "inv s \<Longrightarrow> inv (delete k s)"
    and get_upsert: "inv s \<Longrightarrow> get (upsert v s) k = (if k = key v then Some v else get s k)"
    and get_delete: "inv s \<Longrightarrow> get (delete j s) k = (if k = j then None else get s k)"
begin

primrec exec :: "('k, 'v) table_op \<Rightarrow> 's \<Rightarrow> 's" where
  "exec (Upsert v) s = upsert v s"
| "exec (Delete k) s = delete k s"

text \<open>What a history of writes leaves under a key: the last write to it, or what was there before.\<close>

primrec effect :: "('k, 'v) table_op \<Rightarrow> ('k \<Rightarrow> 'v option) \<Rightarrow> 'k \<Rightarrow> 'v option" where
  "effect (Upsert v) m = m(key v := Some v)"
| "effect (Delete k) m = m(k := None)"

lemma inv_run: "inv s \<Longrightarrow> inv (fold exec ops s)"
proof (induction ops arbitrary: s)
  case (Cons x ops)
  then show ?case by (cases x) (simp_all add: inv_upsert inv_delete)
qed simp

lemma refines_map: "inv s \<Longrightarrow> get (fold exec ops s) = fold effect ops (get s)"
proof (induction ops arbitrary: s)
  case (Cons x ops)
  have i: "inv (exec x s)" using Cons.prems inv_run [of s "[x]"] by simp
  have "get (exec x s) = effect x (get s)"
    using Cons.prems by (cases x) (auto simp: get_upsert get_delete fun_eq_iff)
  with Cons.IH [OF i] show ?case by simp
qed simp

end

section \<open>The trust store\<close>

datatype HostKeyStatus = Known | Unknown | Changed (previous_fingerprint: rstr)

type_synonym host_table = "KnownHost list"

definition kh_key :: "KnownHost \<Rightarrow> rstr \<times> u16" where
  "kh_key h = (kh_host h, kh_port h)"

text \<open>The rows of the table; the operations below are the SQL statements of the repository.\<close>

definition host_row :: "host_table \<Rightarrow> rstr \<times> u16 \<Rightarrow> KnownHost option" where
  "host_row t k = find (\<lambda>h. kh_key h = k) t"

definition upsert_host :: "KnownHost \<Rightarrow> host_table \<Rightarrow> host_table" where
  "upsert_host h t =
     (if list_ex (\<lambda>r. kh_key r = kh_key h) t then map (\<lambda>r. if kh_key r = kh_key h then h else r) t else t @ [h])"

definition delete_host :: "rstr \<times> u16 \<Rightarrow> host_table \<Rightarrow> host_table" where
  "delete_host k t = filter (\<lambda>h. kh_key h \<noteq> k) t"

text \<open>The failure a database call reports, if any.\<close>

type_synonym fault = "rstr option"

definition host_status :: "fault \<Rightarrow> rstr \<Rightarrow> u16 \<Rightarrow> rstr \<Rightarrow> host_table \<Rightarrow> HostKeyStatus result" where
  "host_status fault host port public_key t =
     (case fault of
        Some e \<Rightarrow> Inl (Storage e)
      | None \<Rightarrow>
          (case host_row t (host, port) of
             None \<Rightarrow> Inr Unknown
           | Some row \<Rightarrow>
               if trim (kh_public_key row) = trim public_key then Inr Known
               else Inr (Changed (kh_fingerprint row))))"

definition host_trust :: "fault \<Rightarrow> KnownHost \<Rightarrow> host_table \<Rightarrow> unit result \<times> host_table" where
  "host_trust fault h t = (case fault of Some e \<Rightarrow> (Inl (Storage e), t) | None \<Rightarrow> (Inr (), upsert_host h t))"

definition host_list :: "fault \<Rightarrow> host_table \<Rightarrow> KnownHost list result" where
  "host_list fault t =
     (case fault of Some e \<Rightarrow> Inl (Storage e)
      | None \<Rightarrow> Inr (sort_key (\<lambda>h. (kh_host h, unat (kh_port h))) t))"

definition host_forget :: "fault \<Rightarrow> rstr \<Rightarrow> u16 \<Rightarrow> host_table \<Rightarrow> unit result \<times> host_table" where
  "host_forget fault host port t =
     (case fault of Some e \<Rightarrow> (Inl (Storage e), t) | None \<Rightarrow> (Inr (), delete_host (host, port) t))"

section \<open>The trust store is a keyed table\<close>

definition hosts_wf :: "host_table \<Rightarrow> bool" where
  "hosts_wf t \<longleftrightarrow> distinct (map kh_key t)"

lemma host_row_Some: "hosts_wf t \<Longrightarrow> host_row t k = Some h \<longleftrightarrow> h \<in> set t \<and> kh_key h = k"
  unfolding hosts_wf_def host_row_def by (induction t) (auto simp: image_iff)

lemma upsert_keys:
  "map kh_key (upsert_host h t) = (if kh_key h \<in> kh_key ` set t then map kh_key t else map kh_key t @ [kh_key h])"
  by (auto simp: upsert_host_def list_ex_iff image_iff) metis

lemma hosts_wf_upsert: "hosts_wf t \<Longrightarrow> hosts_wf (upsert_host h t)"
  by (simp add: hosts_wf_def upsert_keys)

lemma hosts_wf_delete: "hosts_wf t \<Longrightarrow> hosts_wf (delete_host k t)"
  by (simp add: hosts_wf_def delete_host_def distinct_map_filter)

lemma host_row_upsert: "hosts_wf t \<Longrightarrow> host_row (upsert_host h t) k = (if k = kh_key h then Some h else host_row t k)"
proof -
  assume "hosts_wf t"
  have hit: "find (\<lambda>r. kh_key r = k) (map (\<lambda>r. if kh_key r = kh_key h then h else r) t) =
      (if k = kh_key h then Some h else find (\<lambda>r. kh_key r = k) t)" if "k = kh_key h \<longrightarrow> (\<exists>r \<in> set t. kh_key r = kh_key h)"
    using that by (induction t) fastforce+
  have miss: "find (\<lambda>r. kh_key r = k) (t @ [h]) = (if k = kh_key h then Some h else find (\<lambda>r. kh_key r = k) t)"
    if "\<forall>r \<in> set t. kh_key r \<noteq> kh_key h"
    using that by (induction t) auto
  show ?thesis
  proof (cases "\<exists>r \<in> set t. kh_key r = kh_key h")
    case True
    then show ?thesis using hit by (simp add: host_row_def upsert_host_def list_ex_iff)
  next
    case False
    then show ?thesis using miss by (simp add: host_row_def upsert_host_def list_ex_iff)
  qed
qed

lemma host_row_delete: "host_row (delete_host j t) k = (if k = j then None else host_row t k)"
  unfolding host_row_def delete_host_def by (induction t) auto

interpretation hosts: keyed_table hosts_wf host_row upsert_host delete_host kh_key
  by unfold_locales (simp_all add: hosts_wf_upsert hosts_wf_delete host_row_upsert host_row_delete)

text \<open>Histories of the repository, and the map they leave.\<close>

primrec host_exec :: "(rstr \<times> u16, KnownHost) table_op \<Rightarrow> host_table \<Rightarrow> host_table" where
  "host_exec (Upsert h) t = snd (host_trust None h t)"
| "host_exec (Delete k) t = snd (host_forget None (fst k) (snd k) t)"

primrec host_effect ::
  "(rstr \<times> u16, KnownHost) table_op \<Rightarrow> (rstr \<times> u16 \<Rightarrow> KnownHost option) \<Rightarrow> rstr \<times> u16 \<Rightarrow> KnownHost option" where
  "host_effect (Upsert h) m = m((kh_host h, kh_port h) := Some h)"
| "host_effect (Delete k) m = m(k := None)"

lemma host_exec_table: "host_exec x = hosts.exec x" "host_effect x = hosts.effect x"
  by (cases x; simp add: fun_eq_iff host_trust_def host_forget_def kh_key_def)+

section \<open>Properties\<close>

text \<open>C22. The trust store refines a map from host and port to keys: after any sequence of trust and forget operations the row of an endpoint is the last key trusted for it, or none when it was forgotten since; and a presented key is Known exactly when it equals, up to surrounding white space, the full key last trusted, Changed with the trusted fingerprint when another key was.\<close>

theorem trust_store_last_write:
  assumes "hosts_wf t"
  shows "host_row (fold host_exec ops t) = fold host_effect ops (host_row t) \<and>
    host_status None host port key (fold host_exec ops t) =
      Inr (case fold host_effect ops (host_row t) (host, port) of
             None \<Rightarrow> Unknown
           | Some h \<Rightarrow> if trim (kh_public_key h) = trim key then Known else Changed (kh_fingerprint h))"
  using hosts.refines_map [OF assms, of ops] unfolding host_exec_table by (simp add: host_status_def split: option.splits)

definition sample_host :: "rstr \<Rightarrow> KnownHost" where
  "sample_host k = \<lparr>kh_host = ''db'', kh_port = 22, kh_key_type = ''ssh-ed25519'', kh_fingerprint = ''SHA256:'' @ k,
     kh_public_key = k, kh_trusted_at = 1\<rparr>"

theorem trust_store_last_write_witness:
  "host_status None ''db'' 22 ''K1'' (fold host_exec [Upsert (sample_host ''K1''), Upsert (sample_host ''K2'')] []) =
     Inr (Changed ''SHA256:K2'')"
proof -
  have "trim ''K2'' \<noteq> trim ''K1''" by code_simp
  then show ?thesis
    using trust_store_last_write [of "[]" "[Upsert (sample_host ''K1''), Upsert (sample_host ''K2'')]" "''db''" 22 "''K1''"]
    by (simp add: hosts_wf_def host_row_def sample_host_def kh_key_def)
qed

end
