(* ===== verification/Single_Use.thy ===== *)
theory Single_Use
  imports Prelude
begin

text \<open>
  The contract shared by the token authority and the approval gate: entries are put under a key,
  taken out at most once, and swept when they expire. A history of operations is a list; the client
  lemma says that a key taken out is of no use to any later take, however the operations interleave,
  until an entry is put under it again.
\<close>

datatype ('q, 'v) store_op = Put rstr 'v | Take 'q rstr | Sweep 'q

primrec puts_key :: "rstr \<Rightarrow> ('q, 'v) store_op \<Rightarrow> bool" where
  "puts_key k (Put j v) = (j = k)"
| "puts_key k (Take q j) = False"
| "puts_key k (Sweep q) = False"

locale single_use =
  fixes inv :: "'s \<Rightarrow> bool"
    and get :: "'s \<Rightarrow> rstr \<Rightarrow> 'v option"
    and put :: "rstr \<Rightarrow> 'v \<Rightarrow> 's \<Rightarrow> 's"
    and take_out :: "'q \<Rightarrow> rstr \<Rightarrow> 's \<Rightarrow> 'r \<times> 's"
    and sweep :: "'q \<Rightarrow> 's \<Rightarrow> 's"
    and ok :: "'r \<Rightarrow> bool"
  assumes inv_put: "inv s \<Longrightarrow> inv (put k v s)"
    and inv_take: "inv s \<Longrightarrow> inv (snd (take_out q k s))"
    and inv_sweep: "inv s \<Longrightarrow> inv (sweep q s)"
    and get_put: "inv s \<Longrightarrow> get (put j v s) k = (if j = k then Some v else get s k)"
    and take_removes: "inv s \<Longrightarrow> get (snd (take_out q k s)) k = None"
    and take_shrinks: "inv s \<Longrightarrow> get s k = None \<Longrightarrow> get (snd (take_out q j s)) k = None"
    and sweep_shrinks: "inv s \<Longrightarrow> get s k = None \<Longrightarrow> get (sweep q s) k = None"
    and take_absent: "inv s \<Longrightarrow> get s k = None \<Longrightarrow> \<not> ok (fst (take_out q k s))"
begin

primrec exec :: "('q, 'v) store_op \<Rightarrow> 's \<Rightarrow> 's" where
  "exec (Put k v) s = put k v s"
| "exec (Take q k) s = snd (take_out q k s)"
| "exec (Sweep q) s = sweep q s"

lemma inv_exec: "inv s \<Longrightarrow> inv (exec x s)"
  by (cases x) (simp_all add: inv_put inv_take inv_sweep)

lemma inv_run: "inv s \<Longrightarrow> inv (fold exec ops s)"
  by (induction ops arbitrary: s) (simp_all add: inv_exec)

lemma exec_absent: "inv s \<Longrightarrow> get s k = None \<Longrightarrow> \<not> puts_key k x \<Longrightarrow> get (exec x s) k = None"
  by (cases x) (simp_all add: get_put take_shrinks sweep_shrinks)

lemma run_absent:
  "inv s \<Longrightarrow> get s k = None \<Longrightarrow> list_all (\<lambda>x. \<not> puts_key k x) ops \<Longrightarrow> get (fold exec ops s) k = None"
  by (induction ops arbitrary: s) (simp_all add: inv_exec exec_absent)

lemma used_once:
  assumes "inv s" and "list_all (\<lambda>x. \<not> puts_key k x) ops"
  shows "\<not> ok (fst (take_out q' k (fold exec ops (snd (take_out q k s)))))"
  using assms by (intro take_absent inv_run run_absent inv_take take_removes)

end

end
