(* ===== verification/Host_Key.thy ===== *)
theory Host_Key
  imports Known_Hosts Single_Use
begin

text \<open>
  The trust decision about a presented host key: crates/kyvon-ssh/src/hostkey.rs and the desktop's
  verifier in apps/desktop/src-tauri/src/hostkey.rs. The operator's answers that arrive before the
  prompt times out are a list of calls of \<open>resolve\<close>; whether the window could be reached, the random
  part of the prompt id, the clock and the database failures are arguments.
\<close>

section \<open>Prompts\<close>

record PresentedKey =
  pk_key_type :: rstr
  pk_fingerprint :: rstr
  pk_openssh :: rstr

datatype Verdict = Trust | Reject

text \<open>
  The senders held for unanswered prompts, and the receiving end of each channel that is still
  awaited: empty, or holding the delivered answer.
\<close>

record PendingPrompts =
  waiting :: "unit hmap"
  inbox :: "bool option hmap"

definition prompts_default :: PendingPrompts where
  "prompts_default = \<lparr>waiting = [], inbox = []\<rparr>"

definition register :: "rstr \<Rightarrow> PendingPrompts \<Rightarrow> PendingPrompts" where
  "register prompt_id p = p\<lparr>waiting := hm_insert prompt_id () (waiting p), inbox := hm_insert prompt_id None (inbox p)\<rparr>"

definition resolve :: "rstr \<Rightarrow> bool \<Rightarrow> PendingPrompts \<Rightarrow> bool \<times> PendingPrompts" where
  "resolve prompt_id trust p =
     (case hm_get (waiting p) prompt_id of
        None \<Rightarrow> (False, p)
      | Some _ \<Rightarrow>
          (let p' = p\<lparr>waiting := hm_remove prompt_id (waiting p)\<rparr> in
           if hm_get (inbox p) prompt_id = Some None
           then (True, p'\<lparr>inbox := hm_insert prompt_id (Some trust) (inbox p)\<rparr>)
           else (False, p')))"

definition forget :: "rstr \<Rightarrow> PendingPrompts \<Rightarrow> PendingPrompts" where
  "forget prompt_id p = p\<lparr>waiting := hm_remove prompt_id (waiting p)\<rparr>"

definition drop_receiver :: "rstr \<Rightarrow> PendingPrompts \<Rightarrow> PendingPrompts" where
  "drop_receiver prompt_id p = p\<lparr>inbox := hm_remove prompt_id (inbox p)\<rparr>"

text \<open>The answers given to any prompts while this one waits.\<close>

definition deliver :: "(rstr \<times> bool) list \<Rightarrow> PendingPrompts \<Rightarrow> PendingPrompts" where
  "deliver answers p = fold (\<lambda>(i, b) q. snd (resolve i b q)) answers p"

definition ask :: "bool \<Rightarrow> rstr \<Rightarrow> (rstr \<times> bool) list \<Rightarrow> PendingPrompts \<Rightarrow> Verdict \<times> PendingPrompts" where
  "ask emit_ok uuid answers p0 =
     (let prompt_id = ''hk_'' @ uuid; p = register prompt_id p0 in
      if \<not> emit_ok then (Reject, drop_receiver prompt_id (forget prompt_id p))
      else
        (let q = deliver answers p in
         if hm_get (inbox q) prompt_id = Some (Some True) then (Trust, drop_receiver prompt_id q)
         else (Reject, drop_receiver prompt_id (forget prompt_id q))))"

section \<open>The verifier\<close>

record Verify_Env =
  ve_read_fault :: fault
  ve_write_fault :: fault
  ve_emit_ok :: bool
  ve_uuid :: rstr
  ve_answers :: "(rstr \<times> bool) list"
  ve_now :: TimestampMs
  ve_show_error :: "KyvonError \<Rightarrow> rstr"

record Verify_Result =
  vr_verdict :: Verdict
  vr_hosts :: host_table
  vr_prompts :: PendingPrompts
  vr_prompted :: "HostKeyPrompt option"
  vr_states :: "(ConnectionState \<times> rstr option) list"

definition prompt_for ::
  "rstr \<Rightarrow> rstr \<Rightarrow> u16 \<Rightarrow> PresentedKey \<Rightarrow> rstr option \<Rightarrow> HostKeyPrompt" where
  "prompt_for server_id host port key prev =
     \<lparr>hkp_server_id = server_id, hkp_host = host, hkp_port = port, hkp_key_type = pk_key_type key,
      hkp_fingerprint = pk_fingerprint key, hkp_public_key = pk_openssh key, hkp_previous_fingerprint = prev\<rparr>"

definition record_for :: "rstr \<Rightarrow> u16 \<Rightarrow> PresentedKey \<Rightarrow> TimestampMs \<Rightarrow> KnownHost" where
  "record_for host port key now =
     \<lparr>kh_host = host, kh_port = port, kh_key_type = pk_key_type key, kh_fingerprint = pk_fingerprint key,
      kh_public_key = pk_openssh key, kh_trusted_at = now\<rparr>"

definition verify_unknown ::
  "Verify_Env \<Rightarrow> rstr \<Rightarrow> rstr \<Rightarrow> u16 \<Rightarrow> PresentedKey \<Rightarrow> rstr option \<Rightarrow> host_table \<Rightarrow> PendingPrompts \<Rightarrow> Verify_Result" where
  "verify_unknown env server_id host port key prev t p =
     (case ask (ve_emit_ok env) (ve_uuid env) (ve_answers env) p of
        (Reject, p') \<Rightarrow>
          \<lparr>vr_verdict = Reject, vr_hosts = t, vr_prompts = p', vr_prompted = Some (prompt_for server_id host port key prev),
           vr_states = [(VerifyingHost, None)]\<rparr>
      | (Trust, p') \<Rightarrow>
          (case host_trust (ve_write_fault env) (record_for host port key (ve_now env)) t of (saved, t') \<Rightarrow>
            \<lparr>vr_verdict = Trust, vr_hosts = t', vr_prompts = p', vr_prompted = Some (prompt_for server_id host port key prev),
             vr_states = [(VerifyingHost, None)] @
               (case saved of
                  Inl e \<Rightarrow> [(VerifyingHost, Some (''host key trusted but not saved: '' @ ve_show_error env e))]
                | Inr _ \<Rightarrow> []) @
               [(Authenticating, None)]\<rparr>))"

definition verify ::
  "Verify_Env \<Rightarrow> rstr \<Rightarrow> rstr \<Rightarrow> u16 \<Rightarrow> PresentedKey \<Rightarrow> host_table \<Rightarrow> PendingPrompts \<Rightarrow> Verify_Result" where
  "verify env server_id host port key t p =
     (case host_status (ve_read_fault env) host port (pk_openssh key) t of
        Inl e \<Rightarrow>
          \<lparr>vr_verdict = Reject, vr_hosts = t, vr_prompts = p, vr_prompted = None,
           vr_states = [(VerifyingHost, None), (StError, Some (''could not read known hosts: '' @ ve_show_error env e))]\<rparr>
      | Inr Known \<Rightarrow>
          \<lparr>vr_verdict = Trust, vr_hosts = t, vr_prompts = p, vr_prompted = None,
           vr_states = [(VerifyingHost, None), (Authenticating, None)]\<rparr>
      | Inr Unknown \<Rightarrow> verify_unknown env server_id host port key None t p
      | Inr (Changed prev) \<Rightarrow> verify_unknown env server_id host port key (Some prev) t p)"

text \<open>The callback of the SSH library: an unreadable key is refused without asking.\<close>

definition check_server_key :: "PresentedKey result \<Rightarrow> (PresentedKey \<Rightarrow> Verdict) \<Rightarrow> bool" where
  "check_server_key presented verifier =
     (case presented of Inl e \<Rightarrow> False | Inr k \<Rightarrow> (case verifier k of Trust \<Rightarrow> True | Reject \<Rightarrow> False))"

section \<open>Prompts are a single-use store\<close>

definition prompts_wf :: "PendingPrompts \<Rightarrow> bool" where
  "prompts_wf p \<longleftrightarrow> hm_wf (waiting p)"

lemmas prompt_defs = prompts_wf_def register_def resolve_def forget_def drop_receiver_def

lemma resolve_waiting: "hm_get (waiting (snd (resolve i b p))) k = (if i = k then None else hm_get (waiting p) k)"
  by (auto simp: prompt_defs Let_def split: option.splits)

lemma prompt_resolve_wf: "prompts_wf p \<Longrightarrow> prompts_wf (snd (resolve i b p))"
  by (auto simp: prompt_defs Let_def split: option.splits)

interpretation prompts: single_use prompts_wf "\<lambda>p. hm_get (waiting p)" "\<lambda>k v. register k"
  "\<lambda>q k. resolve k (snd q)" "\<lambda>q. forget (fst q)" "\<lambda>r. r"
  by unfold_locales (simp_all add: resolve_waiting prompt_resolve_wf, simp_all add: prompt_defs)

section \<open>What an answer does to the awaited channel\<close>

text \<open>The first answer to a prompt, if any.\<close>

definition first_answer :: "rstr \<Rightarrow> (rstr \<times> bool) list \<Rightarrow> bool option" where
  "first_answer i answers = map_of answers i"

lemma resolve_other:
  "j \<noteq> i \<Longrightarrow> hm_get (inbox (snd (resolve j b p))) i = hm_get (inbox p) i"
  by (auto simp: resolve_def Let_def split: option.splits)

lemma deliver_answered:
  "hm_get (waiting p) i = None \<Longrightarrow> hm_get (inbox (deliver answers p)) i = hm_get (inbox p) i"
proof (induction answers arbitrary: p)
  case Nil
  then show ?case by (simp add: deliver_def)
next
  case (Cons a answers)
  obtain j b where a: "a = (j, b)" by (cases a)
  have "hm_get (waiting (snd (resolve j b p))) i = None" using Cons.prems by (simp add: resolve_waiting)
  moreover have "hm_get (inbox (snd (resolve j b p))) i = hm_get (inbox p) i"
    using Cons.prems resolve_other [of j i b p] by (cases "j = i") (auto simp: resolve_def)
  ultimately show ?case using Cons.IH [of "snd (resolve j b p)"] by (simp add: a deliver_def)
qed

lemma deliver_open:
  "hm_get (waiting p) i = Some () \<Longrightarrow> hm_get (inbox p) i = Some None \<Longrightarrow>
     hm_get (inbox (deliver answers p)) i = Some (first_answer i answers)"
proof (induction answers arbitrary: p)
  case Nil
  then show ?case by (simp add: deliver_def first_answer_def)
next
  case (Cons a answers)
  obtain j b where a: "a = (j, b)" by (cases a)
  show ?case
  proof (cases "j = i")
    case True
    have "hm_get (inbox (snd (resolve i b p))) i = Some (Some b)" "hm_get (waiting (snd (resolve i b p))) i = None"
      using Cons.prems by (simp_all add: resolve_def Let_def)
    then show ?thesis
      using deliver_answered [of "snd (resolve i b p)" i answers] True by (simp add: a deliver_def first_answer_def)
  next
    case False
    then show ?thesis
      using Cons.IH [of "snd (resolve j b p)"] Cons.prems resolve_other [OF False, of b p]
      by (simp add: a deliver_def first_answer_def resolve_waiting)
  qed
qed

lemma ask_trust_iff:
  "fst (ask emit_ok uuid answers p) = Trust \<longleftrightarrow> emit_ok \<and> first_answer (''hk_'' @ uuid) answers = Some True"
proof -
  have "hm_get (waiting (register (''hk_'' @ uuid) p)) (''hk_'' @ uuid) = Some ()"
    "hm_get (inbox (register (''hk_'' @ uuid) p)) (''hk_'' @ uuid) = Some None" by (simp_all add: register_def)
  from deliver_open [OF this, of answers] show ?thesis by (simp add: ask_def Let_def)
qed

section \<open>The verdict and the emitted states\<close>

lemma verify_verdict:
  "vr_verdict (verify env server_id host port key t p) = Trust \<longleftrightarrow>
     ve_read_fault env = None \<and>
     ((\<exists>h. host_row t (host, port) = Some h \<and> trim (kh_public_key h) = trim (pk_openssh key)) \<or>
      (ve_emit_ok env \<and> first_answer (''hk_'' @ ve_uuid env) (ve_answers env) = Some True))"
proof -
  have u: "vr_verdict (verify_unknown env server_id host port key prev t p) = Trust \<longleftrightarrow>
      ve_emit_ok env \<and> first_answer (''hk_'' @ ve_uuid env) (ve_answers env) = Some True" for prev
    using ask_trust_iff [of "ve_emit_ok env" "ve_uuid env" "ve_answers env" p]
    by (auto simp: verify_unknown_def split: prod.splits Verdict.splits)
  show ?thesis
    by (auto simp: verify_def host_status_def u split: option.splits)
qed

text \<open>A sequence of states follows the transitions of the connection state machine.\<close>

fun legal_path :: "ConnectionState \<Rightarrow> ConnectionState list \<Rightarrow> bool" where
  "legal_path s [] = True"
| "legal_path s (x # xs) = (can_transition_to s x \<and> legal_path x xs)"

section \<open>Properties\<close>

text \<open>C3. A host key is trusted exactly when the store could be read and either holds that very key for the endpoint, or the operator was reached and the first answer to this prompt, given in time, was to trust. An unreadable store, a window that cannot be reached, silence, a refusal and an answer to another prompt all reject.\<close>

theorem verify_trust_iff:
  "vr_verdict (verify env server_id host port key t p) = Trust \<longleftrightarrow>
     ve_read_fault env = None \<and>
     ((\<exists>h. host_row t (host, port) = Some h \<and> trim (kh_public_key h) = trim (pk_openssh key)) \<or>
      (ve_emit_ok env \<and> first_answer (''hk_'' @ ve_uuid env) (ve_answers env) = Some True))"
  by (rule verify_verdict)

text \<open>Trust is remembered only when the operator granted it, and a changed key is reported as changed: a rejection leaves the store as it was; an accepted new key is the row of its endpoint afterwards unless the write failed, and no other endpoint is touched; and the operator is asked about a key different from the stored one with the fingerprint trusted before.\<close>

theorem verify_effect:
  assumes "hosts_wf t"
  shows "(vr_verdict (verify env server_id host port key t p) = Reject \<longrightarrow>
            vr_hosts (verify env server_id host port key t p) = t) \<and>
    (vr_verdict (verify env server_id host port key t p) = Trust \<and> ve_write_fault env = None \<longrightarrow>
       host_status None host port (pk_openssh key) (vr_hosts (verify env server_id host port key t p)) = Inr Known) \<and>
    ((h', p') \<noteq> (host, port) \<longrightarrow>
       host_row (vr_hosts (verify env server_id host port key t p)) (h', p') = host_row t (h', p')) \<and>
    (\<forall>q h. vr_prompted (verify env server_id host port key t p) = Some q \<and> host_row t (host, port) = Some h \<longrightarrow>
       is_change q \<and> hkp_previous_fingerprint q = Some (kh_fingerprint h))"
proof -
  have row: "host_row (snd (host_trust None (record_for host port key now) t)) (x, y) =
      (if (x, y) = (host, port) then Some (record_for host port key now) else host_row t (x, y))" for now x y
    using host_row_upsert [OF assms] by (simp add: host_trust_def record_for_def kh_key_def)
  have keep: "host_trust (Some e) r t = (Inl (Storage e), t)" for e r by (simp add: host_trust_def)
  obtain vd pp where ask: "ask (ve_emit_ok env) (ve_uuid env) (ve_answers env) p = (vd, pp)" by fastforce
  have u: "vr_hosts (verify_unknown env server_id host port key prev t p) =
      (if vd = Trust then snd (host_trust (ve_write_fault env) (record_for host port key (ve_now env)) t) else t)"
    "vr_verdict (verify_unknown env server_id host port key prev t p) = vd"
    "vr_prompted (verify_unknown env server_id host port key prev t p) = Some (prompt_for server_id host port key prev)" for prev
    by (cases vd; simp add: verify_unknown_def ask split: prod.splits)+
  show ?thesis
    using row [of "ve_now env"]
    by (cases "ve_write_fault env"; cases "ve_read_fault env"; cases "host_row t (host, port)"; cases vd)
       (auto simp: verify_def host_status_def u keep record_for_def prompt_for_def is_change_def)
qed

definition sample_key :: PresentedKey where
  "sample_key = \<lparr>pk_key_type = ''ssh-ed25519'', pk_fingerprint = ''SHA256:x'', pk_openssh = ''K2''\<rparr>"

definition sample_env :: "(rstr \<times> bool) list \<Rightarrow> Verify_Env" where
  "sample_env answers = \<lparr>ve_read_fault = None, ve_write_fault = None, ve_emit_ok = True, ve_uuid = ''1'',
     ve_answers = answers, ve_now = 7, ve_show_error = (\<lambda>e. ''error'')\<rparr>"

theorem verify_effect_witness:
  "host_status None ''db'' 22 ''K2'' (vr_hosts (verify (sample_env [(''hk_1'', True)]) ''s'' ''db'' 22 sample_key [sample_host ''K1''] prompts_default)) = Inr Known"
proof -
  have wf: "hosts_wf [sample_host ''K1'']" by (simp add: hosts_wf_def)
  have "vr_verdict (verify (sample_env [(''hk_1'', True)]) ''s'' ''db'' 22 sample_key [sample_host ''K1''] prompts_default) = Trust"
    unfolding verify_verdict by (simp add: sample_env_def first_answer_def)
  then show ?thesis
    using verify_effect [OF wf, of "sample_env [(''hk_1'', True)]" "''s''" "''db''" 22 sample_key prompts_default]
    by (simp add: sample_env_def sample_key_def)
qed

text \<open>The states reported during the verification are a legal path of the connection state machine from Connecting, and they end in Authenticating exactly when the key is trusted; Connected is never reported.\<close>

theorem verify_states_legal:
  "legal_path Connecting (map fst (vr_states (verify env server_id host port key t p))) \<and>
   (last (map fst (vr_states (verify env server_id host port key t p))) = Authenticating \<longleftrightarrow>
      vr_verdict (verify env server_id host port key t p) = Trust) \<and>
   Connected \<notin> set (map fst (vr_states (verify env server_id host port key t p)))"
proof -
  have u: "legal_path Connecting (map fst (vr_states (verify_unknown env server_id host port key prev t p))) \<and>
     (last (map fst (vr_states (verify_unknown env server_id host port key prev t p))) = Authenticating \<longleftrightarrow>
      vr_verdict (verify_unknown env server_id host port key prev t p) = Trust) \<and>
     Connected \<notin> set (map fst (vr_states (verify_unknown env server_id host port key prev t p)))" for prev
    by (auto simp: verify_unknown_def can_transition_to_def split: prod.splits Verdict.splits sum.splits)
  consider e where "host_status (ve_read_fault env) host port (pk_openssh key) t = Inl e"
    | "host_status (ve_read_fault env) host port (pk_openssh key) t = Inr Known"
    | prev where "verify env server_id host port key t p = verify_unknown env server_id host port key prev t p"
  proof (cases "host_status (ve_read_fault env) host port (pk_openssh key) t")
    case (Inr st)
    then show ?thesis using that(2,3) by (cases st) (auto simp: verify_def)
  qed (use that(1) in blast)
  then show ?thesis
    by cases (simp add: verify_def can_transition_to_def, simp add: verify_def can_transition_to_def, use u in metis)
qed

end
