(* ===== verification/Json.thy ===== *)
theory Json
  imports Redact
begin

text \<open>
  JSON documents, with the constructors of \<open>serde_json::Value\<close> that the sources match on, and the
  structural redactor of crates/kyvon-policy/src/redactor.rs. An object is a map ordered by key (no
  duplicates); a number is an integer or the bit pattern of a floating point number.
\<close>

section \<open>Documents\<close>

datatype Json =
    JNull
  | JBool bool
  | JInt int
  | JFloat "64 word"
  | JString rstr
  | JArray "Json list"
  | JObject "(rstr \<times> Json) list"

abbreviation json_obj :: "(rstr \<times> Json) list \<Rightarrow> Json" where
  "json_obj kvs \<equiv> JObject (bt_of_list kvs)"

text \<open>The accessors \<open>get\<close>, indexing by a key, and the \<open>as_\<close> and \<open>is_\<close> family.\<close>

definition json_get :: "rstr \<Rightarrow> Json \<Rightarrow> Json option" where
  "json_get k v = (case v of JObject m \<Rightarrow> map_of m k | _ \<Rightarrow> None)"

definition json_index :: "Json \<Rightarrow> rstr \<Rightarrow> Json" where
  "json_index v k = (case json_get k v of Some x \<Rightarrow> x | None \<Rightarrow> JNull)"

definition as_object :: "Json \<Rightarrow> (rstr \<times> Json) list option" where
  "as_object v = (case v of JObject m \<Rightarrow> Some m | _ \<Rightarrow> None)"

definition as_array :: "Json \<Rightarrow> Json list option" where
  "as_array v = (case v of JArray xs \<Rightarrow> Some xs | _ \<Rightarrow> None)"

definition as_str :: "Json \<Rightarrow> rstr option" where
  "as_str v = (case v of JString s \<Rightarrow> Some s | _ \<Rightarrow> None)"

definition as_i64 :: "Json \<Rightarrow> int option" where
  "as_i64 v = (case v of JInt n \<Rightarrow> if in_i64 n then Some n else None | _ \<Rightarrow> None)"

definition is_object :: "Json \<Rightarrow> bool" where
  "is_object v \<longleftrightarrow> as_object v \<noteq> None"

definition is_string :: "Json \<Rightarrow> bool" where
  "is_string v \<longleftrightarrow> as_str v \<noteq> None"

definition is_number :: "Json \<Rightarrow> bool" where
  "is_number v = (case v of JInt _ \<Rightarrow> True | JFloat _ \<Rightarrow> True | _ \<Rightarrow> False)"

lemmas json_access_defs = json_get_def json_index_def as_object_def as_array_def as_str_def as_i64_def
  is_object_def is_string_def is_number_def

text \<open>Every object of a document has its keys in order and without repetition.\<close>

fun json_wf :: "Json \<Rightarrow> bool" where
  "json_wf (JArray xs) = list_all json_wf xs"
| "json_wf (JObject m) = (bt_wf m \<and> list_all (\<lambda>kv. json_wf (snd kv)) m)"
| "json_wf _ = True"

section \<open>The structural redactor\<close>

definition REDACTED_PLACEHOLDER :: rstr where
  "REDACTED_PLACEHOLDER = ''[REDACTED_SECRET]''"

definition sanitize_text :: "rstr \<Rightarrow> rstr" where
  "sanitize_text input =
     (let out = redact input
      in if contains out ''BEGIN '' \<and> contains out ''PRIVATE KEY'' then ''[REDACTED_SSH_KEY]'' else out)"

text \<open>
  Unicode lower-casing as far as an ASCII pattern can see it: the letters A to Z, and the two other
  characters whose lower case has an ASCII letter, U+212A (KELVIN SIGN, to \<open>k\<close>) and U+0130 (to \<open>i\<close>
  followed by U+0307). All other characters map to characters without ASCII bytes.
\<close>

function to_lowercase :: "rstr \<Rightarrow> rstr" where
  "to_lowercase s =
     (if s = [] then []
      else if take 3 s = [CHR 0xE2, CHR 0x84, CHR 0xAA] then CHR ''k'' # to_lowercase (drop 3 s)
      else if take 2 s = [CHR 0xC4, CHR 0xB0] then [CHR ''i'', CHR 0xCC, CHR 0x87] @ to_lowercase (drop 2 s)
      else ascii_lower_byte (hd s) # to_lowercase (tl s))"
  by pat_completeness auto
termination
  by (relation "measure length") auto

declare to_lowercase.simps [simp del]

definition SECRET_FIELDS :: "rstr list" where
  "SECRET_FIELDS =
     [''password'', ''passwd'', ''secret'', ''token'', ''private_key'', ''privatekey'', ''passphrase'',
      ''auth_key'', ''api_key'', ''apikey'', ''authorization'', ''cookie'']"

definition secret_field :: "rstr \<Rightarrow> bool" where
  "secret_field k = (let k_lower = to_lowercase k in list_ex (\<lambda>f. contains k_lower f) SECRET_FIELDS)"

fun sanitize_json_value :: "Json \<Rightarrow> Json" where
  "sanitize_json_value (JString s) = JString (sanitize_text s)"
| "sanitize_json_value (JArray arr) = JArray (map sanitize_json_value arr)"
| "sanitize_json_value (JObject m) =
     JObject (bt_of_list (map (\<lambda>(k, v).
       (k, if secret_field k then JString REDACTED_PLACEHOLDER else sanitize_json_value v)) m))"
| "sanitize_json_value other = other"

section \<open>Paths into a document\<close>

datatype step = Key rstr | Idx nat

fun json_at :: "Json \<Rightarrow> step list \<Rightarrow> Json option" where
  "json_at v [] = Some v"
| "json_at v (Key k # p) = (case json_get k v of None \<Rightarrow> None | Some w \<Rightarrow> json_at w p)"
| "json_at v (Idx i # p) =
     (case as_array v of None \<Rightarrow> None | Some xs \<Rightarrow> if i < length xs then json_at (xs ! i) p else None)"

fun secret_step :: "step \<Rightarrow> bool" where
  "secret_step (Key k) = secret_field k"
| "secret_step (Idx i) = False"

lemma bt_wf_of_list_map:
  "bt_wf m \<Longrightarrow> map_of (bt_of_list (map (\<lambda>(k, v). (k, f k v)) m)) k = map_option (f k) (map_of m k)"
proof -
  assume "bt_wf m"
  then have d: "distinct (map fst m)" by (rule bt_wf_distinct)
  then have "distinct (map fst (map (\<lambda>(k, v). (k, f k v)) m))" by (simp add: comp_def case_prod_unfold)
  then have "map_of (rev (map (\<lambda>(k, v). (k, f k v)) m)) = map_of (map (\<lambda>(k, v). (k, f k v)) m)"
    by (metis map_of_eqI distinct_rev rev_map set_rev distinct_map map_of_inject_set)
  moreover have "map_of (map (\<lambda>(k, v). (k, f k v)) m) k = map_option (f k) (map_of m k)"
    by (induction m) auto
  ultimately show ?thesis by (simp add: map_of_bt_of_list)
qed

lemma json_get_sanitize:
  assumes "json_wf v"
  shows "json_get k (sanitize_json_value v) =
    map_option (\<lambda>w. if secret_field k then JString REDACTED_PLACEHOLDER else sanitize_json_value w) (json_get k v)"
  using assms by (cases v) (simp_all add: json_get_def bt_wf_of_list_map)

lemma json_get_wf: "json_wf v \<Longrightarrow> json_get k v = Some w \<Longrightarrow> json_wf w"
  by (cases v) (auto simp: json_get_def list_all_iff dest!: map_of_SomeD)

lemma as_array_sanitize: "as_array (sanitize_json_value v) = map_option (map sanitize_json_value) (as_array v)"
  by (cases v) (simp_all add: as_array_def)

lemma as_array_wf: "json_wf v \<Longrightarrow> as_array v = Some xs \<Longrightarrow> i < length xs \<Longrightarrow> json_wf (xs ! i)"
  by (cases v) (auto simp: as_array_def list_all_iff)

lemma json_at_scalar: "json_at (JString s) p = (if p = [] then Some (JString s) else None)"
proof (cases p)
  case (Cons st q)
  then show ?thesis by (cases st) (simp_all add: json_get_def as_array_def)
qed simp



end
