(* ===== verification/Mcp_Tools.thy ===== *)
theory Mcp_Tools
  imports Json
begin

text \<open>
  crates/kyvon-policy/src/tools.rs: the catalogue of tools offered to an agent and the validation of
  their arguments against the declared schemas.
\<close>

section \<open>Tools and the validation of arguments\<close>

record McpToolDefinition =
  tool_name :: rstr
  tool_description :: rstr
  tool_input_schema :: Json
  tool_is_read_only :: bool

text \<open>The checks of one argument against the schema of its property.\<close>

definition bad_string :: "rstr \<Rightarrow> bool" where
  "bad_string s \<longleftrightarrow> trim s = [] \<or> length s > 4096 \<or> has_control s"

definition prop_type :: "Json \<Rightarrow> rstr option" where
  "prop_type schema = as_str (json_index schema ''type'')"

definition check_argument :: "(rstr \<times> Json) list \<Rightarrow> rstr \<times> Json \<Rightarrow> rstr + unit" where
  "check_argument props arg =
     (case arg of (name, v) \<Rightarrow>
        (case map_of props name of
           None \<Rightarrow> Inl ''Unknown argument.''
         | Some schema \<Rightarrow>
             (let ty = prop_type schema in
              if ty = Some ''string'' then
                (case as_str v of
                   None \<Rightarrow> Inl ''Argument must be a string.''
                 | Some s \<Rightarrow>
                     if bad_string s then Inl ''String argument is empty, oversized, or contains control characters.''
                     else Inr ())
              else if ty = Some ''integer'' then
                (case as_i64 v of
                   None \<Rightarrow> Inl ''Argument must be an integer.''
                 | Some n \<Rightarrow>
                     if name = ''lines'' \<and> \<not> (1 \<le> n \<and> n \<le> 1000)
                     then Inl ''Log line count must be between 1 and 1000.'' else Inr ())
              else Inl ''Unsupported argument schema.'')))"

fun check_arguments :: "(rstr \<times> Json) list \<Rightarrow> (rstr \<times> Json) list \<Rightarrow> rstr + unit" where
  "check_arguments props [] = Inr ()"
| "check_arguments props (a # as) =
     (case check_argument props a of Inl e \<Rightarrow> Inl e | Inr _ \<Rightarrow> check_arguments props as)"

definition required_present :: "(rstr \<times> Json) list \<Rightarrow> Json \<Rightarrow> bool" where
  "required_present args name = (case as_str name of Some n \<Rightarrow> map_of args n \<noteq> None | None \<Rightarrow> False)"

definition validate_arguments :: "McpToolDefinition \<Rightarrow> Json \<Rightarrow> rstr + unit" where
  "validate_arguments tool args =
     (case as_object args of
        None \<Rightarrow> Inl ''Arguments must be an object.''
      | Some a \<Rightarrow>
          (case as_object (json_index (tool_input_schema tool) ''properties'') of
             None \<Rightarrow> Inl ''Tool schema is unavailable.''
           | Some props \<Rightarrow>
               (let missing = (case as_array (json_index (tool_input_schema tool) ''required'') of
                                 None \<Rightarrow> False
                               | Some names \<Rightarrow> \<not> list_all (required_present a) names)
                in if missing then Inl ''A required argument is missing.'' else check_arguments props a)))"

section \<open>The catalogue\<close>

text \<open>A property schema of type string with a description, and an object schema.\<close>

definition str_prop :: "rstr \<Rightarrow> rstr \<Rightarrow> rstr \<times> Json" where
  "str_prop name descr = (name, json_obj [(''type'', JString ''string''), (''description'', JString descr)])"

definition obj_schema :: "rstr list \<Rightarrow> (rstr \<times> Json) list \<Rightarrow> Json" where
  "obj_schema req props =
     json_obj [(''type'', JString ''object''), (''required'', JArray (map JString req)), (''properties'', json_obj props)]"

abbreviation server_prop :: "rstr \<times> Json" where
  "server_prop \<equiv> str_prop ''server_id'' ''Server identifier''"

abbreviation tool :: "rstr \<Rightarrow> rstr \<Rightarrow> Json \<Rightarrow> bool \<Rightarrow> McpToolDefinition" where
  "tool n d s r \<equiv> \<lparr>tool_name = n, tool_description = d, tool_input_schema = s, tool_is_read_only = r\<rparr>"

definition server_tools :: "McpToolDefinition list" where
  "server_tools =
    [tool ''kyvon_server_list''
       ''List all monitored VPS hosts with their connectivity status, OS, and provider tags.''
       (json_obj [(''type'', JString ''object''),
                  (''properties'', json_obj [str_prop ''tag'' ''Filter by tag (e.g. production, staging)''])]) True,
     tool ''kyvon_server_get''
       ''Retrieve complete hardware, OS matrix, and digital twin profile of a VPS.''
       (obj_schema [''server_id''] [server_prop]) True,
     tool ''kyvon_server_health''
       ''Get real-time CPU, RAM, disk, network, and load average telemetry for a server.''
       (obj_schema [''server_id''] [server_prop]) True,
     tool ''kyvon_server_capacity''
       ''Calculate capacity headroom, projected saturation days, and multi-signal outage risk score (0-100).''
       (obj_schema [''server_id''] [server_prop]) True]"

definition site_tools :: "McpToolDefinition list" where
  "site_tools =
    [tool ''kyvon_site_list''
       ''List all websites and domains hosted on the VPS with their upstream bindings and health status.''
       (obj_schema [''server_id''] [server_prop]) True,
     tool ''kyvon_site_get''
       ''Retrieve site configuration, SSL certificate validity, and reverse proxy mapping for a domain.''
       (obj_schema [''server_id'', ''domain'']
         [server_prop, str_prop ''domain'' ''Fully qualified domain name (e.g. api.example.com)'']) True,
     tool ''kyvon_site_metrics''
       ''Get site-level resource attribution (CPU %, RAM MB, disk I/O, error rate, connections).''
       (obj_schema [''server_id'', ''domain''] [server_prop, str_prop ''domain'' ''Domain name'']) True,
     tool ''kyvon_site_logs''
       ''Retrieve categorized access and error log entries for a domain with 4xx/5xx error extraction.''
       (obj_schema [''server_id'', ''domain'']
         [server_prop, str_prop ''domain'' ''Domain name'',
          (''lines'', json_obj [(''type'', JString ''integer''), (''minimum'', JInt 1), (''maximum'', JInt 1000),
             (''default'', JInt 50), (''description'', JString ''Number of log lines to inspect'')])]) True]"

definition diagnostic_tools :: "McpToolDefinition list" where
  "diagnostic_tools =
    [tool ''kyvon_diagnose_site''
       ''Execute deep diagnostic pipeline investigating why a site is slow (DNS -> TLS -> Nginx -> Backend -> DB -> External API).''
       (obj_schema [''server_id'', ''domain''] [server_prop, str_prop ''domain'' ''Domain name to diagnose'']) True,
     tool ''kyvon_topology_get''
       ''Retrieve full causal relationship graph (Domain -> Nginx -> Container/Pod -> PID -> Database).''
       (obj_schema [''server_id''] [server_prop]) True,
     tool ''kyvon_incident_list''
       ''List active and historical incidents with timeline, causal root cause, and blast radius.''
       (obj_schema [''server_id''] [server_prop]) True,
     tool ''kyvon_changes_list''
       (''Answer '' @ [SQ] @ ''What changed on production?'' @ [SQ] @
        '' by returning correlated deployments, config drifts, and resource anomalies.'')
       (obj_schema [''server_id'']
         [server_prop,
          (''timeframe'', json_obj [(''type'', JString ''string''), (''default'', JString ''today''),
             (''description'', JString ''Time window (e.g. today, last 6h)'')])]) True]"

definition write_tools :: "McpToolDefinition list" where
  "write_tools =
    [tool ''kyvon_reload_nginx''
       ''Safely test Nginx configuration (nginx -t) and reload without connection termination (Risk: Low).''
       (obj_schema [''server_id''] [server_prop]) False,
     tool ''kyvon_restart_service''
       ''Restart a systemd or container service with preflight validation and impact assessment (Risk: Guarded/Elevated).''
       (obj_schema [''server_id'', ''service_name'']
         [server_prop, str_prop ''service_name'' ''Name of the service (e.g. nginx, redis)'']) False,
     tool ''kyvon_restart_container''
       ''Restart a specific Docker container with healthcheck verification (Risk: Guarded/Elevated).''
       (obj_schema [''server_id'', ''container_id'']
         [server_prop, str_prop ''container_id'' ''Container ID or name'']) False,
     tool ''kyvon_deploy''
       ''Deploy an application version or git commit with preflight checks and smoke tests (Risk: Elevated).''
       (obj_schema [''server_id'', ''application'', ''version'']
         [server_prop, str_prop ''application'' ''Application name'',
          str_prop ''version'' ''Version tag or git commit hash'',
          (''environment'', json_obj [(''type'', JString ''string''), (''default'', JString ''production'')])]) False,
     tool ''kyvon_rollback''
       ''Rollback an application to its previously healthy deployment record (Risk: Elevated).''
       (obj_schema [''server_id'', ''application''] [server_prop, str_prop ''application'' ''Application name'']) False]"

definition get_kyvon_mcp_tools :: "McpToolDefinition list" where
  "get_kyvon_mcp_tools = server_tools @ site_tools @ diagnostic_tools @ write_tools"

definition find_tool :: "rstr \<Rightarrow> McpToolDefinition option" where
  "find_tool name = find (\<lambda>t. tool_name t = name) get_kyvon_mcp_tools"

section \<open>What a schema asks for\<close>

definition tool_props :: "McpToolDefinition \<Rightarrow> (rstr \<times> Json) list" where
  "tool_props t = (case as_object (json_index (tool_input_schema t) ''properties'') of Some m \<Rightarrow> m | None \<Rightarrow> [])"

definition tool_required :: "McpToolDefinition \<Rightarrow> rstr list" where
  "tool_required t =
     (case as_array (json_index (tool_input_schema t) ''required'') of
        Some names \<Rightarrow> List.map_filter as_str names | None \<Rightarrow> [])"

definition argument_ok :: "McpToolDefinition \<Rightarrow> rstr \<Rightarrow> Json \<Rightarrow> bool" where
  "argument_ok t name v \<longleftrightarrow>
     (case map_of (tool_props t) name of
        None \<Rightarrow> False
      | Some schema \<Rightarrow>
          (prop_type schema = Some ''string'' \<and>
             (\<exists>s. v = JString s \<and> trim s \<noteq> [] \<and> length s \<le> 4096 \<and> \<not> has_control s)) \<or>
          (prop_type schema = Some ''integer'' \<and>
             (\<exists>n. v = JInt n \<and> in_i64 n \<and> (name = ''lines'' \<longrightarrow> 1 \<le> n \<and> n \<le> 1000))))"

text \<open>The schemas of the catalogue are the flat ones that the validation supports.\<close>

definition flat_schema :: "McpToolDefinition \<Rightarrow> bool" where
  "flat_schema t \<longleftrightarrow>
     as_object (json_index (tool_input_schema t) ''properties'') \<noteq> None \<and>
     list_all (\<lambda>(k, s). prop_type s = Some ''string'' \<or> prop_type s = Some ''integer'') (tool_props t) \<and>
     (case as_array (json_index (tool_input_schema t) ''required'') of
        Some names \<Rightarrow> list_all is_string names | None \<Rightarrow> True)"

lemma catalogue_flat: "list_all flat_schema get_kyvon_mcp_tools"
  by code_simp

lemma catalogue_names: "distinct (map tool_name get_kyvon_mcp_tools)"
  by code_simp

lemma check_arguments_ok: "check_arguments props as = Inr () \<longleftrightarrow> (\<forall>a \<in> set as. check_argument props a = Inr ())"
  by (induction as) (auto split: sum.splits)

lemma as_str_Some: "as_str v = Some s \<longleftrightarrow> v = JString s"
  by (cases v) (simp_all add: as_str_def)

lemma as_i64_Some: "as_i64 v = Some n \<longleftrightarrow> v = JInt n \<and> in_i64 n"
  by (cases v) (auto simp: as_i64_def)

lemma check_argument_ok: "check_argument (tool_props t) (name, v) = Inr () \<longleftrightarrow> argument_ok t name v"
proof (cases "map_of (tool_props t) name")
  case None
  then show ?thesis by (simp add: check_argument_def argument_ok_def)
next
  case (Some schema)
  consider "prop_type schema = Some ''string''" | "prop_type schema = Some ''integer''"
    | "prop_type schema \<noteq> Some ''string''" "prop_type schema \<noteq> Some ''integer''" by blast
  then show ?thesis
  proof cases
    case 1
    then show ?thesis using Some
      by (cases v) (auto simp: check_argument_def argument_ok_def Let_def as_str_def bad_string_def)
  next
    case 2
    then show ?thesis using Some
      by (cases v) (auto simp: check_argument_def argument_ok_def Let_def as_i64_def)
  next
    case 3
    then show ?thesis using Some by (simp add: check_argument_def argument_ok_def Let_def)
  qed
qed

lemma required_present_all:
  "list_all is_string names \<Longrightarrow>
     list_all (required_present a) names \<longleftrightarrow> (\<forall>n \<in> set (List.map_filter as_str names). map_of a n \<noteq> None)"
  by (induction names) (auto simp: List.map_filter_simps required_present_def is_string_def split: option.splits)

text \<open>Validation accepts exactly the well-formed calls: for a tool of the catalogue the arguments are an object with every required name, every argument is declared, strings are non-blank, at most 4096 bytes long and free of control characters, and integers fit 64 bits, the log line count lying between 1 and 1000.\<close>

theorem validate_arguments_iff:
  assumes "t \<in> set get_kyvon_mcp_tools"
  shows "validate_arguments t args = Inr () \<longleftrightarrow>
    (\<exists>a. args = JObject a \<and> (\<forall>n \<in> set (tool_required t). map_of a n \<noteq> None) \<and>
         (\<forall>(n, v) \<in> set a. argument_ok t n v))"
proof (cases "as_object args")
  case None
  then show ?thesis by (auto simp: validate_arguments_def as_object_def)
next
  case (Some a)
  then have args: "args = JObject a" by (cases args) (simp_all add: as_object_def)
  have flat: "flat_schema t" using catalogue_flat assms by (simp add: list_all_iff)
  then obtain props where props: "as_object (json_index (tool_input_schema t) ''properties'') = Some props" "tool_props t = props"
    by (auto simp: flat_schema_def tool_props_def)
  have req: "(case as_array (json_index (tool_input_schema t) ''required'') of
      None \<Rightarrow> False | Some names \<Rightarrow> \<not> list_all (required_present a) names) \<longleftrightarrow>
      \<not> (\<forall>n \<in> set (tool_required t). map_of a n \<noteq> None)"
    using flat required_present_all by (auto simp: flat_schema_def tool_required_def split: option.splits)
  have "validate_arguments t args = Inr () \<longleftrightarrow>
      (\<forall>n \<in> set (tool_required t). map_of a n \<noteq> None) \<and> check_arguments props a = Inr ()"
    unfolding validate_arguments_def Some option.case props Let_def req by simp
  also have "check_arguments props a = Inr () \<longleftrightarrow> (\<forall>(n, v) \<in> set a. argument_ok t n v)"
    unfolding check_arguments_ok props(2) [symmetric] using check_argument_ok by fastforce
  finally show ?thesis using args by simp
qed

theorem validate_arguments_iff_witness:
  "argument_ok (site_tools ! 3) ''lines'' (JInt 1000) \<and>
   \<not> argument_ok (site_tools ! 3) ''lines'' (JInt 1001)"
proof
  let ?t = "site_tools ! 3"
  have t: "?t \<in> set get_kyvon_mcp_tools" by (simp add: get_kyvon_mcp_tools_def site_tools_def)
  have "validate_arguments ?t (JObject [(''domain'', JString ''d''), (''lines'', JInt 1000), (''server_id'', JString ''s'')]) = Inr ()"
    by code_simp
  then show "argument_ok ?t ''lines'' (JInt 1000)" unfolding validate_arguments_iff [OF t] by simp
  have "check_argument (tool_props ?t) (''lines'', JInt 1001) \<noteq> Inr ()" by code_simp
  then show "\<not> argument_ok ?t ''lines'' (JInt 1001)" unfolding check_argument_ok .
qed

end
