(* ===== verification/Approvals.thy ===== *)
theory Approvals
  imports Mcp_Tools Single_Use
begin

text \<open>
  crates/kyvon-policy/src/approvals.rs: the approval gate. The mutex-guarded map of pending requests
  is the state; the clock reading and the random identifier of a call are its arguments.
\<close>

section \<open>The gate\<close>

definition APPROVAL_TTL_MS :: int where
  "APPROVAL_TTL_MS = 60000"

record ApprovalProposal =
  prop_server_id :: rstr
  prop_actor :: rstr
  prop_tool_name :: rstr
  prop_summary :: rstr
  prop_risk_tier :: RiskTier
  prop_commands :: "rstr list"
  prop_expected_impact :: rstr

record ApprovalGate =
  gate_pending :: "McpApprovalRequest hmap"

definition gate_new :: ApprovalGate where
  "gate_new = \<lparr>gate_pending = []\<rparr>"

definition test_env :: "rstr option \<Rightarrow> bool" where
  "test_env target_env \<longleftrightarrow>
     (case target_env of Some e \<Rightarrow> e \<in> {''staging'', ''development'', ''dev'', ''test''} | None \<Rightarrow> False)"

definition assess_operation_risk :: "rstr \<Rightarrow> rstr option \<Rightarrow> RiskTier" where
  "assess_operation_risk name target_env =
     (if list_ex (\<lambda>t. tool_name t = name \<and> tool_is_read_only t) get_kyvon_mcp_tools then Safe
      else if name = ''kyvon_reload_nginx'' then Low
      else if name = ''kyvon_restart_service'' then (if test_env target_env then Medium else High)
      else if name = ''kyvon_deploy'' then (if test_env target_env then Medium else High)
      else if name = ''kyvon_rollback'' then High
      else if name \<in> {''kyvon_drain_workload'', ''kyvon_drop_database'', ''kyvon_flush_firewall''} then Critical
      else High)"

definition new_request :: "rstr \<Rightarrow> TimestampMs \<Rightarrow> ApprovalProposal \<Rightarrow> McpApprovalRequest" where
  "new_request uuid now p =
     \<lparr>req_request_id = ''req_'' @ uuid, req_server_id = prop_server_id p, req_actor = prop_actor p,
      req_tool_name = prop_tool_name p, req_operation_summary = prop_summary p, req_risk_tier = prop_risk_tier p,
      req_proposed_commands = prop_commands p, req_expected_impact = prop_expected_impact p,
      req_requires_second_confirmation = (prop_risk_tier p = Critical),
      req_requires_backup_verification =
        (prop_risk_tier p = Critical \<or> contains (prop_tool_name p) ''database'' \<or> contains (prop_tool_name p) ''deploy''),
      req_status = Pending, req_created_at_ms = now\<rparr>"

definition create_request ::
  "rstr \<Rightarrow> TimestampMs \<Rightarrow> ApprovalProposal \<Rightarrow> ApprovalGate \<Rightarrow> McpApprovalRequest \<times> ApprovalGate" where
  "create_request uuid now p g =
     (let req = new_request uuid now p
      in (req, g\<lparr>gate_pending := hm_insert (''req_'' @ uuid) req (gate_pending g)\<rparr>))"

definition within_ttl :: "TimestampMs \<Rightarrow> McpApprovalRequest \<Rightarrow> bool" where
  "within_ttl now req =
     (case checked_sub now (req_created_at_ms req) of Some age \<Rightarrow> 0 \<le> age \<and> age < APPROVAL_TTL_MS | None \<Rightarrow> False)"

definition resolve_request ::
  "TimestampMs \<Rightarrow> rstr \<Rightarrow> bool \<Rightarrow> ApprovalGate \<Rightarrow> McpApprovalRequest option \<times> ApprovalGate" where
  "resolve_request now request_id approve g =
     (case hm_get (gate_pending g) request_id of
        None \<Rightarrow> (None, g)
      | Some req \<Rightarrow>
          (let status = (if \<not> within_ttl now req then Expired else if approve then Approved else Rejected)
           in (Some (req\<lparr>req_status := status\<rparr>), g\<lparr>gate_pending := hm_remove request_id (gate_pending g)\<rparr>)))"

definition get_pending :: "TimestampMs \<Rightarrow> ApprovalGate \<Rightarrow> McpApprovalRequest list \<times> ApprovalGate" where
  "get_pending now g =
     (let g' = g\<lparr>gate_pending := hm_retain (within_ttl now) (gate_pending g)\<rparr>
      in (map snd (gate_pending g'), g'))"

section \<open>The gate is a single-use store\<close>

definition gate_wf :: "ApprovalGate \<Rightarrow> bool" where
  "gate_wf g \<longleftrightarrow> hm_wf (gate_pending g) \<and>
     (\<forall>k r. hm_get (gate_pending g) k = Some r \<longrightarrow> req_status r = Pending)"

definition gate_get :: "ApprovalGate \<Rightarrow> rstr \<Rightarrow> McpApprovalRequest option" where
  "gate_get g k = hm_get (gate_pending g) k"

definition gate_put :: "rstr \<Rightarrow> McpApprovalRequest \<Rightarrow> ApprovalGate \<Rightarrow> ApprovalGate" where
  "gate_put k r g = g\<lparr>gate_pending := hm_insert k r (gate_pending g)\<rparr>"

definition gate_distinct :: "ApprovalGate \<Rightarrow> bool" where
  "gate_distinct g \<longleftrightarrow> hm_wf (gate_pending g)"

lemmas gate_defs = gate_wf_def gate_distinct_def gate_get_def gate_put_def create_request_def resolve_request_def get_pending_def

lemma create_wf: "gate_wf g \<Longrightarrow> gate_wf (snd (create_request uuid now p g))"
  by (auto simp: gate_defs Let_def new_request_def)

lemma resolve_wf: "gate_wf g \<Longrightarrow> gate_wf (snd (resolve_request now k approve g))"
  by (auto simp: gate_defs Let_def split: option.splits)

lemma pending_wf: "gate_wf g \<Longrightarrow> gate_wf (snd (get_pending now g))"
  by (auto simp: gate_defs Let_def hm_get_retain split: option.splits if_splits)

lemma create_get:
  "gate_get (snd (create_request uuid now p g)) k = (if ''req_'' @ uuid = k then Some (new_request uuid now p) else gate_get g k)"
  by (simp add: gate_defs Let_def)

lemma resolve_get: "gate_get (snd (resolve_request now j approve g)) k = (if j = k then None else gate_get g k)"
  by (auto simp: gate_defs Let_def split: option.splits)

lemma pending_get:
  "gate_distinct g \<Longrightarrow> gate_get (snd (get_pending now g)) k =
     (case gate_get g k of Some r \<Rightarrow> if within_ttl now r then Some r else None | None \<Rightarrow> None)"
  by (simp add: gate_defs Let_def hm_get_retain)

lemma gate_wf_distinct: "gate_wf g \<Longrightarrow> gate_distinct g"
  by (simp add: gate_defs)

interpretation appr: single_use gate_distinct gate_get gate_put
  "\<lambda>q k. resolve_request (fst q) k (snd q)" "\<lambda>q g. snd (get_pending (fst q) g)" "\<lambda>r. r \<noteq> None"
proof unfold_locales
  show "gate_distinct (snd (resolve_request (fst q) k (snd q) s))" if "gate_distinct s" for s k and q :: "int \<times> bool"
    using that by (auto simp: gate_defs Let_def split: option.splits)
  show "gate_distinct (snd (get_pending (fst q) s))" if "gate_distinct s" for s and q :: "int \<times> bool"
    using that by (simp add: gate_defs Let_def)
  show "\<not> fst (resolve_request (fst q) k (snd q) s) \<noteq> None" if "gate_get s k = None" for s k and q :: "int \<times> bool"
    using that by (simp add: gate_defs)
qed (simp_all add: resolve_get pending_get, simp_all add: gate_defs)

section \<open>Histories of the gate\<close>

datatype gate_op = Create rstr TimestampMs ApprovalProposal | Resolve TimestampMs rstr bool | ListPending TimestampMs

primrec gate_exec :: "gate_op \<Rightarrow> ApprovalGate \<Rightarrow> ApprovalGate" where
  "gate_exec (Create uuid now p) g = snd (create_request uuid now p g)"
| "gate_exec (Resolve now k approve) g = snd (resolve_request now k approve g)"
| "gate_exec (ListPending now) g = snd (get_pending now g)"

primrec creates_id :: "rstr \<Rightarrow> gate_op \<Rightarrow> bool" where
  "creates_id k (Create uuid now p) = (''req_'' @ uuid = k)"
| "creates_id k (Resolve now j approve) = False"
| "creates_id k (ListPending now) = False"

primrec gate_store_op :: "gate_op \<Rightarrow> (TimestampMs \<times> bool, McpApprovalRequest) store_op" where
  "gate_store_op (Create uuid now p) = Put (''req_'' @ uuid) (new_request uuid now p)"
| "gate_store_op (Resolve now k approve) = Take (now, approve) k"
| "gate_store_op (ListPending now) = Sweep (now, True)"

lemma gate_exec_store: "gate_exec x = appr.exec (gate_store_op x)"
  by (rule ext, cases x) (simp_all add: create_request_def gate_put_def Let_def)

lemma puts_key_gate [simp]: "puts_key k (gate_store_op x) = creates_id k x"
  by (cases x) simp_all

lemma gate_run_store: "fold gate_exec ops g = fold appr.exec (map gate_store_op ops) g"
  by (induction ops arbitrary: g) (simp_all add: gate_exec_store)

lemma gate_run_wf: "gate_wf g \<Longrightarrow> gate_wf (fold gate_exec ops g)"
proof (induction ops arbitrary: g)
  case (Cons x ops)
  then show ?case by (cases x) (simp_all add: create_wf resolve_wf pending_wf)
qed simp

section \<open>Properties\<close>

text \<open>C15. A request is decided once. After a decision on an identifier, every later decision on it finds nothing, in every history of the gate that creates no request under that identifier, and until then every request held by the gate is pending.\<close>

theorem approval_decided_once:
  assumes "gate_wf g" and "list_all (\<lambda>x. \<not> creates_id k x) ops"
  shows "fst (resolve_request now' k approve' (fold gate_exec ops (snd (resolve_request now k approve g)))) = None \<and>
    (\<forall>j r. gate_get (fold gate_exec ops g) j = Some r \<longrightarrow> req_status r = Pending)"
proof
  have "list_all (\<lambda>x. \<not> puts_key k x) (map gate_store_op ops)"
    using assms(2) by (simp add: list_all_iff)
  from appr.used_once [OF gate_wf_distinct [OF assms(1)] this, of "(now', approve')" "(now, approve)"]
  show "fst (resolve_request now' k approve' (fold gate_exec ops (snd (resolve_request now k approve g)))) = None"
    unfolding gate_run_store by simp
  show "\<forall>j r. gate_get (fold gate_exec ops g) j = Some r \<longrightarrow> req_status r = Pending"
    using gate_run_wf [OF assms(1), of ops] by (simp add: gate_wf_def gate_get_def)
qed

definition sample_proposal :: ApprovalProposal where
  "sample_proposal = \<lparr>prop_server_id = ''prod'', prop_actor = ''agent'', prop_tool_name = ''kyvon_deploy'',
     prop_summary = ''deploy'', prop_risk_tier = High, prop_commands = [], prop_expected_impact = []\<rparr>"

theorem approval_decided_once_witness:
  "fst (resolve_request 20 ''req_1'' True (fold gate_exec [Create ''2'' 15 sample_proposal, ListPending 16]
      (snd (resolve_request 10 ''req_1'' False (snd (create_request ''1'' 5 sample_proposal gate_new)))))) = None"
proof -
  have "gate_wf (snd (create_request ''1'' 5 sample_proposal gate_new))"
    by (rule create_wf) (simp add: gate_wf_def gate_new_def)
  from approval_decided_once [OF this, of "''req_1''" "[Create ''2'' 15 sample_proposal, ListPending 16]" 20 True 10 False]
  show ?thesis by simp
qed

text \<open>A decision is valid for sixty seconds: a request created at one time and decided at another is approved or rejected as the operator says when the decision comes 0 to 59999 ms later, and is expired otherwise, also when the clock went back or the difference does not fit 64 bits. Only the status changes.\<close>

theorem approval_window:
  assumes "in_i64 t0" and "in_i64 now"
  shows "fst (resolve_request now (''req_'' @ uuid) approve (snd (create_request uuid t0 p g))) =
    Some ((new_request uuid t0 p)\<lparr>req_status :=
      (if t0 \<le> now \<and> now - t0 < 60000 then (if approve then Approved else Rejected) else Expired)\<rparr>)"
proof -
  have "within_ttl now (new_request uuid t0 p) \<longleftrightarrow> t0 \<le> now \<and> now - t0 < 60000"
    using assms by (auto simp: within_ttl_def new_request_def checked_sub_def APPROVAL_TTL_MS_def i64_defs)
  then show ?thesis by (simp add: gate_defs Let_def)
qed

theorem approval_window_witness:
  "fst (resolve_request 60004 (''req_'' @ ''1'') True (snd (create_request ''1'' 5 sample_proposal gate_new))) =
     Some ((new_request ''1'' 5 sample_proposal)\<lparr>req_status := Approved\<rparr>) \<and>
   fst (resolve_request 4 (''req_'' @ ''1'') True (snd (create_request ''1'' 5 sample_proposal gate_new))) =
     Some ((new_request ''1'' 5 sample_proposal)\<lparr>req_status := Expired\<rparr>)"
  using approval_window [of 5 60004 "''1''" True sample_proposal gate_new]
    approval_window [of 5 4 "''1''" True sample_proposal gate_new] by (simp add: i64_defs)

text \<open>The risk of an operation is Safe exactly for the read-only tools of the catalogue; every other operation is at least Low, only the reload of nginx is below Medium, and a name outside the catalogue is High or Critical in every environment.\<close>

theorem assess_operation_risk_floor:
  "(assess_operation_risk name env = Safe \<longleftrightarrow>
      (\<exists>t \<in> set get_kyvon_mcp_tools. tool_name t = name \<and> tool_is_read_only t)) \<and>
   (assess_operation_risk name env = Low \<longleftrightarrow> name = ''kyvon_reload_nginx'') \<and>
   (find_tool name = None \<longrightarrow> assess_operation_risk name env \<in> {High, Critical})"
proof (intro conjI impI)
  have ro: "\<not> list_ex (\<lambda>t. tool_name t = ''kyvon_reload_nginx'' \<and> tool_is_read_only t) get_kyvon_mcp_tools" by code_simp
  show "assess_operation_risk name env = Safe \<longleftrightarrow> (\<exists>t \<in> set get_kyvon_mcp_tools. tool_name t = name \<and> tool_is_read_only t)"
    by (simp add: assess_operation_risk_def list_ex_iff)
  show "assess_operation_risk name env = Low \<longleftrightarrow> name = ''kyvon_reload_nginx''"
    using ro by (auto simp: assess_operation_risk_def)
  assume none: "find_tool name = None"
  have c: "list_ex (\<lambda>t. tool_name t = ''kyvon_reload_nginx'') get_kyvon_mcp_tools"
    "list_ex (\<lambda>t. tool_name t = ''kyvon_restart_service'') get_kyvon_mcp_tools"
    "list_ex (\<lambda>t. tool_name t = ''kyvon_deploy'') get_kyvon_mcp_tools"
    by code_simp+
  have n: "\<not> list_ex (\<lambda>t. tool_name t = name) get_kyvon_mcp_tools"
    using none by (auto simp: find_tool_def find_None_iff list_ex_iff)
  with c have "name \<noteq> ''kyvon_reload_nginx''" "name \<noteq> ''kyvon_restart_service''" "name \<noteq> ''kyvon_deploy''"
    by blast+
  moreover have "\<not> list_ex (\<lambda>t. tool_name t = name \<and> tool_is_read_only t) get_kyvon_mcp_tools"
    using n by (auto simp: list_ex_iff)
  ultimately show "assess_operation_risk name env \<in> {High, Critical}" by (simp add: assess_operation_risk_def)
qed

theorem assess_operation_risk_floor_witness:
  "assess_operation_risk ''exec_shell'' (Some ''staging'') \<in> {High, Critical}"
proof -
  have "find_tool ''exec_shell'' = None" by code_simp
  then show ?thesis using assess_operation_risk_floor [of "''exec_shell''" "Some ''staging''"] by blast
qed

end
