(* ===== verification/Tokens.thy ===== *)
theory Tokens
  imports Core_Types Single_Use
begin

text \<open>
  crates/kyvon-policy/src/tokens.rs: ephemeral single-use tokens. The mutex-guarded map is the state;
  the clock reading and the random identifier of a call are its arguments.
\<close>

section \<open>The authority\<close>

record TokenAuthority =
  ta_tokens :: "EphemeralToken hmap"
  ta_ttl_seconds :: int

definition authority_new :: "int \<Rightarrow> TokenAuthority" where
  "authority_new ttl_seconds = \<lparr>ta_tokens = [], ta_ttl_seconds = ttl_seconds\<rparr>"

definition expiry :: "TimestampMs \<Rightarrow> int \<Rightarrow> TimestampMs" where
  "expiry now ttl = saturating_add now (saturating_mul (max ttl 0) 1000)"

definition issue_token ::
  "rstr \<Rightarrow> TimestampMs \<Rightarrow> rstr \<Rightarrow> rstr \<Rightarrow> TokenAuthority \<Rightarrow> EphemeralToken \<times> TokenAuthority" where
  "issue_token uuid now server_id scope a =
     (let token_id = ''kyvon_tok_'' @ uuid;
          token = \<lparr>tok_id = token_id, tok_server_id = server_id, tok_scope = scope, tok_issued_at_ms = now,
                   tok_expires_at_ms = expiry now (ta_ttl_seconds a)\<rparr>
      in (token, a\<lparr>ta_tokens := hm_insert token_id token (ta_tokens a)\<rparr>))"

definition prune :: "TimestampMs \<Rightarrow> TokenAuthority \<Rightarrow> TokenAuthority" where
  "prune now a = a\<lparr>ta_tokens := hm_retain (\<lambda>t. tok_expires_at_ms t > now) (ta_tokens a)\<rparr>"

definition verify_and_consume ::
  "TimestampMs \<Rightarrow> rstr \<Rightarrow> rstr \<Rightarrow> rstr \<Rightarrow> TokenAuthority \<Rightarrow> (rstr + bool) \<times> TokenAuthority" where
  "verify_and_consume now token_id server_id required_scope a0 =
     (let a = prune now a0 in
      case hm_get (ta_tokens a) token_id of
        None \<Rightarrow> (Inl ''invalid or previously consumed token'', a)
      | Some tok \<Rightarrow>
          (let a' = a\<lparr>ta_tokens := hm_remove token_id (ta_tokens a)\<rparr> in
           if \<not> token_is_valid tok now then (Inl ''token has expired'', a')
           else if tok_server_id tok \<noteq> server_id then (Inl ''token server mismatch'', a')
           else if tok_scope tok \<noteq> required_scope \<and> tok_scope tok \<noteq> ''*'' then (Inl ''token scope unauthorized'', a')
           else (Inr True, a')))"

section \<open>The authority is a single-use store\<close>

definition authority_wf :: "TokenAuthority \<Rightarrow> bool" where
  "authority_wf a \<longleftrightarrow> hm_wf (ta_tokens a)"

definition token_get :: "TokenAuthority \<Rightarrow> rstr \<Rightarrow> EphemeralToken option" where
  "token_get a k = hm_get (ta_tokens a) k"

definition token_put :: "rstr \<Rightarrow> EphemeralToken \<Rightarrow> TokenAuthority \<Rightarrow> TokenAuthority" where
  "token_put k t a = a\<lparr>ta_tokens := hm_insert k t (ta_tokens a)\<rparr>"

definition token_take ::
  "TimestampMs \<times> rstr \<times> rstr \<Rightarrow> rstr \<Rightarrow> TokenAuthority \<Rightarrow> (rstr + bool) \<times> TokenAuthority" where
  "token_take q k a = (case q of (now, server_id, scope) \<Rightarrow> verify_and_consume now k server_id scope a)"

lemmas token_store_defs = authority_wf_def token_get_def token_put_def token_take_def prune_def

lemma verify_state:
  "authority_wf a \<Longrightarrow> token_get (snd (verify_and_consume now k server_id scope a)) j =
     (if j = k then None else token_get (prune now a) j)"
  by (auto simp: verify_and_consume_def token_get_def Let_def split: option.splits)

lemma verify_wf: "authority_wf a \<Longrightarrow> authority_wf (snd (verify_and_consume now k server_id scope a))"
  by (auto simp: verify_and_consume_def token_store_defs Let_def split: option.splits)

lemma prune_get:
  "authority_wf a \<Longrightarrow> token_get (prune now a) k =
     (case token_get a k of Some t \<Rightarrow> if tok_expires_at_ms t > now then Some t else None | None \<Rightarrow> None)"
  by (simp add: token_store_defs hm_get_retain)

interpretation tok: single_use authority_wf token_get token_put token_take "\<lambda>q. prune (fst q)" "\<lambda>r. r = Inr True"
proof unfold_locales
  show "\<not> fst (token_take q k s) = Inr True" if "authority_wf s" "token_get s k = None" for s k q
    using that prune_get [of s "fst q" k]
    by (cases q) (simp add: token_take_def verify_and_consume_def token_get_def Let_def)
qed (auto simp: token_take_def verify_state verify_wf prune_get split: prod.splits,
     simp_all add: token_store_defs)

section \<open>Histories of the authority\<close>

datatype token_op = Issue rstr TimestampMs rstr rstr | Verify TimestampMs rstr rstr rstr

primrec token_exec :: "token_op \<Rightarrow> TokenAuthority \<Rightarrow> TokenAuthority" where
  "token_exec (Issue uuid now server_id scope) a = snd (issue_token uuid now server_id scope a)"
| "token_exec (Verify now k server_id scope) a = snd (verify_and_consume now k server_id scope a)"

primrec issues_id :: "rstr \<Rightarrow> token_op \<Rightarrow> bool" where
  "issues_id k (Issue uuid now server_id scope) = (''kyvon_tok_'' @ uuid = k)"
| "issues_id k (Verify now j server_id scope) = False"

text \<open>A history of the authority is a history of the store.\<close>

primrec store_op_of :: "int \<Rightarrow> token_op \<Rightarrow> (TimestampMs \<times> rstr \<times> rstr, EphemeralToken) store_op" where
  "store_op_of ttl (Issue uuid now server_id scope) =
     Put (''kyvon_tok_'' @ uuid)
       \<lparr>tok_id = ''kyvon_tok_'' @ uuid, tok_server_id = server_id, tok_scope = scope, tok_issued_at_ms = now,
        tok_expires_at_ms = expiry now ttl\<rparr>"
| "store_op_of ttl (Verify now k server_id scope) = Take (now, server_id, scope) k"

lemma verify_ttl [simp]: "ta_ttl_seconds (snd (verify_and_consume now k server_id scope a)) = ta_ttl_seconds a"
  by (auto simp: verify_and_consume_def prune_def Let_def split: option.splits)

lemma token_exec_ttl [simp]: "ta_ttl_seconds (token_exec x a) = ta_ttl_seconds a"
  by (cases x) (simp_all add: issue_token_def Let_def)

lemma token_exec_store: "token_exec x a = tok.exec (store_op_of (ta_ttl_seconds a) x) a"
  by (cases x) (simp_all add: issue_token_def token_put_def token_take_def Let_def)

lemma token_run_store: "fold token_exec ops a = fold tok.exec (map (store_op_of (ta_ttl_seconds a)) ops) a"
proof (induction ops arbitrary: a)
  case (Cons x ops)
  then show ?case by (simp add: token_exec_store [symmetric])
qed simp

lemma puts_key_store [simp]: "puts_key k (store_op_of ttl x) = issues_id k x"
  by (cases x) simp_all

lemma token_run_wf: "authority_wf a \<Longrightarrow> authority_wf (fold token_exec ops a)"
  unfolding token_run_store by (rule tok.inv_run)

section \<open>Properties\<close>

text \<open>C5. A token is used at most once. After any verification of an identifier, whatever its outcome, every later verification of it is refused in every history that issues no token under that identifier.\<close>

theorem token_single_use:
  assumes "authority_wf a" and "list_all (\<lambda>x. \<not> issues_id k x) ops"
  shows "fst (verify_and_consume now' k server' scope'
            (fold token_exec ops (snd (verify_and_consume now k server_id scope a)))) \<noteq> Inr True"
proof -
  have "list_all (\<lambda>x. \<not> puts_key k x) (map (store_op_of (ta_ttl_seconds a)) ops)"
    using assms(2) by (simp add: list_all_iff)
  from tok.used_once [OF assms(1) this, of "(now', server', scope')" "(now, server_id, scope)"] show ?thesis
    unfolding token_run_store by (simp add: token_take_def)
qed

theorem token_single_use_witness:
  "fst (verify_and_consume 6 ''kyvon_tok_1'' ''s'' ''x''
     (fold token_exec [Issue ''2'' 5 ''s'' ''x'', Verify 5 ''kyvon_tok_2'' ''s'' ''y'']
       (snd (verify_and_consume 4 ''kyvon_tok_1'' ''t'' ''x'' (snd (issue_token ''1'' 3 ''s'' ''x'' (authority_new 60))))))) \<noteq> Inr True"
  by (rule token_single_use) (simp_all add: authority_wf_def issue_token_def authority_new_def Let_def)

text \<open>A verification succeeds exactly for a live token of the authority presented for its own server and for its scope, or for any scope when the token's scope is the wildcard; the refusal for an expired token is never given, because expired tokens are pruned first.\<close>

theorem verify_and_consume_ok_iff:
  assumes "authority_wf a"
  shows "(fst (verify_and_consume now k server_id scope a) = Inr True \<longleftrightarrow>
      (\<exists>t. token_get a k = Some t \<and> now < tok_expires_at_ms t \<and> tok_server_id t = server_id \<and>
           (tok_scope t = scope \<or> tok_scope t = ''*''))) \<and>
    fst (verify_and_consume now k server_id scope a) \<noteq> Inl ''token has expired'' \<and>
    fst (verify_and_consume now k server_id scope a) \<noteq> Inr False"
proof -
  have g: "hm_get (ta_tokens (prune now a)) k =
      (case token_get a k of Some t \<Rightarrow> if tok_expires_at_ms t > now then Some t else None | None \<Rightarrow> None)"
    using prune_get [OF assms, of now k] by (simp add: token_get_def)
  show ?thesis
    by (cases "token_get a k") (auto simp: verify_and_consume_def Let_def g token_is_valid_def)
qed

theorem verify_and_consume_ok_iff_witness:
  "fst (verify_and_consume 4 ''kyvon_tok_1'' ''s'' ''x'' (snd (issue_token ''1'' 3 ''s'' ''*'' (authority_new 60)))) = Inr True"
proof -
  have "authority_wf (snd (issue_token ''1'' 3 ''s'' ''*'' (authority_new 60)))"
    by (simp add: authority_wf_def issue_token_def authority_new_def Let_def)
  from verify_and_consume_ok_iff [OF this, of 4 "''kyvon_tok_1''" "''s''" "''x''"] show ?thesis
    by (simp add: issue_token_def token_get_def authority_new_def Let_def expiry_def i64_defs)
qed

text \<open>The lifetime of a token, for a clock that reads no time before the epoch: it expires exactly the given number of seconds after it was issued, capped at the largest 64-bit time and without overflow, and a zero or negative lifetime issues a token that is refused from the moment of issue.\<close>

theorem token_lifetime:
  assumes "0 \<le> now0" and "in_i64 now0" and "in_i64 (ta_ttl_seconds a)" and "authority_wf a" and "in_i64 now"
  shows "fst (verify_and_consume now (''kyvon_tok_'' @ uuid) server_id scope (snd (issue_token uuid now0 server_id scope a)))
      = (if now < min i64_max (now0 + max 0 (ta_ttl_seconds a) * 1000) then Inr True
         else Inl ''invalid or previously consumed token'') \<and>
    in_i64 (tok_expires_at_ms (fst (issue_token uuid now0 server_id scope a)))"
proof -
  let ?a = "snd (issue_token uuid now0 server_id scope a)" and ?k = "''kyvon_tok_'' @ uuid"
  have wf: "authority_wf ?a" using assms(4) by (simp add: authority_wf_def issue_token_def Let_def)
  have e: "expiry now0 (ta_ttl_seconds a) = min i64_max (now0 + max 0 (ta_ttl_seconds a) * 1000)"
    using assms(1-3) by (auto simp: expiry_def i64_defs min_def max_def)
  have t: "hm_get (ta_tokens ?a) ?k = Some (fst (issue_token uuid now0 server_id scope a))"
    by (simp add: issue_token_def Let_def)
  have "hm_get (ta_tokens (prune now ?a)) ?k =
      (if now < expiry now0 (ta_ttl_seconds a) then Some (fst (issue_token uuid now0 server_id scope a)) else None)"
    using prune_get [OF wf, of now ?k] t by (simp add: token_get_def issue_token_def Let_def)
  then have "fst (verify_and_consume now ?k server_id scope ?a) =
      (if now < expiry now0 (ta_ttl_seconds a) then Inr True else Inl ''invalid or previously consumed token'')"
    by (simp add: verify_and_consume_def Let_def token_is_valid_def issue_token_def)
  moreover have "in_i64 (tok_expires_at_ms (fst (issue_token uuid now0 server_id scope a)))"
    by (simp add: issue_token_def Let_def expiry_def saturating_add_def)
  ultimately show ?thesis unfolding e by simp
qed

theorem token_lifetime_witness:
  "fst (verify_and_consume 1000 (''kyvon_tok_'' @ ''1'') ''s'' ''x'' (snd (issue_token ''1'' 1000 ''s'' ''x'' (authority_new (-5))))) =
     Inl ''invalid or previously consumed token''"
  using token_lifetime [of 1000 "authority_new (-5)" 1000 "''1''" "''s''" "''x''"]
  by (simp add: authority_new_def authority_wf_def i64_defs)

end
