(* ===== verification/Mcp_Server.thy ===== *)
theory Mcp_Server
  imports Approvals Tokens
begin

text \<open>
  crates/kyvon-policy/src/mcp_server.rs and backend.rs: the MCP gateway. The parser and printers of
  JSON, the derived serialisers and the display of errors are third-party or generated code and are
  the fields of a \<open>Codec\<close>; the infrastructure backend is a record of its three queries.
\<close>

section \<open>Parameters\<close>

record MetricReading =
  mr_metric :: rstr
  mr_value :: "64 word"
  mr_recorded_at :: TimestampMs

record Codec =
  from_str :: "rstr \<Rightarrow> Json option"
  to_string_pretty :: "Json \<Rightarrow> rstr option"
  to_string_json :: "Json \<Rightarrow> rstr"
  ser_profile :: "ServerProfile \<Rightarrow> Json"
  ser_reading :: "MetricReading \<Rightarrow> Json"
  show_error :: "KyvonError \<Rightarrow> rstr"
  pkg_version :: rstr

record InfrastructureBackend =
  list_servers :: "ServerProfile list result"
  get_server :: "rstr \<Rightarrow> ServerProfile option result"
  latest_metrics :: "rstr \<Rightarrow> MetricReading list result"

record McpProtocolHandler =
  h_role :: McpRole
  h_token_auth :: TokenAuthority
  h_approval_gate :: ApprovalGate
  h_backend :: "InfrastructureBackend option"

definition handler_new :: "McpRole \<Rightarrow> McpProtocolHandler" where
  "handler_new role =
     \<lparr>h_role = role, h_token_auth = authority_new 60, h_approval_gate = gate_new, h_backend = None\<rparr>"

definition with_backend :: "InfrastructureBackend \<Rightarrow> McpProtocolHandler \<Rightarrow> McpProtocolHandler" where
  "with_backend b h = h\<lparr>h_backend := Some b\<rparr>"

definition STALE_AFTER_MS :: int where
  "STALE_AFTER_MS = 5 * 60 * 1000"

section \<open>Tool calls\<close>

definition tool_content :: "rstr \<Rightarrow> bool \<Rightarrow> Json" where
  "tool_content txt is_error =
     json_obj [(''content'', JArray [json_obj [(''type'', JString ''text''), (''text'', JString txt)]]),
               (''isError'', JBool is_error)]"

definition tool_ok :: "Codec \<Rightarrow> Json \<Rightarrow> Json" where
  "tool_ok c payload =
     (let safe = sanitize_json_value payload
      in tool_content (case to_string_pretty c safe of Some t \<Rightarrow> t | None \<Rightarrow> to_string_json c safe) False)"

definition tool_error :: "rstr \<Rightarrow> Json" where
  "tool_error message = tool_content message True"

primrec role_debug :: "McpRole \<Rightarrow> rstr" where
  "role_debug Observer = ''Observer''"
| "role_debug Developer = ''Developer''"
| "role_debug Operator = ''Operator''"
| "role_debug Administrator = ''Administrator''"

definition has_tag :: "rstr \<Rightarrow> ServerProfile \<Rightarrow> bool" where
  "has_tag t s \<longleftrightarrow> t \<in> set (sp_tags s)"

definition server_list_payload :: "Codec \<Rightarrow> rstr option \<Rightarrow> ServerProfile list \<Rightarrow> Json" where
  "server_list_payload c tag servers =
     (let matched = (case tag of Some t \<Rightarrow> filter (has_tag t) servers | None \<Rightarrow> servers)
      in json_obj [(''servers'', JArray (map (ser_profile c) matched)),
                   (''count'', JInt (int (length matched))),
                   (''filtered_by_tag'', case tag of Some t \<Rightarrow> JString t | None \<Rightarrow> JNull)])"

definition server_get_payload :: "Codec \<Rightarrow> rstr \<Rightarrow> ServerProfile option \<Rightarrow> Json" where
  "server_get_payload c i found =
     (case found of
        None \<Rightarrow> json_obj [(''found'', JBool False), (''server_id'', JString i),
                   (''detail'', JString ''No server with this id exists in the local inventory.'')]
      | Some s \<Rightarrow> json_obj [(''found'', JBool True), (''server'', ser_profile c s)])"

definition newest_reading :: "MetricReading list \<Rightarrow> TimestampMs" where
  "newest_reading rs = (case map mr_recorded_at rs of [] \<Rightarrow> 0 | t # ts \<Rightarrow> fold max ts t)"

definition health_payload :: "Codec \<Rightarrow> TimestampMs \<Rightarrow> rstr \<Rightarrow> MetricReading list \<Rightarrow> Json" where
  "health_payload c now i readings =
     (if readings = [] then
        json_obj [(''server_id'', JString i), (''measured'', JBool False),
          (''detail'', JString (''No telemetry has ever been recorded for this server. '' @
             ''Health cannot be assessed, and no value is being estimated.''))]
      else
        (let newest = newest_reading readings;
             age_ms = saturating_sub now newest;
             stale = age_ms > STALE_AFTER_MS
         in json_obj [(''server_id'', JString i), (''measured'', JBool True), (''stale'', JBool stale),
              (''as_of_ms'', JInt newest), (''age_ms'', JInt age_ms),
              (''readings'', JArray (map (ser_reading c) readings)),
              (''note'', JString
                (if stale then ''These are the last recorded values, but the newest is older '' @
                   ''than the collection interval '' @ [CHR 0xE2, CHR 0x80, CHR 0x94] @ '' the collector appears to have '' @
                   ''stopped. Do not treat them as current.''
                 else ''Last recorded values from the local store, not a live probe.''))]))"

text \<open>The read-only tools, once a backend is attached.\<close>

definition run_read_tool ::
  "Codec \<Rightarrow> TimestampMs \<Rightarrow> InfrastructureBackend \<Rightarrow> rstr \<Rightarrow> Json \<Rightarrow> Json" where
  "run_read_tool c now b name args =
     (let server_id = (case json_get ''server_id'' args of Some v \<Rightarrow> as_str v | None \<Rightarrow> None) in
      if name = ''kyvon_server_list'' then
        (let tag = (case json_get ''tag'' args of Some v \<Rightarrow> as_str v | None \<Rightarrow> None) in
         case list_servers b of
           Inr servers \<Rightarrow> tool_ok c (server_list_payload c tag servers)
         | Inl e \<Rightarrow> tool_error (''Could not read the inventory: '' @ show_error c e))
      else if name = ''kyvon_server_get'' then
        (case server_id of
           None \<Rightarrow> tool_error ([BQ] @ ''server_id'' @ [BQ] @ '' is required.'')
         | Some i \<Rightarrow>
             (case get_server b i of
                Inr found \<Rightarrow> tool_ok c (server_get_payload c i found)
              | Inl e \<Rightarrow> tool_error (''Could not read server '' @ [BQ] @ i @ [BQ] @ '': '' @ show_error c e)))
      else if name = ''kyvon_server_health'' then
        (case server_id of
           None \<Rightarrow> tool_error ([BQ] @ ''server_id'' @ [BQ] @ '' is required.'')
         | Some i \<Rightarrow>
             (case latest_metrics b i of
                Inr readings \<Rightarrow> tool_ok c (health_payload c now i readings)
              | Inl e \<Rightarrow> tool_error (''Could not read metrics for '' @ [BQ] @ i @ [BQ] @ '': '' @ show_error c e)))
      else
        tool_error (''Unavailable: '' @ [BQ] @ name @ [BQ] @ '' is not exposed by the backend attached to this '' @
          ''gateway. No operation was executed and no state was verified.''))"

definition dispatch_tool_call ::
  "Codec \<Rightarrow> TimestampMs \<Rightarrow> McpProtocolHandler \<Rightarrow> rstr \<Rightarrow> Json \<Rightarrow> Json" where
  "dispatch_tool_call c now h name args =
     (case find_tool name of
        None \<Rightarrow> tool_error ''Unknown tool. No operation was executed.''
      | Some tool_def \<Rightarrow>
          (case validate_arguments tool_def args of
             Inl message \<Rightarrow> tool_error message
           | Inr _ \<Rightarrow>
               if \<not> tool_is_read_only tool_def \<and> \<not> can_write (h_role h) then
                 tool_content (''Permission Denied: Current role ('' @ role_debug (h_role h) @
                   '') cannot invoke state-mutating tool '' @ [SQ] @ name @ [SQ]) True
               else if \<not> tool_is_read_only tool_def \<and> \<not> can_deploy_production (h_role h) then
                 tool_error ''Permission denied: trusted server and environment scopes are not configured.''
               else if \<not> tool_is_read_only tool_def then
                 tool_error (''Unavailable: trusted approval and execution bridges are not configured. '' @
                   ''No approval was created and no operation was executed.'')
               else
                 (case h_backend h of
                    None \<Rightarrow> tool_error (''Unavailable: this MCP gateway has no infrastructure backend attached. '' @
                      ''No operation was executed and no infrastructure state was verified.'')
                  | Some b \<Rightarrow> run_read_tool c now b name args)))"

section \<open>Requests\<close>

definition rpc_error :: "Json \<Rightarrow> int \<Rightarrow> rstr \<Rightarrow> Json" where
  "rpc_error i code message =
     json_obj [(''jsonrpc'', JString ''2.0''), (''id'', i),
               (''error'', json_obj [(''code'', JInt code), (''message'', JString message)])]"

definition rpc_result :: "Json \<Rightarrow> Json \<Rightarrow> Json" where
  "rpc_result i result = json_obj [(''jsonrpc'', JString ''2.0''), (''id'', i), (''result'', result)]"

definition tools_listing :: "McpRole \<Rightarrow> McpToolDefinition list" where
  "tools_listing role =
     filter (\<lambda>t. if \<not> can_write role then tool_is_read_only t else True) get_kyvon_mcp_tools"

definition tool_json :: "McpToolDefinition \<Rightarrow> Json" where
  "tool_json t =
     json_obj [(''name'', JString (tool_name t)), (''description'', JString (tool_description t)),
               (''inputSchema'', tool_input_schema t)]"

text \<open>The methods whose response passes through the redaction at the end of the handler.\<close>

definition plain_method :: "Codec \<Rightarrow> McpRole \<Rightarrow> rstr \<Rightarrow> Json option" where
  "plain_method c role method =
     (if method = ''initialize'' then
        Some (json_obj [(''protocolVersion'', JString ''2024-11-05''),
          (''capabilities'', json_obj [(''tools'', json_obj [])]),
          (''serverInfo'', json_obj [(''name'', JString ''kyvonops-mcp''), (''version'', JString (pkg_version c))])])
      else if method = ''tools/list'' then
        Some (json_obj [(''tools'', JArray (map tool_json (tools_listing role)))])
      else if method = ''resources/list'' then Some (json_obj [(''resources'', JArray [])])
      else if method = ''prompts/list'' then Some (json_obj [(''prompts'', JArray [])])
      else if method = ''ping'' then Some (json_obj [])
      else None)"

definition valid_id :: "Json \<Rightarrow> bool" where
  "valid_id i \<longleftrightarrow> is_string i \<or> is_number i \<or> i = JNull"

definition valid_envelope :: "Json \<Rightarrow> bool" where
  "valid_envelope req \<longleftrightarrow>
     is_object req \<and> json_index req ''jsonrpc'' = JString ''2.0'' \<and> is_string (json_index req ''method'') \<and>
     (case json_get ''id'' req of Some i \<Rightarrow> valid_id i | None \<Rightarrow> False)"

definition handle_rpc :: "Codec \<Rightarrow> TimestampMs \<Rightarrow> McpProtocolHandler \<Rightarrow> rstr \<Rightarrow> Json" where
  "handle_rpc c now h request_json =
     (case from_str c request_json of
        None \<Rightarrow> rpc_error JNull (-32700) ''Invalid JSON''
      | Some req \<Rightarrow>
          if \<not> valid_envelope req then rpc_error JNull (-32600) ''Invalid request''
          else
            (let i = (case json_get ''id'' req of Some i \<Rightarrow> i | None \<Rightarrow> JNull) in
             if (case json_get ''params'' req of Some ps \<Rightarrow> \<not> is_object ps | None \<Rightarrow> False)
             then rpc_error i (-32602) ''Parameters must be an object''
             else
               (let method = (case json_get ''method'' req of
                                Some m \<Rightarrow> (case as_str m of Some s \<Rightarrow> s | None \<Rightarrow> []) | None \<Rightarrow> []);
                    params = (case json_get ''params'' req of Some ps \<Rightarrow> ps | None \<Rightarrow> json_obj [])
                in if method = ''tools/call'' then
                     (let name = (case json_get ''name'' params of
                                    Some n \<Rightarrow> (case as_str n of Some s \<Rightarrow> s | None \<Rightarrow> []) | None \<Rightarrow> []);
                          args = (case json_get ''arguments'' params of Some a \<Rightarrow> a | None \<Rightarrow> json_obj [])
                      in rpc_result i (dispatch_tool_call c now h name args))
                   else
                     (case plain_method c (h_role h) method of
                        None \<Rightarrow> rpc_error i (-32601) ''Method not found''
                      | Some response \<Rightarrow> rpc_result i (sanitize_json_value response)))))"

definition is_notification :: "Json \<Rightarrow> bool" where
  "is_notification req \<longleftrightarrow>
     is_object req \<and> json_index req ''jsonrpc'' = JString ''2.0'' \<and> is_string (json_index req ''method'') \<and>
     json_get ''id'' req = None \<and> (case json_get ''params'' req of Some ps \<Rightarrow> is_object ps | None \<Rightarrow> True)"

definition handle_message :: "Codec \<Rightarrow> TimestampMs \<Rightarrow> McpProtocolHandler \<Rightarrow> rstr \<Rightarrow> Json option" where
  "handle_message c now h request_json =
     (case from_str c request_json of
        Some req \<Rightarrow> if is_notification req then None else Some (handle_rpc c now h request_json)
      | None \<Rightarrow> Some (handle_rpc c now h request_json))"

section \<open>Fields of constructed objects\<close>

lemma json_get_obj [simp]: "json_get k (json_obj kvs) = map_of (rev kvs) k"
  by (simp add: json_get_def map_of_bt_of_list)

definition is_error :: "Json \<Rightarrow> bool" where
  "is_error r \<longleftrightarrow> json_index r ''isError'' = JBool True"

lemma is_error_content [simp]: "is_error (tool_content txt e) = e"
  by (simp add: is_error_def json_index_def tool_content_def)

lemma is_error_error [simp]: "is_error (tool_error m)"
  by (simp add: tool_error_def)

lemma is_error_ok [simp]: "\<not> is_error (tool_ok c payload)"
  by (simp add: tool_ok_def Let_def)

lemma newest_reading_max:
  assumes "rs \<noteq> []"
  shows "newest_reading rs \<in> mr_recorded_at ` set rs \<and> (\<forall>r \<in> set rs. mr_recorded_at r \<le> newest_reading rs)"
proof -
  have "newest_reading rs = Max (mr_recorded_at ` set rs)"
  proof (cases rs)
    case (Cons a l)
    then show ?thesis
      using Max.set_eq_fold [of "mr_recorded_at a" "map mr_recorded_at l"] by (simp add: newest_reading_def)
  qed (use assms in simp)
  then show ?thesis using assms by simp
qed

section \<open>Properties\<close>

text \<open>C16. No write reaches anything: a call of a tool that is not read-only is answered with an error for every role, and the answer depends on nothing but the role, the tool and the arguments; no backend, token, pending approval or clock has a part in it.\<close>

theorem write_tools_refused:
  assumes "find_tool name = Some t" and "\<not> tool_is_read_only t"
  shows "is_error (dispatch_tool_call c now h name args) \<and>
    (h_role h' = h_role h \<longrightarrow> dispatch_tool_call c' now' h' name args = dispatch_tool_call c now h name args)"
  using assms by (auto simp: dispatch_tool_call_def split: sum.splits)

definition null_codec :: Codec where
  "null_codec = \<lparr>from_str = (\<lambda>s. if s = ''x'' then Some (JObject []) else None), to_string_pretty = (\<lambda>v. Some ''{}''),
     to_string_json = (\<lambda>v. ''{}''), ser_profile = (\<lambda>p. JString (sp_id p)), ser_reading = (\<lambda>r. JInt (mr_recorded_at r)),
     show_error = (\<lambda>e. ''error''), pkg_version = ''0.1.0''\<rparr>"

theorem write_tools_refused_witness:
  "is_error (dispatch_tool_call null_codec 0 (handler_new Administrator) ''kyvon_reload_nginx'' (JObject [(''server_id'', JString ''s'')]))"
proof -
  have "find_tool ''kyvon_reload_nginx'' = Some (write_tools ! 0)" "\<not> tool_is_read_only (write_tools ! 0)" by code_simp+
  then show ?thesis using write_tools_refused by blast
qed



text \<open>Health answers carry the age of their evidence: with no sample the payload says that nothing was measured; otherwise its as-of time is that of the newest sample, and it is marked stale exactly when that sample is more than five minutes old.\<close>

theorem health_payload_dated:
  assumes "in_i64 now" and "list_all (\<lambda>r. in_i64 (mr_recorded_at r) \<and> 0 \<le> mr_recorded_at r) rs" and "0 \<le> now"
  shows "(rs = [] \<longrightarrow> json_index (health_payload c now i rs) ''measured'' = JBool False) \<and>
    (rs \<noteq> [] \<longrightarrow>
      json_index (health_payload c now i rs) ''measured'' = JBool True \<and>
      json_index (health_payload c now i rs) ''as_of_ms'' = JInt (Max (mr_recorded_at ` set rs)) \<and>
      json_index (health_payload c now i rs) ''stale'' = JBool (now - Max (mr_recorded_at ` set rs) > 300000))"
proof (intro conjI impI)
  assume "rs = []"
  then show "json_index (health_payload c now i rs) ''measured'' = JBool False"
    by (simp add: health_payload_def json_index_def)
next
  assume rs: "rs \<noteq> []"
  have m: "newest_reading rs = Max (mr_recorded_at ` set rs)"
    using newest_reading_max [OF rs] by (intro Max_eqI [symmetric]) auto
  have "in_i64 (newest_reading rs)" "0 \<le> newest_reading rs"
    using newest_reading_max [OF rs] assms(2) by (auto simp: list_all_iff)
  then have sub: "saturating_sub now (newest_reading rs) = now - newest_reading rs"
    using assms(1,3) by (auto simp: i64_defs)
  show "json_index (health_payload c now i rs) ''measured'' = JBool True"
    "json_index (health_payload c now i rs) ''as_of_ms'' = JInt (Max (mr_recorded_at ` set rs))"
    "json_index (health_payload c now i rs) ''stale'' = JBool (now - Max (mr_recorded_at ` set rs) > 300000)"
    using rs by (simp_all add: health_payload_def json_index_def Let_def m [symmetric] sub STALE_AFTER_MS_def)
qed

theorem health_payload_dated_witness:
  "json_index (health_payload null_codec 400000 ''s'' [\<lparr>mr_metric = ''cpu'', mr_value = 0, mr_recorded_at = 5\<rparr>]) ''stale'' = JBool True"
  using health_payload_dated [of 400000 "[\<lparr>mr_metric = ''cpu'', mr_value = 0, mr_recorded_at = 5\<rparr>]" null_codec "''s''"]
  by (simp add: i64_defs)

text \<open>The protocol envelope: a message is left unanswered exactly when it is a well-formed notification; every answer carries the version, the identifier of the request (null when the request has no valid envelope), and either a result or an error but not both.\<close>

theorem rpc_envelope:
  "(handle_message c now h msg = None \<longleftrightarrow> (\<exists>req. from_str c msg = Some req \<and> is_notification req)) \<and>
   json_get ''jsonrpc'' (handle_rpc c now h msg) = Some (JString ''2.0'') \<and>
   json_get ''id'' (handle_rpc c now h msg) =
     Some (case from_str c msg of
             Some req \<Rightarrow> if valid_envelope req then the (json_get ''id'' req) else JNull | None \<Rightarrow> JNull) \<and>
   ((json_get ''result'' (handle_rpc c now h msg) = None) \<noteq> (json_get ''error'' (handle_rpc c now h msg) = None))"
proof -
  have e: "json_get ''jsonrpc'' (rpc_error i n m) = Some (JString ''2.0'')" "json_get ''id'' (rpc_error i n m) = Some i"
    "json_get ''result'' (rpc_error i n m) = None" "json_get ''error'' (rpc_error i n m) \<noteq> None" for i n m
    by (simp_all add: rpc_error_def)
  have r: "json_get ''jsonrpc'' (rpc_result i v) = Some (JString ''2.0'')" "json_get ''id'' (rpc_result i v) = Some i"
    "json_get ''result'' (rpc_result i v) \<noteq> None" "json_get ''error'' (rpc_result i v) = None" for i v
    by (simp_all add: rpc_result_def)
  have "(\<exists>n m. handle_rpc c now h msg = rpc_error j n m) \<or> (\<exists>v. handle_rpc c now h msg = rpc_result j v)"
    if "j = (case from_str c msg of
             Some req \<Rightarrow> if valid_envelope req then the (json_get ''id'' req) else JNull | None \<Rightarrow> JNull)" for j
  proof (cases "from_str c msg")
    case None
    then show ?thesis using that by (auto simp: handle_rpc_def)
  next
    case (Some req)
    show ?thesis
    proof (cases "valid_envelope req")
      case True
      then obtain i where "json_get ''id'' req = Some i" by (auto simp: valid_envelope_def split: option.splits)
      then show ?thesis using that True Some by (simp add: handle_rpc_def Let_def split: option.splits) blast
    next
      case False
      then show ?thesis using that Some by (auto simp: handle_rpc_def)
    qed
  qed
  then consider n m where "handle_rpc c now h msg = rpc_error (case from_str c msg of
             Some req \<Rightarrow> if valid_envelope req then the (json_get ''id'' req) else JNull | None \<Rightarrow> JNull) n m"
    | v where "handle_rpc c now h msg = rpc_result (case from_str c msg of
             Some req \<Rightarrow> if valid_envelope req then the (json_get ''id'' req) else JNull | None \<Rightarrow> JNull) v" by blast
  then show ?thesis
    by cases (auto simp: e r handle_message_def split: option.splits)
qed

end
