(* ===== verification/Inventory.thy ===== *)
theory Inventory
  imports Core_Types "HOL-Library.Product_Lexorder"
begin

text \<open>
  The store of the inventory and its telemetry: the tables of database/migrations that the two
  repositories share, and crates/kyvon-storage/src/servers.rs. The JSON columns hold text; their
  encoders and decoders are the fields of \<open>Columns\<close>. A database failure is an argument of every call.
\<close>

section \<open>Tables\<close>

record server_row =
  sr_id :: rstr
  sr_alias :: rstr
  sr_hostname :: rstr
  sr_port :: int
  sr_username :: rstr
  sr_auth_json :: rstr
  sr_tags_json :: rstr
  sr_facts_json :: "rstr option"
  sr_created_at :: TimestampMs
  sr_updated_at :: TimestampMs

record sample_row =
  sa_server_id :: rstr
  sa_metric :: rstr
  sa_ts :: TimestampMs
  sa_value :: "64 word"

record aggregate_row =
  ag_server_id :: rstr
  ag_metric :: rstr
  ag_resolution :: rstr
  ag_bucket_start :: TimestampMs
  ag_avg :: "64 word"
  ag_min :: "64 word"
  ag_max :: "64 word"
  ag_p95 :: "64 word"
  ag_samples :: int

record Store =
  st_servers :: "server_row list"
  st_samples :: "sample_row list"
  st_aggregates :: "aggregate_row list"

definition store_empty :: Store where
  "store_empty = \<lparr>st_servers = [], st_samples = [], st_aggregates = []\<rparr>"

type_synonym db_fault = "rstr option"

record Columns =
  enc_auth :: "AuthMethod \<Rightarrow> rstr"
  dec_auth :: "rstr \<Rightarrow> AuthMethod result"
  enc_tags :: "rstr list \<Rightarrow> rstr"
  dec_tags :: "rstr \<Rightarrow> rstr list result"
  enc_facts :: "HostFacts \<Rightarrow> rstr"
  dec_facts :: "rstr \<Rightarrow> HostFacts result"

text \<open>What the JSON library documents, for the values of a profile: decoding gives back what was encoded.\<close>

definition columns_ok :: "Columns \<Rightarrow> ServerProfile \<Rightarrow> bool" where
  "columns_ok c p \<longleftrightarrow>
     dec_auth c (enc_auth c (sp_auth p)) = Inr (sp_auth p) \<and> dec_tags c (enc_tags c (sp_tags p)) = Inr (sp_tags p) \<and>
     (case sp_facts p of None \<Rightarrow> True | Some f \<Rightarrow> dec_facts c (enc_facts c f) = Inr f)"

section \<open>The server repository\<close>

definition name_taken :: "rstr \<Rightarrow> KyvonError" where
  "name_taken alias =
     Invalid (''another server is already named '' @ [BQ] @ alias @ [BQ] @ '' '' @ [CHR 0xE2, CHR 0x80, CHR 0x94] @
       '' names must be unique'')"

definition new_row :: "Columns \<Rightarrow> TimestampMs \<Rightarrow> ServerProfile \<Rightarrow> server_row" where
  "new_row c now p =
     \<lparr>sr_id = sp_id p, sr_alias = sp_alias p, sr_hostname = sp_hostname p, sr_port = uint (sp_port p),
      sr_username = sp_username p, sr_auth_json = enc_auth c (sp_auth p), sr_tags_json = enc_tags c (sp_tags p),
      sr_facts_json = map_option (enc_facts c) (sp_facts p),
      sr_created_at = (if sp_created_at p > 0 then sp_created_at p else now), sr_updated_at = now\<rparr>"

text \<open>The conflict clause: the facts of the old row survive a profile without facts, and so does its creation time.\<close>

definition merge_row :: "server_row \<Rightarrow> server_row \<Rightarrow> server_row" where
  "merge_row new old =
     new\<lparr>sr_facts_json := (case sr_facts_json new of Some f \<Rightarrow> Some f | None \<Rightarrow> sr_facts_json old),
         sr_created_at := sr_created_at old\<rparr>"

definition find_server :: "rstr \<Rightarrow> Store \<Rightarrow> server_row option" where
  "find_server i st = find (\<lambda>r. sr_id r = i) (st_servers st)"

definition upsert :: "Columns \<Rightarrow> db_fault \<Rightarrow> TimestampMs \<Rightarrow> ServerProfile \<Rightarrow> Store \<Rightarrow> unit result \<times> Store" where
  "upsert c fault now p st =
     (case validate p of
        Inl e \<Rightarrow> (Inl e, st)
      | Inr _ \<Rightarrow>
          (case fault of
             Some e \<Rightarrow> (Inl (Storage e), st)
           | None \<Rightarrow>
               if list_ex (\<lambda>r. sr_alias r = sp_alias p \<and> sr_id r \<noteq> sp_id p) (st_servers st)
               then (Inl (name_taken (sp_alias p)), st)
               else (case find_server (sp_id p) st of
                       None \<Rightarrow> (Inr (), st\<lparr>st_servers := st_servers st @ [new_row c now p]\<rparr>)
                     | Some _ \<Rightarrow>
                         (Inr (), st\<lparr>st_servers :=
                            map (\<lambda>r. if sr_id r = sp_id p then merge_row (new_row c now p) r else r) (st_servers st)\<rparr>))))"

definition row_to_profile :: "Columns \<Rightarrow> server_row \<Rightarrow> ServerProfile result" where
  "row_to_profile c r =
     (case dec_auth c (sr_auth_json r) of
        Inl e \<Rightarrow> Inl e
      | Inr auth \<Rightarrow>
          (case dec_tags c (sr_tags_json r) of
             Inl e \<Rightarrow> Inl e
           | Inr tags \<Rightarrow>
               (case (case sr_facts_json r of None \<Rightarrow> Inr None
                      | Some f \<Rightarrow> (case dec_facts c f of Inl e \<Rightarrow> Inl e | Inr x \<Rightarrow> Inr (Some x))) of
                  Inl e \<Rightarrow> Inl e
                | Inr facts \<Rightarrow>
                    Inr \<lparr>sp_id = sr_id r, sp_alias = sr_alias r, sp_hostname = sr_hostname r,
                         sp_port = word_of_int (sr_port r), sp_username = sr_username r, sp_auth = auth,
                         sp_tags = tags, sp_facts = facts, sp_created_at = sr_created_at r,
                         sp_updated_at = sr_updated_at r\<rparr>)))"

definition get :: "Columns \<Rightarrow> db_fault \<Rightarrow> rstr \<Rightarrow> Store \<Rightarrow> ServerProfile option result" where
  "get c fault i st =
     (case fault of
        Some e \<Rightarrow> Inl (Storage e)
      | None \<Rightarrow>
          (case find_server i st of
             None \<Rightarrow> Inr None
           | Some r \<Rightarrow> (case row_to_profile c r of Inl e \<Rightarrow> Inl e | Inr p \<Rightarrow> Inr (Some p))))"

definition require :: "Columns \<Rightarrow> db_fault \<Rightarrow> rstr \<Rightarrow> Store \<Rightarrow> ServerProfile result" where
  "require c fault i st =
     (case get c fault i st of
        Inl e \<Rightarrow> Inl e | Inr None \<Rightarrow> Inl (UnknownServer i) | Inr (Some p) \<Rightarrow> Inr p)"

fun collect_results :: "(KyvonError + 'a) list \<Rightarrow> 'a list result" where
  "collect_results [] = Inr []"
| "collect_results (Inl e # xs) = Inl e"
| "collect_results (Inr x # xs) = (case collect_results xs of Inl e \<Rightarrow> Inl e | Inr ys \<Rightarrow> Inr (x # ys))"

text \<open>\<open>ORDER BY alias COLLATE NOCASE\<close>: ASCII letters compare without case.\<close>

definition list_all_servers :: "Columns \<Rightarrow> db_fault \<Rightarrow> Store \<Rightarrow> ServerProfile list result" where
  "list_all_servers c fault st =
     (case fault of
        Some e \<Rightarrow> Inl (Storage e)
      | None \<Rightarrow> collect_results (map (row_to_profile c) (sort_key (\<lambda>r. to_ascii_lowercase (sr_alias r)) (st_servers st))))"

definition set_facts :: "Columns \<Rightarrow> db_fault \<Rightarrow> TimestampMs \<Rightarrow> rstr \<Rightarrow> HostFacts \<Rightarrow> Store \<Rightarrow> unit result \<times> Store" where
  "set_facts c fault now i facts st =
     (case fault of
        Some e \<Rightarrow> (Inl (Storage e), st)
      | None \<Rightarrow>
          if find_server i st = None then (Inl (UnknownServer i), st)
          else (Inr (), st\<lparr>st_servers :=
            map (\<lambda>r. if sr_id r = i then r\<lparr>sr_facts_json := Some (enc_facts c facts), sr_updated_at := now\<rparr> else r) (st_servers st)\<rparr>))"

text \<open>Deleting a server cascades to its samples and aggregates.\<close>

definition delete :: "db_fault \<Rightarrow> rstr \<Rightarrow> Store \<Rightarrow> unit result \<times> Store" where
  "delete fault i st =
     (case fault of
        Some e \<Rightarrow> (Inl (Storage e), st)
      | None \<Rightarrow>
          (Inr (), \<lparr>st_servers = filter (\<lambda>r. sr_id r \<noteq> i) (st_servers st),
                    st_samples = filter (\<lambda>s. sa_server_id s \<noteq> i) (st_samples st),
                    st_aggregates = filter (\<lambda>a. ag_server_id a \<noteq> i) (st_aggregates st)\<rparr>))"

end
