(* ===== verification/Metrics.thy ===== *)
theory Metrics
  imports Inventory
begin

text \<open>
  Telemetry history: the retention tiers of crates/kyvon-core/src/telemetry.rs and the repository
  crates/kyvon-storage/src/metrics.rs. A sample value is the bit pattern of a finite double, ordered as
  the number it stands for; SQLite's AVG is a parameter. Every SQL statement is a function on the tables.
\<close>

section \<open>Retention tiers\<close>

datatype Resolution = Raw | OneMinute | FiveMinute | Hourly

primrec bucket_ms :: "Resolution \<Rightarrow> int" where
  "bucket_ms Raw = 0"
| "bucket_ms OneMinute = 60000"
| "bucket_ms FiveMinute = 300000"
| "bucket_ms Hourly = 3600000"

primrec retention_ms :: "Resolution \<Rightarrow> int" where
  "retention_ms Raw = 24 * 3600000"
| "retention_ms OneMinute = 7 * 24 * 3600000"
| "retention_ms FiveMinute = 30 * 24 * 3600000"
| "retention_ms Hourly = 365 * 24 * 3600000"

primrec resolution_as_str :: "Resolution \<Rightarrow> rstr" where
  "resolution_as_str Raw = ''raw''"
| "resolution_as_str OneMinute = ''1m''"
| "resolution_as_str FiveMinute = ''5m''"
| "resolution_as_str Hourly = ''1h''"

definition for_window :: "int \<Rightarrow> Resolution" where
  "for_window w =
     (if w \<le> 3600000 then Raw
      else if w \<le> 6 * 3600000 then OneMinute
      else if w \<le> 7 * 24 * 3600000 then FiveMinute
      else Hourly)"

section \<open>Values\<close>

text \<open>The order of finite doubles on their bit patterns: sign and magnitude.\<close>

definition f64_key :: "64 word \<Rightarrow> int" where
  "f64_key w = (if uint w \<ge> 2 ^ 63 then - (uint w - 2 ^ 63) else uint w)"

definition f64_max :: "64 word list \<Rightarrow> 64 word" where
  "f64_max vs = fold (\<lambda>v m. if f64_key m < f64_key v then v else m) (tl vs) (hd vs)"

definition f64_min :: "64 word list \<Rightarrow> 64 word" where
  "f64_min vs = fold (\<lambda>v m. if f64_key v < f64_key m then v else m) (tl vs) (hd vs)"

text \<open>The remainder of SQL, which has the sign of the dividend.\<close>

definition sql_mod :: "int \<Rightarrow> int \<Rightarrow> int" where
  "sql_mod a b = (if a < 0 then - ((- a) mod b) else a mod b)"

section \<open>Raw samples\<close>

definition sa_key :: "sample_row \<Rightarrow> rstr \<times> rstr \<times> TimestampMs" where
  "sa_key s = (sa_server_id s, sa_metric s, sa_ts s)"

definition upsert_sample :: "sample_row \<Rightarrow> sample_row list \<Rightarrow> sample_row list" where
  "upsert_sample s rows =
     (if list_ex (\<lambda>r. sa_key r = sa_key s) rows
      then map (\<lambda>r. if sa_key r = sa_key s then s else r) rows else rows @ [s])"

text \<open>
  One transaction: with a sample of a server that does not exist the foreign key fails (the message is
  the database's) and nothing is written.
\<close>

definition insert_samples ::
  "db_fault \<Rightarrow> rstr \<Rightarrow> rstr \<Rightarrow> (rstr \<times> TimestampMs \<times> 64 word) list \<Rightarrow> Store \<Rightarrow> unit result \<times> Store" where
  "insert_samples fault fk_message server_id samples st =
     (if samples = [] then (Inr (), st)
      else case fault of
        Some e \<Rightarrow> (Inl (Storage e), st)
      | None \<Rightarrow>
          if find_server server_id st = None then (Inl (Storage fk_message), st)
          else (Inr (), st\<lparr>st_samples :=
            fold (\<lambda>(metric, ts, v). upsert_sample \<lparr>sa_server_id = server_id, sa_metric = metric, sa_ts = ts, sa_value = v\<rparr>)
              samples (st_samples st)\<rparr>))"

definition series :: "db_fault \<Rightarrow> rstr \<Rightarrow> rstr \<Rightarrow> TimestampMs \<Rightarrow> TimestampMs \<Rightarrow> Store \<Rightarrow> (TimestampMs \<times> 64 word) list result" where
  "series fault server_id metric from until st =
     (case fault of
        Some e \<Rightarrow> Inl (Storage e)
      | None \<Rightarrow>
          (let res = for_window (until - from) in
           if res = Raw then
             Inr (map (\<lambda>s. (sa_ts s, sa_value s)) (sort_key sa_ts
               (filter (\<lambda>s. sa_server_id s = server_id \<and> sa_metric s = metric \<and> from \<le> sa_ts s \<and> sa_ts s \<le> until) (st_samples st))))
           else
             Inr (map (\<lambda>a. (ag_bucket_start a, ag_avg a)) (sort_key ag_bucket_start
               (filter (\<lambda>a. ag_server_id a = server_id \<and> ag_metric a = metric \<and> ag_resolution a = resolution_as_str res \<and>
                  from \<le> ag_bucket_start a \<and> ag_bucket_start a \<le> until) (st_aggregates st))))))"

definition metrics_of :: "rstr \<Rightarrow> Store \<Rightarrow> rstr list" where
  "metrics_of server_id st = sort (remdups (map sa_metric (filter (\<lambda>s. sa_server_id s = server_id) (st_samples st))))"

definition known_metrics :: "db_fault \<Rightarrow> rstr \<Rightarrow> Store \<Rightarrow> rstr list result" where
  "known_metrics fault server_id st = (case fault of Some e \<Rightarrow> Inl (Storage e) | None \<Rightarrow> Inr (metrics_of server_id st))"

definition newest_sample :: "rstr \<Rightarrow> rstr \<Rightarrow> Store \<Rightarrow> sample_row" where
  "newest_sample server_id metric st =
     last (sort_key sa_ts (filter (\<lambda>s. sa_server_id s = server_id \<and> sa_metric s = metric) (st_samples st)))"

definition latest_per_metric :: "db_fault \<Rightarrow> rstr \<Rightarrow> Store \<Rightarrow> (rstr \<times> TimestampMs \<times> 64 word) list result" where
  "latest_per_metric fault server_id st =
     (case fault of
        Some e \<Rightarrow> Inl (Storage e)
      | None \<Rightarrow>
          Inr (map (\<lambda>m. (m, sa_ts (newest_sample server_id m st), sa_value (newest_sample server_id m st)))
                 (metrics_of server_id st)))"

section \<open>Rollups and retention\<close>

definition bucket_start :: "int \<Rightarrow> TimestampMs \<Rightarrow> TimestampMs" where
  "bucket_start width ts = ts - sql_mod ts width"

definition bucket_key :: "int \<Rightarrow> sample_row \<Rightarrow> rstr \<times> rstr \<times> TimestampMs" where
  "bucket_key width s = (sa_server_id s, sa_metric s, bucket_start width (sa_ts s))"

definition p95_rank :: "nat \<Rightarrow> nat" where
  "p95_rank n = (n * 95 + 99) div 100"

text \<open>One group of the statement: the values in order, ranked from 1.\<close>

definition bucket_row :: "(64 word list \<Rightarrow> 64 word) \<Rightarrow> rstr \<Rightarrow> rstr \<times> rstr \<times> TimestampMs \<Rightarrow> 64 word list \<Rightarrow> aggregate_row" where
  "bucket_row avg res k vals =
     (let vs = sort_key f64_key vals
      in \<lparr>ag_server_id = fst k, ag_metric = fst (snd k), ag_resolution = res, ag_bucket_start = snd (snd k),
          ag_avg = avg vs, ag_min = f64_min vs, ag_max = f64_max vs,
          ag_p95 = f64_max (take (p95_rank (length vs)) vs), ag_samples = int (length vs)\<rparr>)"

definition ag_key :: "aggregate_row \<Rightarrow> rstr \<times> rstr \<times> rstr \<times> TimestampMs" where
  "ag_key a = (ag_server_id a, ag_metric a, ag_resolution a, ag_bucket_start a)"

definition upsert_aggregate :: "aggregate_row \<Rightarrow> aggregate_row list \<Rightarrow> aggregate_row list" where
  "upsert_aggregate a rows =
     (if list_ex (\<lambda>r. ag_key r = ag_key a) rows
      then map (\<lambda>r. if ag_key r = ag_key a then a else r) rows else rows @ [a])"

definition rollup_rows :: "(64 word list \<Rightarrow> 64 word) \<Rightarrow> Resolution \<Rightarrow> TimestampMs \<Rightarrow> sample_row list \<Rightarrow> aggregate_row list" where
  "rollup_rows avg res before samples =
     (let width = bucket_ms res; old = filter (\<lambda>s. sa_ts s < before) samples
      in map (\<lambda>k. bucket_row avg (resolution_as_str res) k (map sa_value (filter (\<lambda>s. bucket_key width s = k) old)))
           (remdups (map (bucket_key width) old)))"

definition roll_up :: "(64 word list \<Rightarrow> 64 word) \<Rightarrow> db_fault \<Rightarrow> Resolution \<Rightarrow> TimestampMs \<Rightarrow> Store \<Rightarrow> nat result \<times> Store" where
  "roll_up avg fault res before st =
     (if bucket_ms res \<le> 0 then (Inr 0, st)
      else case fault of
        Some e \<Rightarrow> (Inl (Storage e), st)
      | None \<Rightarrow>
          (let rows = rollup_rows avg res before (st_samples st)
           in (Inr (length rows), st\<lparr>st_aggregates := fold upsert_aggregate rows (st_aggregates st)\<rparr>)))"

definition expired_sample :: "TimestampMs \<Rightarrow> sample_row \<Rightarrow> bool" where
  "expired_sample now s \<longleftrightarrow> sa_ts s < now - retention_ms Raw"

definition expired_in :: "TimestampMs \<Rightarrow> Resolution \<Rightarrow> aggregate_row \<Rightarrow> bool" where
  "expired_in now res a \<longleftrightarrow> ag_resolution a = resolution_as_str res \<and> ag_bucket_start a < now - retention_ms res"

text \<open>
  Pruning is four statements, one per tier; each may fail, and what was deleted before stays deleted.
  The first argument lists what each statement reports.
\<close>

definition fault_at :: "db_fault list \<Rightarrow> db_fault" where
  "fault_at fs = (case fs of [] \<Rightarrow> None | f # _ \<Rightarrow> f)"

fun prune_tiers :: "db_fault list \<Rightarrow> TimestampMs \<Rightarrow> Resolution list \<Rightarrow> nat \<Rightarrow> Store \<Rightarrow> nat result \<times> Store" where
  "prune_tiers fs now [] removed st = (Inr removed, st)"
| "prune_tiers fs now (res # rest) removed st =
     (case fault_at fs of
        Some e \<Rightarrow> (Inl (Storage e), st)
      | None \<Rightarrow>
          prune_tiers (tl fs) now rest (removed + length (filter (expired_in now res) (st_aggregates st)))
            (st\<lparr>st_aggregates := filter (\<lambda>a. \<not> expired_in now res a) (st_aggregates st)\<rparr>))"

definition prune :: "db_fault list \<Rightarrow> TimestampMs \<Rightarrow> Store \<Rightarrow> nat result \<times> Store" where
  "prune fs now st =
     (case fault_at fs of
        Some e \<Rightarrow> (Inl (Storage e), st)
      | None \<Rightarrow>
          prune_tiers (tl fs) now [OneMinute, FiveMinute, Hourly] (length (filter (expired_sample now) (st_samples st)))
            (st\<lparr>st_samples := filter (\<lambda>s. \<not> expired_sample now s) (st_samples st)\<rparr>))"

definition aggregate :: "db_fault \<Rightarrow> rstr \<Rightarrow> rstr \<Rightarrow> Resolution \<Rightarrow> TimestampMs \<Rightarrow> Store \<Rightarrow> aggregate_row option result" where
  "aggregate fault server_id metric res start st =
     (case fault of
        Some e \<Rightarrow> Inl (Storage e)
      | None \<Rightarrow> Inr (find (\<lambda>a. ag_key a = (server_id, metric, resolution_as_str res, start)) (st_aggregates st)))"

section \<open>Order statistics of a bucket\<close>

lemma f64_max_in: "xs \<noteq> [] \<Longrightarrow> f64_max xs \<in> set xs"
proof -
  have "fold (\<lambda>v m. if f64_key m < f64_key v then v else m) ys m \<in> insert m (set ys)" for ys m
    by (induction ys arbitrary: m) fastforce+
  then show "xs \<noteq> [] \<Longrightarrow> f64_max xs \<in> set xs" by (cases xs) (auto simp: f64_max_def)
qed

lemma f64_max_ge: "x \<in> set xs \<Longrightarrow> f64_key x \<le> f64_key (f64_max xs)"
proof -
  have "f64_key x \<le> f64_key (fold (\<lambda>v m. if f64_key m < f64_key v then v else m) ys m)"
    if "x \<in> insert m (set ys)" for ys m
    using that
  proof (induction ys arbitrary: m x)
    case (Cons y ys)
    let ?m = "if f64_key m < f64_key y then y else m"
    have "f64_key x \<le> f64_key ?m \<or> x \<in> insert ?m (set ys)" using Cons.prems by auto
    then show ?case using Cons.IH [of x ?m] Cons.IH [of ?m ?m] by auto
  qed simp
  then show "x \<in> set xs \<Longrightarrow> f64_key x \<le> f64_key (f64_max xs)" by (cases xs) (auto simp: f64_max_def)
qed

lemma f64_min_le: "x \<in> set xs \<Longrightarrow> f64_key (f64_min xs) \<le> f64_key x"
proof -
  have "f64_key (fold (\<lambda>v m. if f64_key v < f64_key m then v else m) ys m) \<le> f64_key x"
    if "x \<in> insert m (set ys)" for ys m
    using that
  proof (induction ys arbitrary: m x)
    case (Cons y ys)
    let ?m = "if f64_key y < f64_key m then y else m"
    have "f64_key ?m \<le> f64_key x \<or> x \<in> insert ?m (set ys)" using Cons.prems by auto
    then show ?case using Cons.IH [of x ?m] Cons.IH [of ?m ?m] by auto
  qed simp
  then show "x \<in> set xs \<Longrightarrow> f64_key (f64_min xs) \<le> f64_key x" by (cases xs) (auto simp: f64_min_def)
qed

lemma p95_rank_bounds: "n > 0 \<Longrightarrow> 1 \<le> p95_rank n \<and> p95_rank n \<le> n \<and> 95 * n \<le> 100 * p95_rank n \<and> 100 * (p95_rank n - 1) < 95 * n"
  unfolding p95_rank_def by linarith

text \<open>The maximum over the lowest ranks of a sorted list is the element at the last of these ranks.\<close>

lemma f64_max_take:
  assumes "sorted (map f64_key vs)" and "0 < r" and "r \<le> length vs"
  shows "f64_key (f64_max (take r vs)) = f64_key (vs ! (r - 1))"
proof (rule antisym)
  have ne: "take r vs \<noteq> []" using assms by auto
  then obtain i where i: "i < r" "f64_max (take r vs) = vs ! i"
    using f64_max_in [OF ne] assms(3) by (auto simp: in_set_conv_nth)
  show "f64_key (f64_max (take r vs)) \<le> f64_key (vs ! (r - 1))"
    using sorted_nth_mono [OF assms(1), of i "r - 1"] i assms by simp
  have "vs ! (r - 1) \<in> set (take r vs)" using assms by (auto simp: in_set_conv_nth intro!: exI [of _ "r - 1"])
  then show "f64_key (vs ! (r - 1)) \<le> f64_key (f64_max (take r vs))" by (rule f64_max_ge)
qed

lemma filter_sort_key_length: "length (filter P (sort_key f xs)) = length (filter P xs)"
  by (metis filter_sort length_sort)

lemma count_at_rank:
  assumes "sorted (map f64_key vs)" and "0 < r" and "r \<le> length vs"
  shows "r \<le> length (filter (\<lambda>v. f64_key v \<le> f64_key (vs ! (r - 1))) vs) \<and>
    length (filter (\<lambda>v. f64_key v < f64_key (vs ! (r - 1))) vs) \<le> r - 1"
proof
  let ?K = "f64_key (vs ! (r - 1))"
  have low: "f64_key v \<le> ?K" if v: "v \<in> set (take r vs)" for v
  proof -
    obtain i where i: "i < r" "v = vs ! i" using v assms(3) by (auto simp: in_set_conv_nth)
    show ?thesis using sorted_nth_mono [OF assms(1), of i "r - 1"] i assms by simp
  qed
  have high: "?K \<le> f64_key v" if v: "v \<in> set (drop (r - 1) vs)" for v
  proof -
    obtain i where i: "i < length vs - (r - 1)" "v = vs ! (r - 1 + i)" using v assms by (auto simp: in_set_conv_nth)
    show ?thesis using sorted_nth_mono [OF assms(1), of "r - 1" "r - 1 + i"] i assms by simp
  qed
  have "filter (\<lambda>v. f64_key v \<le> ?K) (take r vs) = take r vs" using low by (simp add: filter_id_conv)
  moreover have "length (filter (\<lambda>v. f64_key v \<le> ?K) vs) \<ge> length (filter (\<lambda>v. f64_key v \<le> ?K) (take r vs))"
    by (metis append_take_drop_id filter_append length_append le_add1)
  ultimately show "r \<le> length (filter (\<lambda>v. f64_key v \<le> ?K) vs)" using assms(3) by simp
  have "filter (\<lambda>v. f64_key v < ?K) (drop (r - 1) vs) = []" using high by (fastforce simp: filter_empty_conv)
  then have "filter (\<lambda>v. f64_key v < ?K) vs = filter (\<lambda>v. f64_key v < ?K) (take (r - 1) vs)"
    by (metis append_take_drop_id filter_append append_Nil2)
  then show "length (filter (\<lambda>v. f64_key v < ?K) vs) \<le> r - 1"
    using length_filter_le [of "\<lambda>v. f64_key v < ?K" "take (r - 1) vs"] assms(3) by simp
qed

section \<open>Properties\<close>

text \<open>The 95th percentile of a bucket is an observed sample at the right rank: at least 95 percent of the samples are at most it and fewer than 95 percent lie below it; and the recorded minimum and maximum bound every sample.\<close>

theorem bucket_percentile:
  assumes "vals \<noteq> []"
  shows "ag_p95 (bucket_row avg res k vals) \<in> set vals \<and>
    95 * length vals \<le> 100 * length (filter (\<lambda>v. f64_key v \<le> f64_key (ag_p95 (bucket_row avg res k vals))) vals) \<and>
    100 * length (filter (\<lambda>v. f64_key v < f64_key (ag_p95 (bucket_row avg res k vals))) vals) < 95 * length vals \<and>
    (\<forall>v \<in> set vals. f64_key (ag_min (bucket_row avg res k vals)) \<le> f64_key v \<and>
       f64_key v \<le> f64_key (ag_max (bucket_row avg res k vals)))"
proof -
  let ?vs = "sort_key f64_key vals"
  let ?r = "p95_rank (length vals)"
  let ?p = "f64_max (take ?r ?vs)"
  have p: "ag_p95 (bucket_row avg res k vals) = ?p" by (simp add: bucket_row_def Let_def)
  have r: "1 \<le> ?r" "?r \<le> length vals" "95 * length vals \<le> 100 * ?r" "100 * (?r - 1) < 95 * length vals"
    using p95_rank_bounds [of "length vals"] assms by auto
  have K: "f64_key ?p = f64_key (?vs ! (?r - 1))" by (rule f64_max_take) (use r in auto)
  have c: "?r \<le> length (filter (\<lambda>v. f64_key v \<le> f64_key ?p) vals)"
    "length (filter (\<lambda>v. f64_key v < f64_key ?p) vals) \<le> ?r - 1"
    using count_at_rank [of ?vs ?r] r unfolding K by (auto simp: filter_sort_key_length)
  have "?p \<in> set (take ?r ?vs)" by (rule f64_max_in) (use r in \<open>auto simp flip: length_0_conv\<close>)
  then have "?p \<in> set vals" using set_take_subset [of ?r ?vs] by auto
  moreover have "f64_key (ag_min (bucket_row avg res k vals)) \<le> f64_key v \<and> f64_key v \<le> f64_key (ag_max (bucket_row avg res k vals))"
    if "v \<in> set vals" for v
    using that f64_min_le [of v ?vs] f64_max_ge [of v ?vs] by (simp add: bucket_row_def Let_def)
  moreover have "95 * length vals \<le> 100 * length (filter (\<lambda>v. f64_key v \<le> f64_key ?p) vals)"
    "100 * length (filter (\<lambda>v. f64_key v < f64_key ?p) vals) < 95 * length vals" using c r by linarith+
  ultimately show ?thesis unfolding p by blast
qed

theorem bucket_percentile_witness:
  "ag_p95 (bucket_row hd ''1m'' (''s'', ''cpu'', 0) [5, 9, 7]) \<in> set [5, 9, 7 :: 64 word]"
  using bucket_percentile [of "[5, 9, 7]" hd "''1m''" "(''s'', ''cpu'', 0)"] by blast

text \<open>Rolling up again is not always harmless: with the same samples the same buckets are written, but when raw samples of a bucket were pruned in between, the bucket is overwritten by what is left. Here an hourly bucket of two samples becomes a bucket of one.\<close>

definition hour_store :: Store where
  "hour_store = \<lparr>st_servers = [],
     st_samples = [\<lparr>sa_server_id = ''s'', sa_metric = ''cpu'', sa_ts = 0, sa_value = 9\<rparr>,
                   \<lparr>sa_server_id = ''s'', sa_metric = ''cpu'', sa_ts = 1800000, sa_value = 5\<rparr>],
     st_aggregates = []\<rparr>"

theorem rollup_after_prune_shrinks:
  "map ag_samples (st_aggregates (snd (roll_up hd None Hourly 3600000 hour_store))) = [2] \<and>
   snd (roll_up hd None Hourly 3600000 (snd (roll_up hd None Hourly 3600000 hour_store))) =
     snd (roll_up hd None Hourly 3600000 hour_store) \<and>
   map (\<lambda>a. (ag_samples a, ag_max a)) (st_aggregates (snd (roll_up hd None Hourly 3600000
      (snd (prune [] (24 * 3600000 + 1000) (snd (roll_up hd None Hourly 3600000 hour_store))))))) = [(1, 5)]"
  by code_simp

end
