(* ===== verification/Store_Invariant.thy ===== *)
theory Store_Invariant
  imports Metrics
begin

text \<open>
  The invariant of the local store: primary keys and server names are unique, and every sample and
  aggregate belongs to a server of the inventory. It is stated on the key columns, so that an operation
  that rewrites other columns keeps it at once.
\<close>

section \<open>The invariant\<close>

definition keys_ok ::
  "rstr list \<Rightarrow> rstr list \<Rightarrow> (rstr \<times> rstr \<times> TimestampMs) list \<Rightarrow> (rstr \<times> rstr \<times> rstr \<times> TimestampMs) list \<Rightarrow> bool" where
  "keys_ok ids aliases sks aks \<longleftrightarrow>
     distinct ids \<and> distinct aliases \<and> distinct sks \<and> distinct aks \<and>
     fst ` set sks \<subseteq> set ids \<and> fst ` set aks \<subseteq> set ids"

definition store_ok :: "Store \<Rightarrow> bool" where
  "store_ok st \<longleftrightarrow>
     keys_ok (map sr_id (st_servers st)) (map sr_alias (st_servers st))
       (map sa_key (st_samples st)) (map ag_key (st_aggregates st))"

lemma store_ok_empty: "store_ok store_empty"
  by (simp add: store_ok_def keys_ok_def store_empty_def)

text \<open>The same on the rows.\<close>

lemma store_ok_rows:
  "store_ok st \<longleftrightarrow>
     distinct (map sr_id (st_servers st)) \<and> distinct (map sr_alias (st_servers st)) \<and>
     distinct (map sa_key (st_samples st)) \<and> distinct (map ag_key (st_aggregates st)) \<and>
     (\<forall>s \<in> set (st_samples st). sa_server_id s \<in> sr_id ` set (st_servers st)) \<and>
     (\<forall>a \<in> set (st_aggregates st). ag_server_id a \<in> sr_id ` set (st_servers st))"
proof -
  have "fst ` set (map sa_key xs) = sa_server_id ` set xs" "fst ` set (map ag_key ys) = ag_server_id ` set ys" for xs ys
    by (simp_all add: image_image sa_key_def ag_key_def)
  then show ?thesis unfolding store_ok_def keys_ok_def by (simp only: list.set_map image_subset_iff)
qed

lemma store_okD:
  assumes "store_ok st"
  shows "distinct (map sr_id (st_servers st))" and "distinct (map sr_alias (st_servers st))"
    and "s \<in> set (st_samples st) \<Longrightarrow> sa_server_id s \<in> sr_id ` set (st_servers st)"
    and "a \<in> set (st_aggregates st) \<Longrightarrow> ag_server_id a \<in> sr_id ` set (st_servers st)"
    and "distinct (map sa_key (st_samples st))"
  using assms by (simp_all add: store_ok_rows)

section \<open>Rows of the inventory\<close>

lemma find_server_None: "find_server i st = None \<longleftrightarrow> i \<notin> sr_id ` set (st_servers st)"
  by (auto simp: find_server_def find_None_iff)

lemma find_distinct:
  "distinct (map f rs) \<Longrightarrow> find (\<lambda>r. f r = i) rs = Some r \<longleftrightarrow> r \<in> set rs \<and> f r = i"
  by (induction rs) (auto simp: image_iff)

lemma find_server_Some:
  "store_ok st \<Longrightarrow> find_server i st = Some r \<longleftrightarrow> r \<in> set (st_servers st) \<and> sr_id r = i"
  unfolding find_server_def by (intro find_distinct store_okD(1))

lemma merge_row_id [simp]: "sr_id (merge_row n r) = sr_id n" "sr_alias (merge_row n r) = sr_alias n"
  by (simp_all add: merge_row_def)

lemma new_row_id [simp]: "sr_id (new_row c now p) = sp_id p" "sr_alias (new_row c now p) = sp_alias p"
  by (simp_all add: new_row_def)

text \<open>Giving the element with key \<open>k\<close> a name that no other element has keeps the names distinct.\<close>

lemma distinct_rename:
  assumes "distinct (map g xs)" and "distinct (map f xs)" and "\<forall>x \<in> set xs. g x \<noteq> k \<longrightarrow> f x \<noteq> v"
  shows "distinct (map (\<lambda>x. if g x = k then v else f x) xs)"
  using assms
proof (induction xs)
  case (Cons x xs)
  show ?case
  proof (cases "g x = k")
    case True
    then have "k \<notin> g ` set xs" using Cons.prems(1) by auto
    then have m: "map (\<lambda>x. if g x = k then v else f x) xs = map f xs" by auto
    have "f y \<noteq> v" if "y \<in> set xs" for y
    proof -
      have "g y \<in> g ` set xs" using that by simp
      with \<open>k \<notin> g ` set xs\<close> have "g y \<noteq> k" by metis
      with that Cons.prems(3) show ?thesis by simp
    qed
    then have "v \<notin> f ` set xs" by auto
    with True Cons.prems(2) show ?thesis by (simp add: m del: map_eq_conv)
  next
    case False
    then show ?thesis using Cons by auto
  qed
qed simp

section \<open>Every operation keeps the invariant\<close>

lemma upsert_ok: "store_ok st \<Longrightarrow> store_ok (snd (upsert c fault now p st))"
proof -
  assume ok: "store_ok st"
  let ?n = "new_row c now p"
  note d = store_okD(1,2) [OF ok]
  show ?thesis
  proof (cases "fst (upsert c fault now p st)")
    case (Inl e)
    then have "snd (upsert c fault now p st) = st"
      by (auto simp: upsert_def split: sum.splits option.splits if_splits)
    with ok show ?thesis by simp
  next
    case (Inr u)
    then have free: "\<forall>r \<in> set (st_servers st). sr_id r \<noteq> sp_id p \<longrightarrow> sr_alias r \<noteq> sp_alias p"
      and step: "snd (upsert c fault now p st) = (case find_server (sp_id p) st of
          None \<Rightarrow> st\<lparr>st_servers := st_servers st @ [?n]\<rparr>
        | Some _ \<Rightarrow> st\<lparr>st_servers := map (\<lambda>r. if sr_id r = sp_id p then merge_row ?n r else r) (st_servers st)\<rparr>)"
      by (auto simp: upsert_def list_ex_iff split: sum.splits option.splits if_splits)
    show ?thesis
    proof (cases "find_server (sp_id p) st")
      case None
      then have "sp_id p \<notin> sr_id ` set (st_servers st)" by (simp add: find_server_None)
      moreover have "sp_alias p \<noteq> sr_alias r" if "r \<in> set (st_servers st)" for r
      proof -
        have "sr_id r \<in> sr_id ` set (st_servers st)" using that by simp
        with calculation have "sr_id r \<noteq> sp_id p" by metis
        with that free show ?thesis by metis
      qed
      ultimately have "sp_id p \<notin> sr_id ` set (st_servers st)" "sp_alias p \<notin> sr_alias ` set (st_servers st)"
        by (blast, blast)
      then show ?thesis using ok None step by (simp add: store_ok_rows)
    next
      case (Some old)
      have "distinct (map (\<lambda>r. if sr_id r = sp_id p then sp_alias p else sr_alias r) (st_servers st))"
        by (rule distinct_rename) (use d free in auto)
      then show ?thesis using ok Some step by (simp add: store_ok_def keys_ok_def comp_def if_distrib [of sr_id] if_distrib [of sr_alias] cong: if_cong)
    qed
  qed
qed

lemma set_facts_ok: "store_ok st \<Longrightarrow> store_ok (snd (set_facts c fault now i f st))"
  by (simp add: set_facts_def store_ok_def comp_def if_distrib [of sr_id] if_distrib [of sr_alias] split: option.splits cong: if_cong)

lemma delete_ok: "store_ok st \<Longrightarrow> store_ok (snd (Inventory.delete fault i st))"
proof (cases fault)
  case None
  assume ok: "store_ok st"
  have keep: "x \<in> sr_id ` set (filter (\<lambda>r. sr_id r \<noteq> i) (st_servers st))" if "x \<in> sr_id ` set (st_servers st)" "x \<noteq> i" for x
    using that by auto
  show ?thesis
    unfolding store_ok_rows using None store_okD [OF ok] keep ok [unfolded store_ok_rows]
    by (simp add: Inventory.delete_def distinct_map_filter)
qed (simp add: Inventory.delete_def)

lemma upsert_sample_keys:
  "map sa_key (upsert_sample s rows) = (if sa_key s \<in> sa_key ` set rows then map sa_key rows else map sa_key rows @ [sa_key s])"
  by (auto simp: upsert_sample_def list_ex_iff image_iff) metis

lemma upsert_aggregate_keys:
  "map ag_key (upsert_aggregate a rows) = (if ag_key a \<in> ag_key ` set rows then map ag_key rows else map ag_key rows @ [ag_key a])"
  by (auto simp: upsert_aggregate_def list_ex_iff image_iff) metis

lemma insert_samples_ok: "store_ok st \<Longrightarrow> store_ok (snd (insert_samples fault m i samples st))"
proof -
  assume ok: "store_ok st"
  let ?ids = "map sr_id (st_servers st)"
  have "distinct (map sa_key (fold (\<lambda>(metric, ts, v). upsert_sample \<lparr>sa_server_id = i, sa_metric = metric, sa_ts = ts, sa_value = v\<rparr>) ss rows)) \<and>
      fst ` set (map sa_key (fold (\<lambda>(metric, ts, v). upsert_sample \<lparr>sa_server_id = i, sa_metric = metric, sa_ts = ts, sa_value = v\<rparr>) ss rows)) \<subseteq> set ?ids"
    if "i \<in> set ?ids" "distinct (map sa_key rows)" "fst ` set (map sa_key rows) \<subseteq> set ?ids" for ss rows
    using that
  proof (induction ss arbitrary: rows)
    case (Cons s ss)
    obtain metric ts v where s: "s = (metric, ts, v)" by (cases s)
    let ?r = "\<lparr>sa_server_id = i, sa_metric = metric, sa_ts = ts, sa_value = v\<rparr>"
    have keys: "map sa_key (upsert_sample ?r rows) = (if sa_key ?r \<in> set (map sa_key rows) then map sa_key rows else map sa_key rows @ [sa_key ?r])"
      by (simp add: upsert_sample_keys)
    have "fst (sa_key ?r) = i" by (simp add: sa_key_def)
    then show ?case unfolding s fold_Cons comp_def prod.case
      by (intro Cons.IH Cons.prems(1)) (use Cons.prems in \<open>auto simp: keys simp del: set_map split: if_splits\<close>)
  qed simp
  then show ?thesis
    using ok by (auto simp: insert_samples_def store_ok_def keys_ok_def find_server_None split: option.splits)
qed

lemma roll_up_ok: "store_ok st \<Longrightarrow> store_ok (snd (roll_up avg fault res before st))"
proof -
  assume ok: "store_ok st"
  let ?ids = "map sr_id (st_servers st)"
  have fold_ok: "distinct (map ag_key (fold upsert_aggregate as rows)) \<and> fst ` set (map ag_key (fold upsert_aggregate as rows)) \<subseteq> set ?ids"
    if "\<forall>a \<in> set as. ag_server_id a \<in> set ?ids" "distinct (map ag_key rows)" "fst ` set (map ag_key rows) \<subseteq> set ?ids" for as rows
    using that
  proof (induction as arbitrary: rows)
    case (Cons a as)
    have keys: "map ag_key (upsert_aggregate a rows) = (if ag_key a \<in> set (map ag_key rows) then map ag_key rows else map ag_key rows @ [ag_key a])"
      by (simp add: upsert_aggregate_keys)
    have "fst (ag_key a) = ag_server_id a" by (simp add: ag_key_def)
    then show ?case unfolding fold_Cons comp_def
      by (intro Cons.IH) (use Cons.prems in \<open>auto simp: keys simp del: set_map split: if_splits\<close>)
  qed simp
  have "\<forall>a \<in> set (rollup_rows avg res before (st_samples st)). ag_server_id a \<in> set ?ids"
    using store_okD(3) [OF ok] by (auto simp: rollup_rows_def Let_def bucket_row_def bucket_key_def)
  with fold_ok [of "rollup_rows avg res before (st_samples st)" "st_aggregates st"] show ?thesis
    using ok by (auto simp: roll_up_def store_ok_def keys_ok_def Let_def split: option.splits)
qed

lemma prune_tiers_ok: "store_ok st \<Longrightarrow> store_ok (snd (prune_tiers fs now rs n st))"
proof (induction fs now rs n st rule: prune_tiers.induct)
  case (2 fs now res rest n st)
  have "store_ok (st\<lparr>st_aggregates := filter (\<lambda>a. \<not> expired_in now res a) (st_aggregates st)\<rparr>)"
    using 2(2) by (simp add: store_ok_rows distinct_map_filter)
  then show ?case using 2 by (simp split: option.splits)
qed simp

lemma prune_ok: "store_ok st \<Longrightarrow> store_ok (snd (prune fs now st))"
proof -
  assume ok: "store_ok st"
  have "store_ok (st\<lparr>st_samples := filter (\<lambda>s. \<not> expired_sample now s) (st_samples st)\<rparr>)"
    using ok by (simp add: store_ok_rows distinct_map_filter)
  then show ?thesis using ok prune_tiers_ok by (simp add: prune_def del: prune_tiers.simps split: option.splits)
qed

section \<open>Histories of the store\<close>

datatype store_op =
    UpsertServer db_fault TimestampMs ServerProfile
  | SetFacts db_fault TimestampMs rstr HostFacts
  | DeleteServer db_fault rstr
  | InsertSamples db_fault rstr rstr "(rstr \<times> TimestampMs \<times> 64 word) list"
  | RollUp db_fault Resolution TimestampMs
  | PruneStore "db_fault list" TimestampMs

primrec store_exec :: "Columns \<Rightarrow> (64 word list \<Rightarrow> 64 word) \<Rightarrow> store_op \<Rightarrow> Store \<Rightarrow> Store" where
  "store_exec c avg (UpsertServer fault now p) st = snd (upsert c fault now p st)"
| "store_exec c avg (SetFacts fault now i f) st = snd (set_facts c fault now i f st)"
| "store_exec c avg (DeleteServer fault i) st = snd (Inventory.delete fault i st)"
| "store_exec c avg (InsertSamples fault m i ss) st = snd (insert_samples fault m i ss st)"
| "store_exec c avg (RollUp fault res before) st = snd (roll_up avg fault res before st)"
| "store_exec c avg (PruneStore fs now) st = snd (prune fs now st)"

lemmas store_ops_ok = upsert_ok set_facts_ok delete_ok insert_samples_ok roll_up_ok prune_ok

lemma store_run_ok: "store_ok st \<Longrightarrow> store_ok (fold (store_exec c avg) ops st)"
proof (induction ops arbitrary: st)
  case (Cons x ops)
  then show ?case by (cases x) (simp_all add: store_ops_ok)
qed simp

section \<open>What is stored is read back\<close>

lemma row_round_trip:
  assumes "columns_ok c p" and "sr_facts_json r = map_option (enc_facts c) (sp_facts p)"
    and "sr_id r = sp_id p" "sr_alias r = sp_alias p" "sr_hostname r = sp_hostname p" "sr_port r = uint (sp_port p)"
      "sr_username r = sp_username p" "sr_auth_json r = enc_auth c (sp_auth p)" "sr_tags_json r = enc_tags c (sp_tags p)"
  shows "row_to_profile c r = Inr (p\<lparr>sp_created_at := sr_created_at r, sp_updated_at := sr_updated_at r\<rparr>)"
  using assms by (cases "sp_facts p") (simp_all add: row_to_profile_def columns_ok_def)

lemma find_server_after_upsert:
  assumes "fst (upsert c None now p st) = Inr ()"
  shows "find_server (sp_id p) (snd (upsert c None now p st)) =
    Some (case find_server (sp_id p) st of None \<Rightarrow> new_row c now p | Some r \<Rightarrow> merge_row (new_row c now p) r)"
proof -
  have hit: "find (\<lambda>r. sr_id r = i) (map (\<lambda>r. if sr_id r = i then h r else r) rs) = map_option h (find (\<lambda>r. sr_id r = i) rs)"
    if "\<And>r. sr_id (h r) = i" for h rs i
    using that by (induction rs) auto
  have miss: "find (\<lambda>r. sr_id r = i) rs = None \<Longrightarrow> sr_id n = i \<Longrightarrow> find (\<lambda>r. sr_id r = i) (rs @ [n]) = Some n" for rs n i
    by (induction rs) (auto split: if_splits)
  show ?thesis
    using assms by (auto simp: upsert_def find_server_def hit miss split: sum.splits option.splits if_splits)
qed

section \<open>Properties\<close>

text \<open>A stored profile is read back as it was: when the write succeeds and the profile is new or brings its own facts, a lookup returns the same profile, with the creation time of the first write and the time of this one.\<close>

theorem upsert_get_roundtrip:
  assumes "columns_ok c p" and "fst (upsert c None now p st) = Inr ()"
    and "sp_facts p \<noteq> None \<or> find_server (sp_id p) st = None"
  shows "Inventory.get c None (sp_id p) (snd (upsert c None now p st)) =
    Inr (Some (p\<lparr>sp_created_at := (case find_server (sp_id p) st of
                    None \<Rightarrow> if sp_created_at p > 0 then sp_created_at p else now | Some r \<Rightarrow> sr_created_at r),
                sp_updated_at := now\<rparr>))"
proof (cases "find_server (sp_id p) st")
  case None
  then have f: "find_server (sp_id p) (snd (upsert c None now p st)) = Some (new_row c now p)"
    using find_server_after_upsert [OF assms(2)] by simp
  have "row_to_profile c (new_row c now p) =
      Inr (p\<lparr>sp_created_at := sr_created_at (new_row c now p), sp_updated_at := sr_updated_at (new_row c now p)\<rparr>)"
    by (rule row_round_trip [OF assms(1)]) (simp_all add: new_row_def)
  with f None show ?thesis by (simp add: Inventory.get_def new_row_def)
next
  case (Some old)
  then obtain x where x: "sp_facts p = Some x" using assms(3) by auto
  have f: "find_server (sp_id p) (snd (upsert c None now p st)) = Some (merge_row (new_row c now p) old)"
    using find_server_after_upsert [OF assms(2)] Some by simp
  have "row_to_profile c (merge_row (new_row c now p) old) =
      Inr (p\<lparr>sp_created_at := sr_created_at (merge_row (new_row c now p) old),
             sp_updated_at := sr_updated_at (merge_row (new_row c now p) old)\<rparr>)"
    by (rule row_round_trip [OF assms(1)]) (simp_all add: new_row_def merge_row_def x)
  with f Some show ?thesis by (simp add: Inventory.get_def new_row_def merge_row_def)
qed

definition sample_columns :: Columns where
  "sample_columns = \<lparr>enc_auth = (\<lambda>a. ''agent''), dec_auth = (\<lambda>s. Inr Agent), enc_tags = join '','', dec_tags = (\<lambda>s. Inr (split_on (CHR '','') s)),
     enc_facts = (\<lambda>f. hf_os_id f), dec_facts = (\<lambda>s. Inl (Storage s))\<rparr>"

definition sample_profile :: ServerProfile where
  "sample_profile = \<lparr>sp_id = ''s1'', sp_alias = ''web'', sp_hostname = ''10.0.0.5'', sp_port = 22, sp_username = ''deploy'',
     sp_auth = Agent, sp_tags = [''prod'', ''eu''], sp_facts = None, sp_created_at = 0, sp_updated_at = 0\<rparr>"

theorem upsert_get_roundtrip_witness:
  "Inventory.get sample_columns None ''s1'' (snd (upsert sample_columns None 7 sample_profile store_empty)) =
     Inr (Some (sample_profile\<lparr>sp_created_at := 7, sp_updated_at := 7\<rparr>))"
proof -
  have "columns_ok sample_columns sample_profile" "validate sample_profile = Inr ()" by code_simp+
  then show ?thesis
    using upsert_get_roundtrip [of sample_columns sample_profile 7 store_empty]
    by (simp add: upsert_def store_empty_def find_server_def sample_profile_def)
qed

end
