(* ===== verification/Storage_Backend.thy ===== *)
theory Storage_Backend
  imports Mcp_Server Store_Invariant
begin

text \<open>
  apps/mcp/src/storage_backend.rs: the gateway's backend over the local store. The contract that the
  gateway relies on is a locale; the storage backend satisfies it in every state that the repositories
  can reach.
\<close>

section \<open>The backend\<close>

definition reading_of :: "rstr \<times> TimestampMs \<times> 64 word \<Rightarrow> MetricReading" where
  "reading_of r = (case r of (metric, recorded_at, v) \<Rightarrow> \<lparr>mr_metric = metric, mr_value = v, mr_recorded_at = recorded_at\<rparr>)"

definition storage_backend :: "Columns \<Rightarrow> db_fault \<Rightarrow> Store \<Rightarrow> InfrastructureBackend" where
  "storage_backend c fault st =
     \<lparr>list_servers = list_all_servers c fault st,
      get_server = (\<lambda>i. Inventory.get c fault i st),
      latest_metrics = (\<lambda>i. case latest_per_metric fault i st of Inl e \<Rightarrow> Inl e | Inr rows \<Rightarrow> Inr (map reading_of rows))\<rparr>"

section \<open>What the gateway relies on\<close>

locale backend_contract =
  fixes inv :: "'s \<Rightarrow> bool"
    and backend :: "'s \<Rightarrow> InfrastructureBackend"
  assumes listed_is_found:
      "inv s \<Longrightarrow> list_servers (backend s) = Inr ps \<Longrightarrow> p \<in> set ps \<Longrightarrow> get_server (backend s) (sp_id p) = Inr (Some p)"
    and found_is_listed:
      "inv s \<Longrightarrow> list_servers (backend s) = Inr ps \<Longrightarrow> get_server (backend s) i = Inr (Some p) \<Longrightarrow> p \<in> set ps \<and> sp_id p = i"
    and measured_exists:
      "inv s \<Longrightarrow> latest_metrics (backend s) i = Inr rs \<Longrightarrow> rs \<noteq> [] \<Longrightarrow> get_server (backend s) i \<noteq> Inr None"
    and one_reading_each:
      "inv s \<Longrightarrow> latest_metrics (backend s) i = Inr rs \<Longrightarrow> distinct (map mr_metric rs)"
begin

text \<open>A server is known to the lookup exactly when it is listed.\<close>

lemma known_iff_listed:
  assumes "inv s" and "list_servers (backend s) = Inr ps"
  shows "(\<exists>p. get_server (backend s) i = Inr (Some p)) \<longleftrightarrow> i \<in> sp_id ` set ps"
  using listed_is_found [OF assms] found_is_listed [OF assms, of i] by (metis imageE image_eqI)

lemma measured_is_listed:
  assumes "inv s" and "list_servers (backend s) = Inr ps" and "latest_metrics (backend s) i = Inr rs" and "rs \<noteq> []"
    and "get_server (backend s) i = Inr found"
  shows "i \<in> sp_id ` set ps"
proof -
  have "found \<noteq> None" using measured_exists [OF assms(1,3,4)] assms(5) by auto
  then show ?thesis using assms(5) known_iff_listed [OF assms(1,2), of i] by auto
qed

end

section \<open>The storage backend satisfies the contract\<close>

lemma collect_results_Inr: "collect_results xs = Inr ys \<longleftrightarrow> xs = map Inr ys"
proof (induction xs arbitrary: ys rule: collect_results.induct)
  case (3 x xs)
  show ?case
  proof (cases "collect_results xs")
    case (Inl e)
    then have "xs \<noteq> map Inr zs" for zs using 3 [of zs] by simp
    with Inl show ?thesis by (cases ys) auto
  next
    case (Inr zs)
    with 3 [of zs] have "xs = map Inr zs" by simp
    with Inr show ?thesis by (auto simp: map_eq_Cons_conv inj_map_eq_map)
  qed
qed auto

lemma row_to_profile_id: "row_to_profile c r = Inr p \<Longrightarrow> sp_id p = sr_id r"
  by (auto simp: row_to_profile_def split: sum.splits)

lemma listed_iff:
  assumes "store_ok st" and "list_all_servers c None st = Inr ps"
  shows "p \<in> set ps \<longleftrightarrow> (\<exists>r \<in> set (st_servers st). row_to_profile c r = Inr p)"
proof -
  have "map (row_to_profile c) (sort_key (\<lambda>r. to_ascii_lowercase (sr_alias r)) (st_servers st)) = map Inr ps"
    using assms(2) by (simp add: list_all_servers_def collect_results_Inr)
  then have "row_to_profile c ` set (st_servers st) = Inr ` set ps"
    by (metis list.set_map set_sort)
  then show ?thesis by (metis Inr_inject image_iff)
qed

lemma get_iff:
  "store_ok st \<Longrightarrow> Inventory.get c None i st = Inr (Some p) \<longleftrightarrow>
     (\<exists>r \<in> set (st_servers st). sr_id r = i \<and> row_to_profile c r = Inr p)"
proof (cases "find_server i st")
  case None
  then have "i \<notin> sr_id ` set (st_servers st)" by (simp add: find_server_None)
  then show ?thesis using None by (auto simp: Inventory.get_def)
next
  case (Some r)
  assume ok: "store_ok st"
  have "r' = r" if "r' \<in> set (st_servers st)" "sr_id r' = i" for r'
    using that Some find_server_Some [OF ok, of i r'] by simp
  moreover have "r \<in> set (st_servers st)" "sr_id r = i" using Some find_server_Some [OF ok, of i r] by simp_all
  ultimately have "(\<exists>r' \<in> set (st_servers st). sr_id r' = i \<and> row_to_profile c r' = Inr p) \<longleftrightarrow> row_to_profile c r = Inr p" by blast
  then show ?thesis using Some by (simp add: Inventory.get_def split: sum.splits)
qed

interpretation storage: backend_contract store_ok "storage_backend c None" for c
proof unfold_locales
  fix s ps p
  assume s: "store_ok s" "list_servers (storage_backend c None s) = Inr ps" "p \<in> set ps"
  then show "get_server (storage_backend c None s) (sp_id p) = Inr (Some p)"
    using listed_iff [of s c ps p] get_iff [of s c "sp_id p" p] row_to_profile_id by (auto simp: storage_backend_def)
next
  fix s ps i p
  assume s: "store_ok s" "list_servers (storage_backend c None s) = Inr ps" "get_server (storage_backend c None s) i = Inr (Some p)"
  then show "p \<in> set ps \<and> sp_id p = i"
    using listed_iff [of s c ps p] get_iff [of s c i p] row_to_profile_id by (auto simp: storage_backend_def)
next
  fix s i rs
  assume s: "store_ok s" "latest_metrics (storage_backend c None s) i = Inr rs" "rs \<noteq> []"
  then have "metrics_of i s \<noteq> []" by (auto simp: storage_backend_def latest_per_metric_def)
  then have "set (metrics_of i s) \<noteq> {}" by simp
  then obtain x where x: "x \<in> set (st_samples s)" "sa_server_id x = i" by (auto simp: metrics_of_def)
  then have "i \<in> sr_id ` set (st_servers s)" using store_okD(3) [OF s(1) x(1)] by simp
  then have "find_server i s \<noteq> None" by (simp add: find_server_None)
  then show "get_server (storage_backend c None s) i \<noteq> Inr None"
    by (auto simp: storage_backend_def Inventory.get_def split: option.splits sum.splits)
next
  fix s i rs
  assume "latest_metrics (storage_backend c None s) i = Inr rs"
  then have "map mr_metric rs = metrics_of i s"
    by (auto simp: storage_backend_def latest_per_metric_def reading_of_def comp_def)
  then show "distinct (map mr_metric rs)" by (simp add: metrics_of_def)
qed

section \<open>Properties\<close>

text \<open>C28. The answers about the local store agree with each other: in every store reached by the repositories from an empty one, the server list and the lookup by identifier name the same servers, readings exist only for servers that are listed, and there is one reading for each metric.\<close>

theorem gateway_views_agree:
  assumes "st = fold (store_exec c avg) ops store_empty"
    and "list_servers (storage_backend c None st) = Inr ps"
  shows "((\<exists>p. get_server (storage_backend c None st) i = Inr (Some p)) \<longleftrightarrow> i \<in> sp_id ` set ps) \<and>
    (\<forall>rs found. latest_metrics (storage_backend c None st) i = Inr rs \<and> get_server (storage_backend c None st) i = Inr found \<longrightarrow>
       (rs \<noteq> [] \<longrightarrow> i \<in> sp_id ` set ps) \<and> distinct (map mr_metric rs))"
proof -
  have ok: "store_ok st" unfolding assms(1) by (rule store_run_ok [OF store_ok_empty])
  show ?thesis
    using storage.known_iff_listed [OF ok assms(2)] storage.measured_is_listed [OF ok assms(2)]
      storage.one_reading_each [OF ok] by blast
qed

theorem gateway_views_agree_witness:
  "(\<exists>p. get_server (storage_backend sample_columns None (fold (store_exec sample_columns hd) [UpsertServer None 7 sample_profile] store_empty)) ''s1'' = Inr (Some p))"
proof -
  let ?st = "fold (store_exec sample_columns hd) [UpsertServer None 7 sample_profile] store_empty"
  have v: "validate sample_profile = Inr ()" by code_simp
  have st: "st_servers ?st = [new_row sample_columns 7 sample_profile]"
    by (simp add: upsert_def v store_empty_def find_server_def)
  have r: "\<exists>p. row_to_profile sample_columns (new_row sample_columns 7 sample_profile) = Inr p \<and> sp_id p = ''s1''"
    by (simp add: row_to_profile_def new_row_def sample_columns_def sample_profile_def)
  then obtain p where p: "row_to_profile sample_columns (new_row sample_columns 7 sample_profile) = Inr p" "sp_id p = ''s1''" by blast
  have "list_servers (storage_backend sample_columns None ?st) = Inr [p]"
    using st p by (simp add: storage_backend_def list_all_servers_def)
  from gateway_views_agree [OF refl this, of "''s1''"] p(2) show ?thesis by simp
qed

end
