(* ===== verification/Rust_Text.thy ===== *)
theory Rust_Text
  imports Prelude
begin

text \<open>
  More of the Rust standard library, as the parsers of remote output use it: \<open>strip_prefix\<close>,
  \<open>split_once\<close>, \<open>lines\<close>, \<open>split_ascii_whitespace\<close> and \<open>str::parse\<close> for integers. The lemmas say how
  these functions read back text put together from its parts.
\<close>

section \<open>Prefixes, lines and words\<close>

definition strip_prefix :: "rstr \<Rightarrow> rstr \<Rightarrow> rstr option" where
  "strip_prefix pat s = (if prefix pat s then Some (drop (length pat) s) else None)"

definition split_once :: "char \<Rightarrow> rstr \<Rightarrow> (rstr \<times> rstr) option" where
  "split_once c s = map_option (\<lambda>i. (take i s, drop (Suc i) s)) (find_char c s)"

definition split_once_str :: "rstr \<Rightarrow> rstr \<Rightarrow> (rstr \<times> rstr) option" where
  "split_once_str pat s = map_option (\<lambda>i. (take i s, drop (i + length pat) s)) (find_str pat s)"

definition rsplit_once :: "char \<Rightarrow> rstr \<Rightarrow> (rstr \<times> rstr) option" where
  "rsplit_once c s = (if c \<in> set s then Some (take (length s - Suc (length (after_last c s))) s, after_last c s) else None)"

text \<open>\<open>str::lines\<close>: the terminator is a newline with an optional carriage return before it.\<close>

definition line_body :: "rstr \<Rightarrow> rstr" where
  "line_body l =
     (if suffix [NL] l then (let b = butlast l in if suffix [CR] b then butlast b else b) else l)"

definition lines :: "rstr \<Rightarrow> rstr list" where
  "lines s = map line_body (split_inclusive NL s)"

definition is_ascii_whitespace :: "char \<Rightarrow> bool" where
  "is_ascii_whitespace c \<longleftrightarrow> c = SP \<or> c = TAB \<or> c = NL \<or> c = CHR 0x0C \<or> c = CR"

fun split_at_white :: "rstr \<Rightarrow> rstr list" where
  "split_at_white [] = [[]]"
| "split_at_white (x # xs) =
     (if is_ascii_whitespace x then [] # split_at_white xs
      else (case split_at_white xs of [] \<Rightarrow> [[x]] | w # ws \<Rightarrow> (x # w) # ws))"

definition split_ascii_whitespace :: "rstr \<Rightarrow> rstr list" where
  "split_ascii_whitespace s = filter (\<lambda>w. w \<noteq> []) (split_at_white s)"

section \<open>Integers in decimal\<close>

definition digit_value :: "char \<Rightarrow> nat" where
  "digit_value c = byte c - 48"

definition digits_value :: "rstr \<Rightarrow> nat" where
  "digits_value s = foldl (\<lambda>n c. n * 10 + digit_value c) 0 s"

definition is_digits :: "rstr \<Rightarrow> bool" where
  "is_digits s \<longleftrightarrow> s \<noteq> [] \<and> list_all is_ascii_digit s"

text \<open>\<open>parse\<close> of an unsigned type whose largest value is \<open>limit\<close>: an optional plus sign, then digits only.\<close>

definition unsign :: "rstr \<Rightarrow> rstr" where
  "unsign s = (case s of [] \<Rightarrow> [] | c # t \<Rightarrow> if c = CHR ''+'' then t else s)"

definition parse_unsigned :: "nat \<Rightarrow> rstr \<Rightarrow> nat option" where
  "parse_unsigned limit s =
     (if is_digits (unsign s) \<and> digits_value (unsign s) \<le> limit then Some (digits_value (unsign s)) else None)"

definition parse_u64 :: "rstr \<Rightarrow> 64 word option" where
  "parse_u64 s = map_option of_nat (parse_unsigned (2 ^ 64 - 1) s)"

definition parse_u32 :: "rstr \<Rightarrow> 32 word option" where
  "parse_u32 s = map_option of_nat (parse_unsigned (2 ^ 32 - 1) s)"

definition parse_u16 :: "rstr \<Rightarrow> 16 word option" where
  "parse_u16 s = map_option of_nat (parse_unsigned (2 ^ 16 - 1) s)"

definition parse_i64 :: "rstr \<Rightarrow> int option" where
  "parse_i64 s =
     (case s of
        c # t \<Rightarrow>
          if c = CHR ''-'' then
            (if is_digits t \<and> in_i64 (- int (digits_value t)) then Some (- int (digits_value t)) else None)
          else map_option int (parse_unsigned (2 ^ 63 - 1) s)
      | [] \<Rightarrow> None)"

text \<open>Decimal printing of signed integers.\<close>

definition show_int :: "int \<Rightarrow> rstr" where
  "show_int i = (if i < 0 then CHR ''-'' # show_nat (nat (- i)) else show_nat (nat i))"

section \<open>Reading back\<close>

lemma strip_prefix_append [simp]: "strip_prefix p (p @ s) = Some s"
  by (simp add: strip_prefix_def)

lemma strip_prefix_None: "strip_prefix p s = None \<longleftrightarrow> \<not> prefix p s"
  by (simp add: strip_prefix_def)

lemma strip_prefix_Some: "strip_prefix p s = Some t \<longleftrightarrow> s = p @ t"
  by (auto simp: strip_prefix_def prefix_def split: if_splits)

lemma split_once_append: "c \<notin> set a \<Longrightarrow> split_once c (a @ c # b) = Some (a, b)"
proof -
  assume "c \<notin> set a"
  then have "find_char c (a @ c # b) = Some (length a)"
    by (induction a) auto
  then show ?thesis by (simp add: split_once_def)
qed

lemma split_once_Some:
  assumes "split_once c s = Some (a, b)"
  shows "s = a @ c # b \<and> c \<notin> set a"
proof -
  from assms obtain i where i: "find_char c s = Some i" "a = take i s" "b = drop (Suc i) s"
    by (auto simp: split_once_def)
  with find_char_Some [OF i(1)] show ?thesis by (auto simp: id_take_nth_drop)
qed

lemma split_inclusive_line:
  "NL \<notin> set l \<Longrightarrow> split_inclusive NL (l @ NL # s) = (l @ [NL]) # split_inclusive NL s"
  by (induction l) auto

lemma split_inclusive_lines:
  assumes "\<forall>l \<in> set ls. NL \<notin> set l"
  shows "split_inclusive NL (concat (map (\<lambda>l. l @ [NL]) ls)) = map (\<lambda>l. l @ [NL]) ls"
  using assms by (induction ls) (auto simp: split_inclusive_line)

definition plain_line :: "rstr \<Rightarrow> bool" where
  "plain_line l \<longleftrightarrow> NL \<notin> set l \<and> \<not> suffix [CR] l"

lemma line_body_plain [simp]: "plain_line l \<Longrightarrow> line_body (l @ [NL]) = l"
  by (simp add: line_body_def plain_line_def)

lemma lines_concat:
  assumes "\<forall>l \<in> set ls. plain_line l"
  shows "lines (concat (map (\<lambda>l. l @ [NL]) ls)) = ls"
  using assms unfolding lines_def
  by (subst split_inclusive_lines) (auto simp: plain_line_def map_idI comp_def)

definition is_word :: "rstr \<Rightarrow> bool" where
  "is_word w \<longleftrightarrow> w \<noteq> [] \<and> list_all (\<lambda>c. \<not> is_ascii_whitespace c) w"

lemma split_at_white_word:
  assumes "list_all (\<lambda>c. \<not> is_ascii_whitespace c) w"
  shows "split_at_white w = [w]"
  using assms by (induction w) auto

lemma split_at_white_append:
  assumes "list_all (\<lambda>c. \<not> is_ascii_whitespace c) w" and "is_ascii_whitespace b"
  shows "split_at_white (w @ b # s) = w # split_at_white s"
  using assms by (induction w) auto

lemma split_words_single [simp]: "is_word w \<Longrightarrow> split_ascii_whitespace w = [w]"
  by (simp add: split_ascii_whitespace_def is_word_def split_at_white_word)

lemma split_words_Cons [simp]:
  "is_word w \<Longrightarrow> is_ascii_whitespace b \<Longrightarrow>
   split_ascii_whitespace (w @ b # s) = w # split_ascii_whitespace s"
  by (simp add: split_ascii_whitespace_def is_word_def split_at_white_append)

lemma split_words_blank [simp]:
  "is_ascii_whitespace b \<Longrightarrow> split_ascii_whitespace (b # s) = split_ascii_whitespace s"
  by (simp add: split_ascii_whitespace_def)

lemma split_words_Nil [simp]: "split_ascii_whitespace [] = []"
  by (simp add: split_ascii_whitespace_def)

lemma split_words_are_words: "w \<in> set (split_ascii_whitespace s) \<Longrightarrow> is_word w"
proof -
  have "list_all (\<lambda>c. \<not> is_ascii_whitespace c) v" if "v \<in> set (split_at_white s)" for v
    using that
  proof (induction s arbitrary: v)
    case (Cons x xs)
    then show ?case by (cases "split_at_white xs") (auto split: if_splits)
  qed simp
  then show "w \<in> set (split_ascii_whitespace s) \<Longrightarrow> is_word w"
    by (auto simp: split_ascii_whitespace_def is_word_def)
qed

lemma split_words_join:
  assumes "list_all is_word ws"
  shows "split_ascii_whitespace (join [SP] ws) = ws"
  using assms
proof (induction "[SP]" ws rule: join.induct)
  case (3 w v ws)
  then show ?case using split_words_Cons [of w SP] by (simp add: is_ascii_whitespace_def)
qed auto

lemma digits_value_snoc: "digits_value (s @ [c]) = digits_value s * 10 + digit_value c"
  by (simp add: digits_value_def)

lemma digit_char:
  assumes "d < 10"
  shows "is_ascii_digit (char_of (48 + d))" and "digit_value (char_of (48 + d :: nat)) = d"
  using assms by (simp_all add: byte_class_defs digit_value_def)

lemma show_nat_digits: "is_digits (show_nat n) \<and> digits_value (show_nat n) = n"
proof (induction n rule: show_nat.induct)
  case (1 n)
  have last: "n mod 10 < 10" by simp
  show ?case
  proof (cases "n < 10")
    case True
    then show ?thesis
      using digit_char [OF True] by (simp add: show_nat.simps [of n] is_digits_def digits_value_def)
  next
    case False
    then show ?thesis
      using 1 digit_char [OF last]
      by (simp add: show_nat.simps [of n] is_digits_def digits_value_snoc)
  qed
qed

lemma digit_not_sign: "is_ascii_digit c \<Longrightarrow> c \<noteq> CHR ''+'' \<and> c \<noteq> CHR ''-'' \<and> \<not> is_ascii_whitespace c"
  by (auto simp: byte_class_defs is_ascii_whitespace_def)

lemma unsign_digits: "is_digits s \<Longrightarrow> unsign s = s"
  by (cases s) (auto simp: is_digits_def unsign_def dest: digit_not_sign)

lemma is_digits_word: "is_digits s \<Longrightarrow> is_word s"
  by (auto simp: is_digits_def is_word_def list_all_iff dest: digit_not_sign)

lemma is_word_show_nat [simp]: "is_word (show_nat n)"
  using show_nat_digits is_digits_word by blast

lemma is_word_show_int [simp]: "is_word (show_int i)"
proof (cases "i < 0")
  case True
  then show ?thesis
    using is_word_show_nat [of "nat (- i)"]
    by (simp add: show_int_def is_word_def is_ascii_whitespace_def)
next
  case False
  then show ?thesis by (simp add: show_int_def)
qed

lemma parse_unsigned_show: "parse_unsigned limit (show_nat n) = (if n \<le> limit then Some n else None)"
  using show_nat_digits [of n] by (simp add: parse_unsigned_def unsign_digits)

lemma parse_u64_show: "parse_u64 (show_nat (unat x)) = Some x"
proof -
  have "unat x \<le> 2 ^ 64 - 1" for x :: "64 word"
    using unsigned_less [of x, where ?'a = nat] by simp
  then show ?thesis by (simp add: parse_u64_def parse_unsigned_show)
qed

lemma parse_u16_show: "parse_u16 (show_nat (unat p)) = Some p"
proof -
  have "unat p \<le> 2 ^ 16 - 1" for p :: "16 word"
    using unsigned_less [of p, where ?'a = nat] by simp
  then show ?thesis by (simp add: parse_u16_def parse_unsigned_show)
qed

lemma parse_i64_show:
  assumes "in_i64 i"
  shows "parse_i64 (show_int i) = Some i"
proof (cases "i < 0")
  case True
  then show ?thesis
    using assms show_nat_digits [of "nat (- i)"] by (simp add: parse_i64_def show_int_def)
next
  case False
  obtain c t where ct: "show_nat (nat i) = c # t"
    using show_nat_digits [of "nat i"] by (cases "show_nat (nat i)") (auto simp: is_digits_def)
  with show_nat_digits [of "nat i"] have "c \<noteq> CHR ''-''"
    by (auto simp: is_digits_def dest: digit_not_sign)
  moreover have "nat i \<le> 2 ^ 63 - 1" using assms False by (simp add: i64_defs)
  ultimately show ?thesis
    using False ct parse_unsigned_show [of "2 ^ 63 - 1" "nat i"]
    by (simp add: parse_i64_def show_int_def)
qed

section \<open>Printable words\<close>

text \<open>Printable ASCII without spaces or bars, as host names, kernel releases and command names are.\<close>

definition printable :: "char \<Rightarrow> bool" where
  "printable c \<longleftrightarrow> 33 \<le> byte c \<and> byte c < 127 \<and> c \<noteq> CHR ''|''"

definition is_name :: "rstr \<Rightarrow> bool" where
  "is_name w \<longleftrightarrow> w \<noteq> [] \<and> list_all printable w"

lemma strip_any_head:
  "list_all (\<lambda>p. hd p \<noteq> c) ps \<Longrightarrow> strip_any ps (c # s) = None"
proof (induction ps)
  case (Cons p ps)
  then show ?case by (cases p) auto
qed simp

lemma white_bytes:
  "list_all (\<lambda>p. byte (hd p) < 33 \<or> 127 \<le> byte (hd p)) utf8_whitespace"
  "list_all (\<lambda>p. byte (hd p) < 33 \<or> 127 \<le> byte (hd p)) (map rev utf8_whitespace)"
  by (simp_all add: utf8_whitespace_def byte_def)

lemma printable_not_white:
  assumes "33 \<le> byte c" "byte c < 127"
  shows "strip_any utf8_whitespace (c # s) = None" "strip_any (map rev utf8_whitespace) (c # s) = None"
  using white_bytes assms by (auto intro!: strip_any_head elim!: list.pred_mono_strong)

lemma strip_while_space:
  "strip_any utf8_whitespace s = None \<Longrightarrow> strip_while utf8_whitespace (CHR '' '' # s) = s"
proof -
  assume none: "strip_any utf8_whitespace s = None"
  have "strip_any utf8_whitespace (CHR '' '' # s) = Some s" by (simp add: utf8_whitespace_def)
  with none show ?thesis by (simp add: strip_while.simps [of _ "CHR '' '' # s"] strip_while_None)
qed

lemma trim_bounded:
  assumes "33 \<le> byte a" "byte a < 127" "33 \<le> byte z" "byte z < 127" "s = a # t" "s = u @ [z]"
  shows "trim s = s" "trim (CHR '' '' # s) = s"
proof -
  have "rev s = z # rev u" using assms(6) by simp
  then have none: "strip_any utf8_whitespace s = None" "strip_any (map rev utf8_whitespace) (rev s) = None"
    unfolding assms(5) by (simp_all only: printable_not_white assms(1-4))
  then show "trim s = s" by (rule trim_idI)
  show "trim (CHR '' '' # s) = s"
    using none strip_while_space by (simp add: trim_def trim_start_def trim_end_def strip_while_None)
qed

lemma is_name_ends:
  assumes "is_name w"
  obtains a t u z where "w = a # t" "w = u @ [z]" "printable a" "printable z"
proof -
  have w: "w \<noteq> []" "\<forall>c \<in> set w. printable c" using assms by (auto simp: is_name_def list_all_iff)
  then have "w = hd w # tl w" "w = butlast w @ [last w]" by simp_all
  moreover have "printable (hd w)" "printable (last w)" using w by simp_all
  ultimately show thesis by (rule that)
qed

lemma trim_name:
  assumes "is_name w"
  shows "trim w = w"
proof -
  obtain a t u z where "w = a # t" "w = u @ [z]" "printable a" "printable z" using is_name_ends [OF assms] .
  then show ?thesis using trim_bounded(1) [of a z w t u] by (simp only: printable_def)
qed

lemma trim_name_space:
  assumes "is_name w"
  shows "trim (w @ [CHR '' '']) = w"
proof -
  obtain a t u z where w: "w = a # t" "w = u @ [z]" "printable a" "printable z" using is_name_ends [OF assms] .
  have "trim_start (w @ [CHR '' '']) = w @ [CHR '' '']"
    using printable_not_white(1) [of a] w(1,3) by (simp add: trim_start_def printable_def strip_while_None)
  moreover have "strip_any (map rev utf8_whitespace) (CHR '' '' # rev w) = Some (rev w)"
    by (simp add: utf8_whitespace_def)
  moreover have "strip_any (map rev utf8_whitespace) (rev w) = None"
    using printable_not_white(2) [of z] w(2,4) by (simp add: printable_def)
  ultimately show ?thesis
    by (simp add: trim_def trim_end_def strip_while.simps [of _ "CHR '' '' # rev w"] strip_while_None)
qed

lemma white_not_printable: "is_ascii_whitespace c \<Longrightarrow> \<not> printable c"
  by (auto simp: is_ascii_whitespace_def printable_def byte_def)

lemma name_no_bar: "is_name w \<Longrightarrow> CHR ''|'' \<notin> set w"
  by (auto simp: is_name_def list_all_iff printable_def)

lemma is_name_word: "is_name w \<Longrightarrow> is_word w"
  using white_not_printable by (auto simp: is_name_def is_word_def list_all_iff)

end
