(* ===== verification/Ieee.thy ===== *)
theory Ieee
  imports Complex_Main "HOL-Library.Log_Nat" Rust_Text
begin

text \<open>
  The arithmetic of Rust's \<open>f32\<close> and \<open>f64\<close>: IEEE 754 binary formats with round to nearest, ties to even.
  A finite value is the rational number it denotes, so that every operation is the exact operation on
  rationals followed by one rounding. The two zeros are one value: no modelled code divides by a zero it
  has not tested for, and none looks at the sign of one.
\<close>

section \<open>Formats and rounding\<close>

datatype flt = Fin rat | PInf | NInf | NaN

datatype fmt = F32 | F64

primrec fprec :: "fmt \<Rightarrow> nat" where
  "fprec F32 = 24"
| "fprec F64 = 53"

primrec femin :: "fmt \<Rightarrow> int" where
  "femin F32 = - 126"
| "femin F64 = - 1022"

primrec femax :: "fmt \<Rightarrow> int" where
  "femax F32 = 127"
| "femax F64 = 1023"

text \<open>The exponent of a positive rational: \<open>2 powi e \<le> q < 2 powi (e + 1)\<close>.\<close>

definition ilog2 :: "rat \<Rightarrow> int" where
  "ilog2 q =
     (case quotient_of q of (n, d) \<Rightarrow>
        let e = bitlen n - bitlen d in if 2 powi e \<le> q then e else e - 1)"

definition round_even :: "rat \<Rightarrow> int" where
  "round_even x =
     (let f = \<lfloor>x\<rfloor>; r = x - of_int f in
      if r < 1 / 2 then f else if r > 1 / 2 then f + 1 else if even f then f else f + 1)"

definition ulp :: "fmt \<Rightarrow> rat \<Rightarrow> rat" where
  "ulp k q = 2 powi (max (ilog2 q) (femin k) - (int (fprec k) - 1))"

definition round_rat :: "fmt \<Rightarrow> rat \<Rightarrow> rat" where
  "round_rat k q = (if q = 0 then 0 else of_int (round_even (q / ulp k q)) * ulp k q)"

definition rnd_pos :: "fmt \<Rightarrow> rat \<Rightarrow> flt" where
  "rnd_pos k q = (let r = round_rat k q in if r < 2 powi (femax k + 1) then Fin r else PInf)"

primrec fneg :: "flt \<Rightarrow> flt" where
  "fneg (Fin q) = Fin (- q)"
| "fneg PInf = NInf"
| "fneg NInf = PInf"
| "fneg NaN = NaN"

definition rnd :: "fmt \<Rightarrow> rat \<Rightarrow> flt" where
  "rnd k q = (if q < 0 then fneg (rnd_pos k (- q)) else rnd_pos k q)"

section \<open>Operations\<close>

definition inf_of :: "bool \<Rightarrow> flt" where
  "inf_of neg = (if neg then NInf else PInf)"

fun fadd :: "fmt \<Rightarrow> flt \<Rightarrow> flt \<Rightarrow> flt" where
  "fadd k (Fin x) (Fin y) = rnd k (x + y)"
| "fadd k NaN y = NaN"
| "fadd k x NaN = NaN"
| "fadd k PInf NInf = NaN"
| "fadd k NInf PInf = NaN"
| "fadd k PInf y = PInf"
| "fadd k NInf y = NInf"
| "fadd k x PInf = PInf"
| "fadd k x NInf = NInf"

definition fsub :: "fmt \<Rightarrow> flt \<Rightarrow> flt \<Rightarrow> flt" where
  "fsub k x y = fadd k x (fneg y)"

primrec fsign :: "flt \<Rightarrow> rat" where
  "fsign (Fin x) = x"
| "fsign PInf = 1"
| "fsign NInf = - 1"
| "fsign NaN = 0"

fun fmul :: "fmt \<Rightarrow> flt \<Rightarrow> flt \<Rightarrow> flt" where
  "fmul k (Fin x) (Fin y) = rnd k (x * y)"
| "fmul k x y =
     (if x = NaN \<or> y = NaN \<or> fsign x = 0 \<or> fsign y = 0 then NaN else inf_of (fsign x * fsign y < 0))"

fun fdiv :: "fmt \<Rightarrow> flt \<Rightarrow> flt \<Rightarrow> flt" where
  "fdiv k (Fin x) (Fin y) =
     (if y = 0 then (if x = 0 then NaN else inf_of (x < 0)) else rnd k (x / y))"
| "fdiv k NaN y = NaN"
| "fdiv k x NaN = NaN"
| "fdiv k (Fin x) y = Fin 0"
| "fdiv k x (Fin y) = inf_of (if y = 0 then x = NInf else fsign x * y < 0)"
| "fdiv k x y = NaN"

fun flt_less :: "flt \<Rightarrow> flt \<Rightarrow> bool" where
  "flt_less NaN y = False"
| "flt_less x NaN = False"
| "flt_less (Fin x) (Fin y) = (x < y)"
| "flt_less x PInf = (x \<noteq> PInf)"
| "flt_less NInf y = (y \<noteq> NInf)"
| "flt_less x y = False"

fun flt_le :: "flt \<Rightarrow> flt \<Rightarrow> bool" where
  "flt_le NaN y = False"
| "flt_le x NaN = False"
| "flt_le x y = (x = y \<or> flt_less x y)"

definition is_finite :: "flt \<Rightarrow> bool" where
  "is_finite x = (case x of Fin _ \<Rightarrow> True | _ \<Rightarrow> False)"

definition is_nan :: "flt \<Rightarrow> bool" where
  "is_nan x \<longleftrightarrow> x = NaN"

text \<open>\<open>f64::max\<close>: a value that is not a number gives way to the other.\<close>

definition f_max :: "flt \<Rightarrow> flt \<Rightarrow> flt" where
  "f_max x y = (if is_nan x then y else if flt_less x y then y else x)"

text \<open>Conversions with \<open>as\<close>: integers round, narrowing rounds, a float becomes an integer by truncation
  that saturates, and a value that is not a number becomes zero.\<close>

definition of_unsigned :: "fmt \<Rightarrow> 'a::len word \<Rightarrow> flt" where
  "of_unsigned k w = rnd k (of_nat (unat w))"

definition of_signed :: "fmt \<Rightarrow> int \<Rightarrow> flt" where
  "of_signed k i = rnd k (of_int i)"

definition flt_cast :: "fmt \<Rightarrow> flt \<Rightarrow> flt" where
  "flt_cast k x = (case x of Fin q \<Rightarrow> rnd k q | y \<Rightarrow> y)"

definition to_u64 :: "flt \<Rightarrow> 64 word" where
  "to_u64 x =
     (case x of
        Fin q \<Rightarrow> if q < 1 then 0 else if q \<ge> 2 ^ 64 then - 1 else of_int \<lfloor>q\<rfloor>
      | PInf \<Rightarrow> - 1
      | _ \<Rightarrow> 0)"

text \<open>
  \<open>str::parse\<close> for floats: an optional sign, then \<open>inf\<close>, \<open>infinity\<close> or \<open>nan\<close> in any case, or digits
  with an optional point and an optional exponent; the result is correctly rounded.
\<close>

definition take_sign :: "rstr \<Rightarrow> bool \<times> rstr" where
  "take_sign s =
     (case s of
        [] \<Rightarrow> (False, [])
      | c # t \<Rightarrow> if c = CHR ''-'' then (True, t) else if c = CHR ''+'' then (False, t) else (False, s))"

definition parse_exponent :: "rstr \<Rightarrow> int option" where
  "parse_exponent s =
     (case s of
        [] \<Rightarrow> Some 0
      | c # t \<Rightarrow>
          (case take_sign t of (neg, ds) \<Rightarrow>
             if (c = CHR ''e'' \<or> c = CHR ''E'') \<and> is_digits ds
             then Some (if neg then - int (digits_value ds) else int (digits_value ds)) else None))"

definition parse_decimal :: "rstr \<Rightarrow> rat option" where
  "parse_decimal s =
     (let ip = takeWhile is_ascii_digit s;
          rest = dropWhile is_ascii_digit s;
          dotted = (case rest of c # t \<Rightarrow> if c = CHR ''.'' then Some t else None | [] \<Rightarrow> None);
          fp = (case dotted of Some t \<Rightarrow> takeWhile is_ascii_digit t | None \<Rightarrow> []);
          rest' = (case dotted of Some t \<Rightarrow> dropWhile is_ascii_digit t | None \<Rightarrow> rest)
      in if ip = [] \<and> fp = [] then None
         else map_option (\<lambda>e. of_nat (digits_value (ip @ fp)) * 10 powi (e - int (length fp))) (parse_exponent rest'))"

definition parse_flt :: "fmt \<Rightarrow> rstr \<Rightarrow> flt option" where
  "parse_flt k s =
     (case take_sign s of (neg, t) \<Rightarrow>
        map_option (\<lambda>x. if neg then fneg x else x)
          (let l = to_ascii_lowercase t in
           if l = ''inf'' \<or> l = ''infinity'' then Some PInf
           else if l = ''nan'' then Some NaN
           else map_option (rnd_pos k) (parse_decimal t)))"

section \<open>Lemmas on rounding\<close>

lemma pow2_pos [simp]: "(0::rat) < 2 powi e"
  by (simp add: zero_less_power_int)

lemma pow2_add: "(2::rat) powi (a + b) = 2 powi a * 2 powi b"
  by (simp add: power_int_add)

lemma pow2_diff: "(2::rat) powi (a - b) = 2 powi a / 2 powi b"
  by (simp add: power_int_diff)

lemma pow2_le_iff: "(2::rat) powi a \<le> 2 powi b \<longleftrightarrow> a \<le> b"
  by (meson not_le power_int_increasing power_int_strict_increasing one_le_numeral one_less_numeral_iff semiring_norm(76))

lemma pow2_less_iff: "(2::rat) powi a < 2 powi b \<longleftrightarrow> a < b"
  by (meson not_le pow2_le_iff)

lemma bitlen_powi:
  assumes "0 < n"
  shows "(2::rat) powi (bitlen n - 1) \<le> of_int n" and "(of_int n :: rat) < 2 powi bitlen n"
proof -
  have pos: "bitlen n \<ge> 1" using assms bitlen_eq_zero_iff [of n] bitlen_nonneg [of n] by linarith
  have "(of_int (2 ^ nat (bitlen n - 1)) :: rat) \<le> of_int n" "(of_int n :: rat) < of_int (2 ^ nat (bitlen n))"
    using bitlen_bounds [OF assms] by (simp_all only: of_int_le_iff of_int_less_iff)
  with pos show "(2::rat) powi (bitlen n - 1) \<le> of_int n" "(of_int n :: rat) < 2 powi bitlen n"
    by (simp_all add: power_int_def)
qed

lemma ilog2_bounds:
  assumes "0 < q"
  shows "2 powi ilog2 q \<le> q" and "q < 2 powi (ilog2 q + 1)"
proof -
  obtain n d where nd: "quotient_of q = (n, d)" by fastforce
  then have q: "q = of_int n / of_int d" and d: "0 < d"
    by (simp_all add: quotient_of_div quotient_of_denom_pos)
  with assms have n: "0 < n" by (simp add: zero_less_divide_iff)
  let ?e = "bitlen n - bitlen d"
  have "q < 2 powi bitlen n / 2 powi (bitlen d - 1)"
    unfolding q using bitlen_powi [OF n] bitlen_powi [OF d] n by (intro frac_less) auto
  also have "\<dots> = 2 powi (?e + 1)" by (simp add: pow2_diff [symmetric] algebra_simps)
  finally have up: "q < 2 powi (?e + 1)" .
  have "2 powi (bitlen n - 1) / 2 powi bitlen d \<le> q"
    unfolding q using bitlen_powi [OF n] bitlen_powi [OF d] d n by (intro frac_le) auto
  moreover have "(2::rat) powi (bitlen n - 1) / 2 powi bitlen d = 2 powi (?e - 1)"
    by (simp add: pow2_diff [symmetric] algebra_simps)
  ultimately have low: "2 powi (?e - 1) \<le> q" by simp
  have "ilog2 q = (if 2 powi ?e \<le> q then ?e else ?e - 1)"
    by (simp add: ilog2_def nd Let_def)
  with up low show "2 powi ilog2 q \<le> q" "q < 2 powi (ilog2 q + 1)" by (auto split: if_splits)
qed

lemma ilog2_mono:
  assumes "0 < x" "x \<le> y"
  shows "ilog2 x \<le> ilog2 y"
proof -
  have "2 powi ilog2 x \<le> x" using ilog2_bounds assms by blast
  also have "\<dots> \<le> y" by fact
  also have "y < 2 powi (ilog2 y + 1)" using ilog2_bounds assms by force
  finally show ?thesis by (simp add: pow2_less_iff)
qed

lemma round_even_int [simp]: "round_even (of_int i) = i"
  by (simp add: round_even_def)

lemma round_even_near: "of_int (round_even x) - x \<le> 1 / 2" "x - of_int (round_even x) \<le> 1 / 2"
  by (auto simp: round_even_def Let_def) linarith+

lemma round_even_mono:
  assumes "x \<le> y"
  shows "round_even x \<le> round_even y"
proof (cases "\<lfloor>x\<rfloor> = \<lfloor>y\<rfloor>")
  case True
  then show ?thesis using assms by (auto simp: round_even_def Let_def)
next
  case False
  then have "\<lfloor>x\<rfloor> + 1 \<le> \<lfloor>y\<rfloor>" using floor_mono [OF assms] by linarith
  moreover have "round_even x \<le> \<lfloor>x\<rfloor> + 1" "\<lfloor>y\<rfloor> \<le> round_even y" by (simp_all add: round_even_def Let_def)
  ultimately show ?thesis by linarith
qed

lemma ulp_pos [simp]: "0 < ulp k q"
  by (simp add: ulp_def)

lemma round_rat_nonneg:
  assumes "0 \<le> q"
  shows "0 \<le> round_rat k q"
proof -
  have "round_even (of_int 0) \<le> round_even (q / ulp k q)"
    by (rule round_even_mono) (simp add: assms divide_nonneg_pos)
  then show ?thesis by (simp only: round_even_int) (simp add: round_rat_def less_imp_le)
qed

lemma pow2_ulp:
  "2 powi (max (ilog2 q) (femin k) + 1) = of_int (2 ^ fprec k) * ulp k q"
  "2 powi max (ilog2 q) (femin k) = of_int (2 ^ (fprec k - 1)) * ulp k q"
proof -
  have "(2::rat) powi int (fprec k) * ulp k q = 2 powi (int (fprec k) + (max (ilog2 q) (femin k) - (int (fprec k) - 1)))"
    unfolding ulp_def pow2_add ..
  then show "2 powi (max (ilog2 q) (femin k) + 1) = of_int (2 ^ fprec k) * ulp k q"
    by (simp add: algebra_simps)
  have "(2::rat) powi (int (fprec k) - 1) * ulp k q = 2 powi (int (fprec k) - 1 + (max (ilog2 q) (femin k) - (int (fprec k) - 1)))"
    unfolding ulp_def pow2_add ..
  moreover have "(2::rat) powi (int (fprec k) - 1) = of_int (2 ^ (fprec k - 1))"
    by (cases k) (simp_all add: power_int_def)
  ultimately show "2 powi max (ilog2 q) (femin k) = of_int (2 ^ (fprec k - 1)) * ulp k q"
    by (simp add: algebra_simps)
qed

lemma round_rat_upper:
  assumes "0 < q"
  shows "round_rat k q \<le> 2 powi (max (ilog2 q) (femin k) + 1)"
proof -
  have "q < 2 powi (ilog2 q + 1)" using ilog2_bounds [OF assms] by simp
  also have "\<dots> \<le> 2 powi (max (ilog2 q) (femin k) + 1)" by (simp add: pow2_le_iff)
  finally have "q / ulp k q \<le> of_int (2 ^ fprec k)" by (simp add: pow2_ulp(1) divide_le_eq)
  from round_even_mono [OF this] have "round_even (q / ulp k q) \<le> 2 ^ fprec k" by (simp only: round_even_int)
  then have "(of_int (round_even (q / ulp k q)) :: rat) \<le> of_int (2 ^ fprec k)" by (simp only: of_int_le_iff)
  then show ?thesis using assms by (simp add: round_rat_def pow2_ulp(1))
qed

lemma round_rat_lower:
  assumes "0 < q" and "femin k \<le> ilog2 q"
  shows "2 powi ilog2 q \<le> round_rat k q"
proof -
  have max: "max (ilog2 q) (femin k) = ilog2 q" using assms by simp
  have "of_int (2 ^ (fprec k - 1)) \<le> q / ulp k q"
    using ilog2_bounds(1) [OF assms(1)] pow2_ulp(2) [of q k] by (simp add: max le_divide_eq)
  from round_even_mono [OF this] have "2 ^ (fprec k - 1) \<le> round_even (q / ulp k q)" by (simp only: round_even_int)
  then have "(of_int (2 ^ (fprec k - 1)) :: rat) \<le> of_int (round_even (q / ulp k q))" by (simp only: of_int_le_iff)
  then show ?thesis using assms pow2_ulp(2) [of q k] by (simp add: round_rat_def max)
qed

lemma round_rat_mono:
  assumes "0 \<le> x" "x \<le> y"
  shows "round_rat k x \<le> round_rat k y"
proof (cases "x = 0")
  case True
  then show ?thesis using round_rat_nonneg [of y k] assms by (simp add: round_rat_def)
next
  case False
  with assms have x: "0 < x" and y: "0 < y" by auto
  let ?ex = "max (ilog2 x) (femin k)" and ?ey = "max (ilog2 y) (femin k)"
  have le: "?ex \<le> ?ey" using ilog2_mono [OF x assms(2)] by auto
  show ?thesis
  proof (cases "?ex = ?ey")
    case True
    then have "ulp k x = ulp k y" by (simp add: ulp_def)
    moreover from this have "round_even (x / ulp k x) \<le> round_even (y / ulp k y)"
      using assms(2) by (intro round_even_mono) (simp add: divide_right_mono less_imp_le)
    ultimately show ?thesis using x y by (simp add: round_rat_def mult_right_mono less_imp_le)
  next
    case False
    with le have lt: "?ex + 1 \<le> ilog2 y" and ey: "femin k \<le> ilog2 y" by auto
    have "round_rat k x \<le> 2 powi (?ex + 1)" by (rule round_rat_upper [OF x])
    also have "\<dots> \<le> 2 powi ilog2 y" using lt by (simp add: pow2_le_iff)
    also have "\<dots> \<le> round_rat k y" by (rule round_rat_lower [OF y ey])
    finally show ?thesis .
  qed
qed

text \<open>Integers up to the precision of the format are exact.\<close>

lemma round_rat_of_nat:
  assumes "n < 2 ^ fprec k"
  shows "round_rat k (of_nat n) = of_nat n"
proof (cases "n = 0")
  case False
  let ?q = "of_nat n :: rat" and ?p = "int (fprec k)"
  have q: "0 < ?q" using False by simp
  have "(2::rat) powi 0 \<le> ?q" using False by simp
  also have "?q < 2 powi (ilog2 ?q + 1)" by (rule ilog2_bounds [OF q])
  finally have e0: "0 \<le> ilog2 ?q" by (simp only: pow2_less_iff)
  have "2 powi ilog2 ?q \<le> ?q" by (rule ilog2_bounds [OF q])
  also have "?q < of_nat (2 ^ fprec k)" using assms by (simp only: of_nat_less_iff)
  also have "\<dots> = 2 powi ?p" by simp
  finally have ep: "ilog2 ?q < ?p" by (simp only: pow2_less_iff)
  have "femin k \<le> 0" by (cases k) simp_all
  then have ulp: "ulp k ?q = 2 powi (ilog2 ?q - (?p - 1))" using e0 by (simp add: ulp_def)
  have "?q / ulp k ?q = ?q * 2 powi (- (ilog2 ?q - (?p - 1)))"
    unfolding ulp divide_inverse power_int_minus ..
  also have "(2::rat) powi (- (ilog2 ?q - (?p - 1))) = of_int (2 ^ nat (?p - 1 - ilog2 ?q))"
    using ep by (simp add: power_int_def)
  finally have "?q / ulp k ?q = of_int (int n * 2 ^ nat (?p - 1 - ilog2 ?q))" by simp
  then have "of_int (round_even (?q / ulp k ?q)) = ?q / ulp k ?q" by (simp only: round_even_int)
  then show ?thesis using q less_imp_neq [OF ulp_pos [of k ?q]] by (simp add: round_rat_def)
qed (simp add: round_rat_def)

section \<open>Rounding without overflow\<close>

lemma rnd_mono_Fin:
  assumes "rnd k y = Fin s" "0 \<le> x" "x \<le> y"
  obtains r where "rnd k x = Fin r" "0 \<le> r" "r \<le> s"
proof -
  have s: "s = round_rat k y" "round_rat k y < 2 powi (femax k + 1)"
    using assms by (auto simp: rnd_def rnd_pos_def Let_def split: if_splits)
  have le: "round_rat k x \<le> round_rat k y" by (rule round_rat_mono) fact+
  from le_less_trans [OF this s(2)] have "round_rat k x < 2 powi (femax k + 1)" .
  then have "rnd k x = Fin (round_rat k x)" using assms(2) by (simp add: rnd_def rnd_pos_def Let_def)
  then show thesis using le s round_rat_nonneg [OF assms(2)] by (intro that) auto
qed

lemma rnd_of_nat:
  assumes "n < 2 ^ fprec k"
  shows "rnd k (of_nat n) = Fin (of_nat n)"
proof -
  have "(of_nat n :: rat) < of_nat (2 ^ fprec k)" using assms by (simp only: of_nat_less_iff)
  also have "\<dots> = 2 powi int (fprec k)" by simp
  also have "\<dots> \<le> 2 powi (femax k + 1)" by (subst pow2_le_iff) (cases k, simp_all)
  finally show ?thesis by (simp add: rnd_def rnd_pos_def Let_def round_rat_of_nat [OF assms])
qed

lemma rnd_one [simp]: "rnd k 1 = Fin 1"
  using rnd_of_nat [of 1 k] by (cases k) simp_all

lemma rnd_hundred [simp]: "rnd k 100 = Fin 100"
  using rnd_of_nat [of 100 k] by (cases k) simp_all

lemma ilog2_pow2 [simp]: "ilog2 (2 powi e) = e"
proof -
  have "(2::rat) powi ilog2 (2 powi e) \<le> 2 powi e" "(2::rat) powi e < 2 powi (ilog2 (2 powi e) + 1)"
    by (rule ilog2_bounds; simp)+
  then show ?thesis by (simp add: pow2_le_iff pow2_less_iff)
qed

lemma round_rat_pow2:
  assumes "femin k \<le> e"
  shows "round_rat k (2 powi e) = 2 powi e"
proof -
  have eq: "2 powi e = of_int (2 ^ (fprec k - 1)) * ulp k (2 powi e)"
    using pow2_ulp(2) [of "2 powi e" k] assms by simp
  then have "2 powi e / ulp k (2 powi e) = of_int (2 ^ (fprec k - 1))"
    using ulp_pos [of k "2 powi e"] by (metis less_irrefl nonzero_mult_div_cancel_right)
  then have "of_int (round_even (2 powi e / ulp k (2 powi e))) * ulp k (2 powi e) = 2 powi e"
    using eq by (simp only: round_even_int)
  then show ?thesis by (simp add: round_rat_def)
qed

lemma rnd_pow64: "rnd k (2 powi 64) = Fin (2 powi 64)"
proof -
  have "round_rat k (2 powi 64) = 2 powi 64" by (rule round_rat_pow2) (cases k, simp_all)
  moreover have "(2::rat) powi 64 < 2 powi (femax k + 1)" by (subst pow2_less_iff) (cases k, simp_all)
  moreover have "\<not> (2::rat) powi 64 < 0" using pow2_pos [of 64] by (simp only: not_less less_imp_le)
  ultimately show ?thesis
    unfolding rnd_def rnd_pos_def Let_def by (simp only: if_False if_True)
qed

lemma of_unsigned_Fin:
  fixes w :: "64 word"
  obtains r where "of_unsigned k w = Fin r" "0 \<le> r" "w \<noteq> 0 \<Longrightarrow> 1 \<le> r"
proof -
  have "unat w < 2 ^ 64" using unsigned_less [of w, where ?'a = nat] by simp
  then have "(of_nat (unat w) :: rat) \<le> of_nat (2 ^ 64)" by (simp only: of_nat_le_iff less_imp_le)
  also have "(of_nat (2 ^ 64) :: rat) = 2 powi 64" by (simp add: power_int_def)
  finally obtain r where r: "rnd k (of_nat (unat w)) = Fin r" "0 \<le> r"
    by (rule rnd_mono_Fin [OF rnd_pow64 of_nat_0_le_iff])
  have "1 \<le> r" if "w \<noteq> 0"
  proof -
    from that have "1 \<le> unat w" by (simp only: One_nat_def Suc_le_eq unat_gt_0 not_False_eq_True)
    then have "(of_nat 1 :: rat) \<le> of_nat (unat w)" by (simp only: of_nat_le_iff)
    then have "(1::rat) \<le> of_nat (unat w)" by (simp only: of_nat_1)
    from rnd_mono_Fin [OF r(1) zero_le_one this] show ?thesis by (auto simp only: rnd_one flt.inject)
  qed
  then show thesis using r that unfolding of_unsigned_def by blast
qed

text \<open>A ratio of two counters, as a percentage: the part never exceeds the whole, rounding included.\<close>

definition percent :: "fmt \<Rightarrow> 64 word \<Rightarrow> 64 word \<Rightarrow> flt" where
  "percent k a b = fmul k (fdiv k (of_unsigned k a) (of_unsigned k b)) (Fin 100)"

lemma of_unsigned_mono:
  fixes a b :: "64 word"
  assumes "a \<le> b" "of_unsigned k b = Fin s"
  obtains r where "of_unsigned k a = Fin r" "0 \<le> r" "r \<le> s"
proof -
  have "(of_nat (unat a) :: rat) \<le> of_nat (unat b)" using assms(1) by (simp only: word_le_nat_alt of_nat_le_iff)
  from rnd_mono_Fin [OF assms(2)[unfolded of_unsigned_def] of_nat_0_le_iff this] show thesis
    using that unfolding of_unsigned_def by blast
qed

lemma percent_bounds:
  assumes "a \<le> b" "b \<noteq> 0"
  obtains p where "percent k a b = Fin p" "0 \<le> p" "p \<le> 100"
proof -
  obtain s where s: "of_unsigned k b = Fin s" "1 \<le> s" using of_unsigned_Fin [of k b] assms(2) by metis
  obtain r where r: "of_unsigned k a = Fin r" "0 \<le> r" "r \<le> s" using of_unsigned_mono [OF assms(1) s(1)] by metis
  have "0 \<le> r / s" "r / s \<le> 1" using r s by simp_all
  then obtain t where t: "rnd k (r / s) = Fin t" "0 \<le> t" "t \<le> 1" using rnd_mono_Fin [OF rnd_one] by metis
  then have "0 \<le> t * 100" "t * 100 \<le> 100" by simp_all
  then obtain u where "rnd k (t * 100) = Fin u" "0 \<le> u" "u \<le> 100" using rnd_mono_Fin [OF rnd_hundred] by metis
  then show thesis using r s t by (intro that [of u]) (auto simp: percent_def)
qed

section \<open>Rounding errors\<close>

lemma round_rat_error:
  assumes "0 < q"
  shows "q - ulp k q / 2 \<le> round_rat k q"
proof -
  have "(q / ulp k q - of_int (round_even (q / ulp k q))) * ulp k q \<le> 1 / 2 * ulp k q"
    using round_even_near(2) [of "q / ulp k q"] ulp_pos [of k q] by (intro mult_right_mono) (auto intro: less_imp_le)
  then have "q - of_int (round_even (q / ulp k q)) * ulp k q \<le> ulp k q / 2"
    using ulp_pos [of k q] by (simp add: left_diff_distrib)
  then show ?thesis using assms by (simp add: round_rat_def)
qed

lemma ulp_small:
  assumes "0 < q" "q < 2 powi 40"
  shows "ulp F64 q \<le> 2 powi (- 13)"
proof -
  have "2 powi ilog2 q \<le> q" by (rule ilog2_bounds [OF assms(1)])
  then have "(2::rat) powi ilog2 q < 2 powi 40" using assms(2) by (rule le_less_trans)
  then have "ilog2 q < 40" by (simp only: pow2_less_iff)
  then show ?thesis unfolding ulp_def pow2_le_iff by simp
qed

lemma ilog2_unique:
  assumes "2 powi e \<le> q" "q < 2 powi (e + 1)"
  shows "ilog2 q = e"
proof -
  have q: "0 < q" using pow2_pos [of e] assms(1) by (rule less_le_trans)
  have "(2::rat) powi e < 2 powi (ilog2 q + 1)" using assms(1) ilog2_bounds(2) [OF q] by (rule le_less_trans)
  moreover have "(2::rat) powi ilog2 q < 2 powi (e + 1)" using ilog2_bounds(1) [OF q] assms(2) by (rule le_less_trans)
  ultimately show ?thesis by (simp only: pow2_less_iff)
qed

lemma round_even_unique:
  assumes "\<bar>x - of_int i\<bar> < 1 / 2"
  shows "round_even x = i"
proof -
  have b: "x < of_int i + 1 / 2" "of_int i - 1 / 2 < x" using assms by linarith+
  then have "\<lfloor>x\<rfloor> = i \<or> \<lfloor>x\<rfloor> = i - 1" by (auto simp: floor_eq_iff)
  then show ?thesis
  proof
    assume "\<lfloor>x\<rfloor> = i"
    moreover have "x - of_int i < 1 / 2" using b by linarith
    ultimately show ?thesis unfolding round_even_def Let_def by (simp only: if_True)
  next
    assume f: "\<lfloor>x\<rfloor> = i - 1"
    have "\<not> x - of_int (i - 1) < 1 / 2" "1 / 2 < x - of_int (i - 1)" using b by simp_all
    then show ?thesis unfolding round_even_def Let_def f by (simp only: if_True if_False diff_add_cancel)
  qed
qed

text \<open>The double nearest to a decimal between 0 and 1.\<close>

lemma rnd_F64_value:
  assumes "2 powi e \<le> q" "q < 2 powi (e + 1)" "- 1022 \<le> e" "int n = 52 - e"
    and "\<bar>q * 2 ^ n - of_int m\<bar> < 1 / 2" "of_int m / 2 ^ n < (1 :: rat)"
  shows "rnd F64 q = Fin (of_int m / 2 ^ n)"
proof -
  have q: "0 < q" using pow2_pos [of e] assms(1) by (rule less_le_trans)
  have e: "ilog2 q = e" by (rule ilog2_unique) fact+
  have "ulp F64 q = 2 powi (- int n)" unfolding ulp_def e using assms(3,4) by simp
  then have ulp: "ulp F64 q = 1 / 2 ^ n" by (simp add: power_int_minus divide_inverse)
  then have "round_even (q / ulp F64 q) = m" using round_even_unique [OF assms(5)] by simp
  then have r: "round_rat F64 q = of_int m / 2 ^ n" using q by (simp add: round_rat_def ulp)
  have "of_int m / 2 ^ n < (2 :: rat) powi 0" using assms(6) by simp
  also have "\<dots> \<le> 2 powi (femax F64 + 1)" unfolding pow2_le_iff by simp
  finally show ?thesis using q unfolding rnd_def rnd_pos_def r Let_def by simp
qed

end
