(* ===== verification/Telemetry_Types.thy ===== *)
theory Telemetry_Types
  imports Ieee Core_Types
begin

text \<open>
  crates/kyvon-core/src/telemetry.rs: the samples a host is described by, and the judgements the types
  make on their own fields. Floats are those of \<open>Ieee\<close>, counters are 64-bit words.
\<close>

section \<open>Samples\<close>

record CpuSample =
  cs_total :: flt
  cs_user :: flt
  cs_system :: flt
  cs_iowait :: flt
  cs_steal :: flt
  cs_idle :: flt
  cs_nice :: flt
  cs_irq :: flt
  cs_cores :: "flt list"
  cs_load :: "flt \<times> flt \<times> flt"
  cs_ctx_switches :: "u64 option"
  cs_procs_running :: "u32 option"
  cs_procs_blocked :: "u32 option"

datatype CpuPressure = Nominal | Elevated | Saturated | PressureIo | Steal

record MemorySample =
  ms_total_bytes :: u64
  ms_used_bytes :: u64
  ms_available_bytes :: u64
  ms_free_bytes :: u64
  ms_cached_bytes :: u64
  ms_buffers_bytes :: u64
  ms_swap_total_bytes :: u64
  ms_swap_used_bytes :: u64
  ms_pressure_some_avg60 :: "flt option"

record NetworkInterface =
  ni_name :: rstr
  ni_rx_bytes_per_sec :: u64
  ni_tx_bytes_per_sec :: u64
  ni_rx_packets_per_sec :: u64
  ni_tx_packets_per_sec :: u64
  ni_rx_errors :: u64
  ni_tx_errors :: u64
  ni_rx_dropped :: u64
  ni_tx_dropped :: u64

datatype Exposure = Loopback | Interface | AllInterfaces

record PortInfo =
  pi_port :: u16
  pi_protocol :: rstr
  pi_address :: rstr
  pi_process :: "rstr option"
  pi_pid :: "u32 option"
  pi_exposure :: Exposure

record FilesystemInfo =
  fi_mount_point :: rstr
  fi_device :: rstr
  fi_fs_type :: rstr
  fi_total_bytes :: u64
  fi_used_bytes :: u64
  fi_available_bytes :: u64
  fi_inodes_total :: u64
  fi_inodes_used :: u64

record ProcessInfo =
  pr_pid :: u32
  pr_ppid :: u32
  pr_user :: rstr
  pr_cpu_pct :: flt
  pr_mem_pct :: flt
  pr_rss_bytes :: u64
  pr_state :: rstr
  pr_command :: rstr
  pr_uptime_secs :: u64

record ServiceInfo =
  sv_unit :: rstr
  sv_load_state :: rstr
  sv_active_state :: rstr
  sv_sub_state :: rstr
  sv_description :: rstr
  sv_enabled :: "rstr option"
  sv_active_since_ms :: "TimestampMs option"
  sv_restarts :: "u32 option"

record AgentHello =
  ah_agent_version :: rstr
  ah_protocol :: u32
  ah_hostname :: rstr
  ah_kernel :: rstr
  ah_arch :: rstr
  ah_collectors :: "rstr list"

record ProcessSample =
  ps_processes :: "ProcessInfo list"
  ps_total :: u32

datatype Payload =
    PHello AgentHello
  | PCpu CpuSample
  | PMemory MemorySample
  | PNetwork "NetworkInterface list"
  | PDisk "FilesystemInfo list"
  | PProcesses ProcessSample
  | PServices "ServiceInfo list"
  | PPorts "PortInfo list"
  | PError (err_collector: rstr) (err_message: rstr)

record Frame =
  fr_version :: u32
  fr_ts :: TimestampMs
  fr_payload :: Payload

primrec payload_kind :: "Payload \<Rightarrow> rstr" where
  "payload_kind (PHello h) = ''hello''"
| "payload_kind (PCpu c) = ''cpu''"
| "payload_kind (PMemory m) = ''memory''"
| "payload_kind (PNetwork n) = ''network''"
| "payload_kind (PDisk d) = ''disk''"
| "payload_kind (PProcesses p) = ''processes''"
| "payload_kind (PServices s) = ''services''"
| "payload_kind (PPorts p) = ''ports''"
| "payload_kind (PError c m) = ''error''"

section \<open>Judgements on a sample\<close>

definition load_per_core :: "CpuSample \<Rightarrow> u32 \<Rightarrow> flt option" where
  "load_per_core s cores = (if cores > 0 then Some (fdiv F32 (fst (cs_load s)) (of_unsigned F32 cores)) else None)"

definition pressure :: "CpuSample \<Rightarrow> u32 \<Rightarrow> CpuPressure" where
  "pressure s cores =
     (let load = (case load_per_core s cores of Some l \<Rightarrow> l | None \<Rightarrow> Fin 0) in
      if flt_less (Fin 10) (cs_steal s) then Steal
      else if flt_less (Fin 20) (cs_iowait s) then PressureIo
      else if flt_less (Fin 90) (cs_total s) \<or> flt_less (Fin 2) load then Saturated
      else if flt_less (Fin 70) (cs_total s) \<or> flt_less (Fin 1) load then Elevated
      else Nominal)"

definition saturating_sub_u64 :: "u64 \<Rightarrow> u64 \<Rightarrow> u64" where
  "saturating_sub_u64 a b = (if b \<le> a then a - b else 0)"

definition utilisation_pct :: "MemorySample \<Rightarrow> flt" where
  "utilisation_pct m =
     (if ms_total_bytes m = 0 then Fin 0
      else flt_cast F32 (percent F64 (saturating_sub_u64 (ms_total_bytes m) (ms_available_bytes m)) (ms_total_bytes m)))"

definition swap_pct :: "MemorySample \<Rightarrow> flt" where
  "swap_pct m =
     (if ms_swap_total_bytes m = 0 then Fin 0
      else flt_cast F32 (percent F64 (ms_swap_used_bytes m) (ms_swap_total_bytes m)))"

definition bracket :: "char \<Rightarrow> bool" where
  "bracket c \<longleftrightarrow> c = CHR ''['' \<or> c = CHR '']''"

definition from_bind_address :: "rstr \<Rightarrow> Exposure" where
  "from_bind_address addr =
     (let host = hd (split_on CHR ''%'' (trim_matches bracket addr)) in
      if host \<in> {[], ''*'', ''0.0.0.0'', ''::'', ''[::]''} then AllInterfaces
      else if starts_with host ''127.'' \<or> host = ''::1'' \<or> host = ''localhost'' then Loopback
      else Interface)"

definition used_pct :: "FilesystemInfo \<Rightarrow> flt" where
  "used_pct f =
     (let usable = fi_used_bytes f + fi_available_bytes f in
      if usable = 0 then Fin 0 else flt_cast F32 (percent F64 (fi_used_bytes f) usable))"

definition inodes_used_pct :: "FilesystemInfo \<Rightarrow> flt option" where
  "inodes_used_pct f =
     (if fi_inodes_total f > 0 then Some (flt_cast F32 (percent F64 (fi_inodes_used f) (fi_inodes_total f))) else None)"

definition PSEUDO_FILESYSTEMS :: "rstr list" where
  "PSEUDO_FILESYSTEMS =
     [''tmpfs'', ''devtmpfs'', ''squashfs'', ''overlay'', ''proc'', ''sysfs'', ''cgroup'', ''cgroup2'', ''devpts'',
      ''efivarfs'', ''ramfs'', ''autofs'', ''mqueue'', ''hugetlbfs'', ''debugfs'', ''tracefs'', ''fusectl'',
      ''configfs'', ''pstore'', ''bpf'', ''binfmt_misc'', ''nsfs'']"

definition is_real_storage :: "FilesystemInfo \<Rightarrow> bool" where
  "is_real_storage f \<longleftrightarrow> fi_fs_type f \<notin> set PSEUDO_FILESYSTEMS"

definition is_blocked :: "ProcessInfo \<Rightarrow> bool" where
  "is_blocked p \<longleftrightarrow> starts_with (pr_state p) ''D''"

definition is_zombie :: "ProcessInfo \<Rightarrow> bool" where
  "is_zombie p \<longleftrightarrow> starts_with (pr_state p) ''Z''"

definition is_failed :: "ServiceInfo \<Rightarrow> bool" where
  "is_failed s \<longleftrightarrow> sv_active_state s = ''failed'' \<or> sv_sub_state s = ''failed''"

definition is_running :: "ServiceInfo \<Rightarrow> bool" where
  "is_running s \<longleftrightarrow> sv_active_state s = ''active'' \<and> sv_sub_state s = ''running''"

definition is_restart_looping :: "ServiceInfo \<Rightarrow> bool" where
  "is_restart_looping s \<longleftrightarrow>
     sv_sub_state s = ''auto-restart'' \<or> (case sv_restarts s of Some r \<Rightarrow> r \<ge> 3 | None \<Rightarrow> False)"

section \<open>Lemmas\<close>

lemma saturating_sub_u64_le: "saturating_sub_u64 a b \<le> a"
  by (simp add: saturating_sub_u64_def word_sub_le)

lemma flt_cast_bounds:
  assumes "0 \<le> q" "q \<le> 100"
  obtains p where "flt_cast F32 (Fin q) = Fin p" "0 \<le> p" "p \<le> 100"
  by (rule rnd_mono_Fin [OF rnd_hundred assms, of F32]) (auto intro: that simp: flt_cast_def)

lemma cast_percent_bounds:
  assumes "a \<le> b" "b \<noteq> 0"
  shows "\<exists>p. flt_cast F32 (percent F64 a b) = Fin p \<and> 0 \<le> p \<and> p \<le> 100"
proof -
  obtain q where q: "percent F64 a b = Fin q" "0 \<le> q" "q \<le> 100" using percent_bounds [OF assms] .
  obtain p where "flt_cast F32 (Fin q) = Fin p" "0 \<le> p" "p \<le> 100" using flt_cast_bounds [OF q(2,3)] .
  with q show ?thesis by auto
qed

end
