(* ===== verification/Proc.thy ===== *)
theory Proc
  imports Telemetry_Types
begin

text \<open>
  crates/kyvon-telemetry/src/proc.rs: the parsers of the kernel's text interfaces. Sums of counters wrap,
  as they do in the release build.
\<close>

section \<open>/proc/stat\<close>

record CpuTimes =
  ct_user :: u64
  ct_nice :: u64
  ct_system :: u64
  ct_idle :: u64
  ct_iowait :: u64
  ct_irq :: u64
  ct_softirq :: u64
  ct_steal :: u64

definition ct_total :: "CpuTimes \<Rightarrow> u64" where
  "ct_total c = ct_user c + ct_nice c + ct_system c + ct_idle c + ct_iowait c + ct_irq c + ct_softirq c + ct_steal c"

definition ct_busy :: "CpuTimes \<Rightarrow> u64" where
  "ct_busy c = ct_total c - ct_idle c - ct_iowait c"

record ProcStat =
  st_aggregate :: CpuTimes
  st_cores :: "CpuTimes list"
  st_ctx_switches :: "u64 option"
  st_procs_running :: "u32 option"
  st_procs_blocked :: "u32 option"

definition cpu_times_zero :: CpuTimes where
  "cpu_times_zero = \<lparr>ct_user = 0, ct_nice = 0, ct_system = 0, ct_idle = 0, ct_iowait = 0, ct_irq = 0, ct_softirq = 0, ct_steal = 0\<rparr>"

definition proc_stat_default :: ProcStat where
  "proc_stat_default =
     \<lparr>st_aggregate = cpu_times_zero, st_cores = [], st_ctx_switches = None, st_procs_running = None, st_procs_blocked = None\<rparr>"

definition is_cpu_key :: "rstr \<Rightarrow> bool" where
  "is_cpu_key key \<longleftrightarrow> key = ''cpu'' \<or> (starts_with key ''cpu'' \<and> list_all is_ascii_digit (drop 3 key))"

definition nth_or :: "'a \<Rightarrow> 'a list \<Rightarrow> nat \<Rightarrow> 'a" where
  "nth_or d xs i = (if i < length xs then xs ! i else d)"

definition times_of :: "u64 list \<Rightarrow> CpuTimes" where
  "times_of v =
     \<lparr>ct_user = v ! 0, ct_nice = v ! 1, ct_system = v ! 2, ct_idle = v ! 3, ct_iowait = nth_or 0 v 4,
      ct_irq = nth_or 0 v 5, ct_softirq = nth_or 0 v 6, ct_steal = nth_or 0 v 7\<rparr>"

definition first_value :: "(rstr \<Rightarrow> 'a option) \<Rightarrow> rstr list \<Rightarrow> 'a option" where
  "first_value p ws = (case ws of w # _ \<Rightarrow> p w | [] \<Rightarrow> None)"

definition stat_err :: "rstr \<Rightarrow> KyvonError" where
  "stat_err reason = ParseError ''/proc/stat'' reason"

fun parse_stat_lines :: "rstr list \<Rightarrow> ProcStat \<times> bool \<Rightarrow> (ProcStat \<times> bool) result" where
  "parse_stat_lines [] acc = Inr acc"
| "parse_stat_lines (line # ls) (out, saw) =
     (case split_ascii_whitespace line of
        [] \<Rightarrow> parse_stat_lines ls (out, saw)
      | key # parts \<Rightarrow>
          if is_cpu_key key then
            (let v = List.map_filter parse_u64 parts in
             if length v < 4 then Inl (stat_err (''cpu line `'' @ line @ ''` has fewer than 4 time fields''))
             else if key = ''cpu'' then parse_stat_lines ls (out\<lparr>st_aggregate := times_of v\<rparr>, True)
             else parse_stat_lines ls (out\<lparr>st_cores := st_cores out @ [times_of v]\<rparr>, saw))
          else parse_stat_lines ls
            ((if key = ''ctxt'' then out\<lparr>st_ctx_switches := first_value parse_u64 parts\<rparr>
              else if key = ''procs_running'' then out\<lparr>st_procs_running := first_value parse_u32 parts\<rparr>
              else if key = ''procs_blocked'' then out\<lparr>st_procs_blocked := first_value parse_u32 parts\<rparr>
              else out), saw))"

definition parse_stat :: "rstr \<Rightarrow> ProcStat result" where
  "parse_stat contents =
     (case parse_stat_lines (lines contents) (proc_stat_default, False) of
        Inl e \<Rightarrow> Inl e
      | Inr (out, saw) \<Rightarrow> if saw then Inr out else Inl (stat_err ''no aggregate `cpu` line found''))"

section \<open>/proc/meminfo\<close>

record MemInfo =
  mi_total :: u64
  mi_free :: u64
  mi_available :: u64
  mi_buffers :: u64
  mi_cached :: u64
  mi_swap_total :: u64
  mi_swap_free :: u64

definition mem_info_default :: MemInfo where
  "mem_info_default = \<lparr>mi_total = 0, mi_free = 0, mi_available = 0, mi_buffers = 0, mi_cached = 0, mi_swap_total = 0, mi_swap_free = 0\<rparr>"

definition mi_used :: "MemInfo \<Rightarrow> u64" where
  "mi_used m = saturating_sub_u64 (mi_total m) (mi_available m)"

definition mi_swap_used :: "MemInfo \<Rightarrow> u64" where
  "mi_swap_used m = saturating_sub_u64 (mi_swap_total m) (mi_swap_free m)"

definition saturating_mul_u64 :: "u64 \<Rightarrow> u64 \<Rightarrow> u64" where
  "saturating_mul_u64 a b = (if unat a * unat b < 2 ^ 64 then a * b else - 1)"

definition mem_field :: "rstr \<Rightarrow> u64 \<Rightarrow> MemInfo \<times> bool \<Rightarrow> MemInfo \<times> bool" where
  "mem_field key bytes acc =
     (case acc of (m, saw) \<Rightarrow>
        if key = ''MemTotal'' then (m\<lparr>mi_total := bytes\<rparr>, True)
        else if key = ''MemFree'' then (m\<lparr>mi_free := bytes\<rparr>, saw)
        else if key = ''MemAvailable'' then (m\<lparr>mi_available := bytes\<rparr>, saw)
        else if key = ''Buffers'' then (m\<lparr>mi_buffers := bytes\<rparr>, saw)
        else if key = ''Cached'' then (m\<lparr>mi_cached := bytes\<rparr>, saw)
        else if key = ''SwapTotal'' then (m\<lparr>mi_swap_total := bytes\<rparr>, saw)
        else if key = ''SwapFree'' then (m\<lparr>mi_swap_free := bytes\<rparr>, saw)
        else (m, saw))"

definition mem_line :: "rstr \<Rightarrow> MemInfo \<times> bool \<Rightarrow> MemInfo \<times> bool" where
  "mem_line line acc =
     (case split_once CHR '':'' line of
        None \<Rightarrow> acc
      | Some (key, rest) \<Rightarrow>
          (case first_value parse_u64 (split_ascii_whitespace rest) of
             None \<Rightarrow> acc
           | Some kb \<Rightarrow> mem_field key (saturating_mul_u64 kb 1024) acc))"

definition parse_meminfo :: "rstr \<Rightarrow> MemInfo result" where
  "parse_meminfo contents =
     (case fold mem_line (lines contents) (mem_info_default, False) of (m, saw) \<Rightarrow>
        if \<not> saw then Inl (ParseError ''/proc/meminfo'' ''no MemTotal field'')
        else Inr (if mi_available m = 0 then m\<lparr>mi_available := mi_free m + mi_buffers m + mi_cached m\<rparr> else m))"

section \<open>/proc/loadavg and /proc/uptime\<close>

definition parse_loadavg :: "rstr \<Rightarrow> (flt \<times> flt \<times> flt) result" where
  "parse_loadavg contents =
     (let v = List.map_filter (parse_flt F32) (take 3 (split_ascii_whitespace contents)) in
      if length v < 3 then Inl (ParseError ''/proc/loadavg'' (''expected 3 load figures, found '' @ show_nat (length v)))
      else Inr (v ! 0, v ! 1, v ! 2))"

definition parse_uptime :: "rstr \<Rightarrow> u64 result" where
  "parse_uptime contents =
     (case first_value (parse_flt F64) (split_ascii_whitespace contents) of
        Some v \<Rightarrow> Inr (to_u64 v)
      | None \<Rightarrow> Inl (ParseError ''/proc/uptime'' ''no uptime value''))"

section \<open>/proc/net/dev\<close>

record NetCounters =
  nc_name :: rstr
  nc_rx_bytes :: u64
  nc_rx_packets :: u64
  nc_rx_errors :: u64
  nc_rx_dropped :: u64
  nc_tx_bytes :: u64
  nc_tx_packets :: u64
  nc_tx_errors :: u64
  nc_tx_dropped :: u64

definition is_loopback :: "NetCounters \<Rightarrow> bool" where
  "is_loopback c \<longleftrightarrow> nc_name c = ''lo''"

definition parse_or_zero :: "rstr \<Rightarrow> u64" where
  "parse_or_zero w = (case parse_u64 w of Some v \<Rightarrow> v | None \<Rightarrow> 0)"

definition net_line :: "rstr \<Rightarrow> NetCounters option" where
  "net_line line =
     (case split_once CHR '':'' line of
        None \<Rightarrow> None
      | Some (name, rest) \<Rightarrow>
          (let v = map parse_or_zero (split_ascii_whitespace rest) in
           if length v < 16 then None
           else Some \<lparr>nc_name = trim name, nc_rx_bytes = v ! 0, nc_rx_packets = v ! 1, nc_rx_errors = v ! 2,
                      nc_rx_dropped = v ! 3, nc_tx_bytes = v ! 8, nc_tx_packets = v ! 9, nc_tx_errors = v ! 10,
                      nc_tx_dropped = v ! 11\<rparr>))"

definition parse_net_dev :: "rstr \<Rightarrow> NetCounters list result" where
  "parse_net_dev contents =
     (let out = List.map_filter net_line (drop 2 (lines contents)) in
      if out = [] then Inl (ParseError ''/proc/net/dev'' ''no interface rows'') else Inr out)"

section \<open>Pressure and os-release\<close>

definition parse_pressure_some_avg60 :: "rstr \<Rightarrow> flt option" where
  "parse_pressure_some_avg60 contents =
     (case find (\<lambda>l. starts_with l ''some'') (lines contents) of
        None \<Rightarrow> None
      | Some l \<Rightarrow>
          (case List.map_filter (strip_prefix ''avg60='') (split_ascii_whitespace l) of
             [] \<Rightarrow> None
           | v # _ \<Rightarrow> parse_flt F32 v))"

definition parse_os_release :: "rstr \<Rightarrow> (rstr \<times> rstr) list" where
  "parse_os_release contents =
     bt_of_list
       (map (\<lambda>(k, v). (trim k, trim_matches (\<lambda>c. c = SQ) (trim_matches (\<lambda>c. c = DQ) (trim v))))
         (List.map_filter (split_once CHR ''='') (lines contents)))"

end
