(* ===== verification/Telemetry_State.thy ===== *)
theory Telemetry_State
  imports Proc
begin

text \<open>
  crates/kyvon-telemetry/src/state.rs: turning cumulative counters into rates. The state is the previous
  reading of each kind.
\<close>

section \<open>State and operations\<close>

record TelemetryState =
  last_cpu :: "(TimestampMs \<times> ProcStat) option"
  last_net :: "(TimestampMs \<times> NetCounters list) option"

definition telemetry_new :: TelemetryState where
  "telemetry_new = \<lparr>last_cpu = None, last_net = None\<rparr>"

record CpuDelta =
  cd_busy :: flt
  cd_user :: flt
  cd_system :: flt
  cd_idle :: flt
  cd_iowait :: flt
  cd_steal :: flt
  cd_nice :: flt
  cd_irq :: flt

definition diff_cpu :: "CpuTimes \<Rightarrow> CpuTimes \<Rightarrow> CpuDelta option" where
  "diff_cpu prev cur =
     (if ct_total cur \<le> ct_total prev then None
      else
        (let total = ct_total cur - ct_total prev;
             pct = (\<lambda>a b. percent F32 (saturating_sub_u64 b a) total)
         in Some \<lparr>cd_busy = pct (ct_busy prev) (ct_busy cur),
                  cd_user = pct (ct_user prev) (ct_user cur),
                  cd_system = pct (ct_system prev) (ct_system cur),
                  cd_idle = pct (ct_idle prev) (ct_idle cur),
                  cd_iowait = pct (ct_iowait prev) (ct_iowait cur),
                  cd_steal = pct (ct_steal prev) (ct_steal cur),
                  cd_nice = pct (ct_nice prev) (ct_nice cur),
                  cd_irq = pct (ct_irq prev + ct_softirq prev) (ct_irq cur + ct_softirq cur)\<rparr>))"

definition core_busy :: "CpuTimes \<Rightarrow> CpuTimes \<Rightarrow> flt" where
  "core_busy a b = (case diff_cpu a b of Some d \<Rightarrow> cd_busy d | None \<Rightarrow> Fin 0)"

definition cpu_sample :: "ProcStat \<Rightarrow> ProcStat \<Rightarrow> flt \<times> flt \<times> flt \<Rightarrow> CpuSample option" where
  "cpu_sample prev stat load =
     map_option
       (\<lambda>d. \<lparr>cs_total = cd_busy d, cs_user = cd_user d, cs_system = cd_system d, cs_iowait = cd_iowait d,
             cs_steal = cd_steal d, cs_idle = cd_idle d, cs_nice = cd_nice d, cs_irq = cd_irq d,
             cs_cores = map (\<lambda>(a, b). core_busy a b) (zip (st_cores prev) (st_cores stat)), cs_load = load,
             cs_ctx_switches = st_ctx_switches stat, cs_procs_running = st_procs_running stat,
             cs_procs_blocked = st_procs_blocked stat\<rparr>)
       (diff_cpu (st_aggregate prev) (st_aggregate stat))"

definition push_cpu ::
  "TelemetryState \<Rightarrow> TimestampMs \<Rightarrow> ProcStat \<Rightarrow> flt \<times> flt \<times> flt \<Rightarrow> CpuSample option \<times> TelemetryState" where
  "push_cpu s ts stat load =
     ((case last_cpu s of Some (_, prev) \<Rightarrow> cpu_sample prev stat load | None \<Rightarrow> None),
      s\<lparr>last_cpu := Some (ts, stat)\<rparr>)"

definition rate :: "u64 \<Rightarrow> flt \<Rightarrow> u64" where
  "rate delta secs = to_u64 (fdiv F64 (of_unsigned F64 delta) secs)"

text \<open>Subtraction of two \<open>i64\<close> values, which wraps in the release build.\<close>

definition wrapping_i64 :: "int \<Rightarrow> int" where
  "wrapping_i64 x = (x + 2 ^ 63) mod 2 ^ 64 - 2 ^ 63"

definition find_counters :: "NetCounters list \<Rightarrow> rstr \<Rightarrow> NetCounters option" where
  "find_counters prev name = find (\<lambda>x. nc_name x = name) prev"

definition interface_rates :: "flt \<Rightarrow> NetCounters \<Rightarrow> NetCounters \<Rightarrow> NetworkInterface" where
  "interface_rates secs p c =
     \<lparr>ni_name = nc_name c, ni_rx_bytes_per_sec = rate (nc_rx_bytes c - nc_rx_bytes p) secs,
      ni_tx_bytes_per_sec = rate (nc_tx_bytes c - nc_tx_bytes p) secs,
      ni_rx_packets_per_sec = rate (saturating_sub_u64 (nc_rx_packets c) (nc_rx_packets p)) secs,
      ni_tx_packets_per_sec = rate (saturating_sub_u64 (nc_tx_packets c) (nc_tx_packets p)) secs,
      ni_rx_errors = nc_rx_errors c, ni_tx_errors = nc_tx_errors c,
      ni_rx_dropped = nc_rx_dropped c, ni_tx_dropped = nc_tx_dropped c\<rparr>"

definition interface_sample :: "flt \<Rightarrow> NetCounters list \<Rightarrow> NetCounters \<Rightarrow> NetworkInterface option" where
  "interface_sample secs prev c =
     (case find_counters prev (nc_name c) of
        None \<Rightarrow> None
      | Some p \<Rightarrow>
          if nc_rx_bytes c < nc_rx_bytes p \<or> nc_tx_bytes c < nc_tx_bytes p then None
          else Some (interface_rates secs p c))"

definition net_sample :: "TimestampMs \<times> NetCounters list \<Rightarrow> TimestampMs \<Rightarrow> NetCounters list \<Rightarrow> NetworkInterface list option" where
  "net_sample reading ts counters =
     (case reading of (prev_ts, prev) \<Rightarrow>
        let elapsed_ms = wrapping_i64 (ts - prev_ts) in
        if elapsed_ms \<le> 0 then None
        else
          (let secs = fdiv F64 (of_signed F64 elapsed_ms) (Fin 1000);
               interfaces = List.map_filter (interface_sample secs prev) (filter (\<lambda>c. \<not> is_loopback c) counters)
           in if interfaces = [] then None else Some interfaces))"

definition push_net :: "TelemetryState \<Rightarrow> TimestampMs \<Rightarrow> NetCounters list \<Rightarrow> NetworkInterface list option \<times> TelemetryState" where
  "push_net s ts counters =
     ((case last_net s of Some reading \<Rightarrow> net_sample reading ts counters | None \<Rightarrow> None),
      s\<lparr>last_net := Some (ts, counters)\<rparr>)"

definition reset :: "TelemetryState \<Rightarrow> TelemetryState" where
  "reset s = s\<lparr>last_cpu := None, last_net := None\<rparr>"

section \<open>Counters as natural numbers\<close>

definition jiffies :: "CpuTimes \<Rightarrow> nat" where
  "jiffies c = unat (ct_user c) + unat (ct_nice c) + unat (ct_system c) + unat (ct_idle c) + unat (ct_iowait c) +
               unat (ct_irq c) + unat (ct_softirq c) + unat (ct_steal c)"

text \<open>Two readings of a machine that did not restart: no counter moved backwards and their sum fits.\<close>

definition times_grow :: "CpuTimes \<Rightarrow> CpuTimes \<Rightarrow> bool" where
  "times_grow a b \<longleftrightarrow>
     ct_user a \<le> ct_user b \<and> ct_nice a \<le> ct_nice b \<and> ct_system a \<le> ct_system b \<and> ct_idle a \<le> ct_idle b \<and>
     ct_iowait a \<le> ct_iowait b \<and> ct_irq a \<le> ct_irq b \<and> ct_softirq a \<le> ct_softirq b \<and> ct_steal a \<le> ct_steal b \<and>
     jiffies b < 2 ^ 64"

definition percentage :: "flt \<Rightarrow> bool" where
  "percentage x = (case x of Fin p \<Rightarrow> 0 \<le> p \<and> p \<le> 100 | _ \<Rightarrow> False)"

lemma percentage_percent: "a \<le> b \<Longrightarrow> b \<noteq> 0 \<Longrightarrow> percentage (percent k a b)"
  by (rule percent_bounds [of a b k]) (auto simp: percentage_def)

lemma unat_of_nat_small: "n < 2 ^ 64 \<Longrightarrow> unat (of_nat n :: u64) = n"
  by (simp add: unat_of_nat take_bit_eq_mod)

lemma ct_total_nat:
  assumes "jiffies c < 2 ^ 64"
  shows "unat (ct_total c) = jiffies c"
proof -
  have "ct_total c = of_nat (jiffies c)" by (simp add: ct_total_def jiffies_def)
  then show ?thesis using unat_of_nat_small [OF assms] by simp
qed

lemma word_part_nat:
  fixes w :: u64
  assumes "w = of_nat n" "n \<le> m" "m < 2 ^ 64"
  shows "unat w = n"
  using assms unat_of_nat_small by (metis le_less_trans)

lemmas times_grow_unat = times_grow_def word_le_nat_alt

lemma jiffies_prev: "times_grow a b \<Longrightarrow> jiffies a \<le> jiffies b \<and> jiffies b < 2 ^ 64"
  by (simp add: times_grow_unat jiffies_def)

lemma ct_busy_nat:
  assumes "jiffies c < 2 ^ 64"
  shows "unat (ct_busy c) = unat (ct_user c) + unat (ct_nice c) + unat (ct_system c) + unat (ct_irq c) +
    unat (ct_softirq c) + unat (ct_steal c)"
  by (rule word_part_nat [OF _ _ assms]) (simp_all add: ct_busy_def ct_total_def jiffies_def)

lemma ct_irqs_nat:
  assumes "jiffies c < 2 ^ 64"
  shows "unat (ct_irq c + ct_softirq c) = unat (ct_irq c) + unat (ct_softirq c)"
  by (rule word_part_nat [OF _ _ assms]) (simp_all add: jiffies_def)

lemma part_percentage:
  assumes grow: "times_grow a b" and lt: "ct_total a < ct_total b"
    and part: "unat y \<le> unat x + (jiffies b - jiffies a)"
  shows "percentage (percent F32 (saturating_sub_u64 y x) (ct_total b - ct_total a))"
proof (rule percentage_percent)
  have tot: "unat (ct_total a) = jiffies a" "unat (ct_total b) = jiffies b"
    using jiffies_prev [OF grow] ct_total_nat by auto
  have "unat (ct_total b - ct_total a) = jiffies b - jiffies a"
    using tot lt by (simp add: unat_sub less_imp_le)
  moreover have "unat (saturating_sub_u64 y x) = unat y - unat x"
    by (simp add: saturating_sub_u64_def unat_sub word_le_nat_alt)
  ultimately show "saturating_sub_u64 y x \<le> ct_total b - ct_total a"
    using part by (simp add: word_le_nat_alt)
  show "ct_total b - ct_total a \<noteq> 0" using lt by auto
qed

definition delta_percentages :: "CpuDelta \<Rightarrow> bool" where
  "delta_percentages d \<longleftrightarrow>
     percentage (cd_busy d) \<and> percentage (cd_user d) \<and> percentage (cd_system d) \<and> percentage (cd_idle d) \<and>
     percentage (cd_iowait d) \<and> percentage (cd_steal d) \<and> percentage (cd_nice d) \<and> percentage (cd_irq d)"

lemma diff_cpu_None: "diff_cpu a b = None \<longleftrightarrow> ct_total b \<le> ct_total a"
  unfolding diff_cpu_def Let_def by simp

lemma diff_cpu_percentages:
  assumes "times_grow a b" "diff_cpu a b = Some d"
  shows "delta_percentages d"
proof -
  have lt: "ct_total a < ct_total b" using assms(2) by (simp add: diff_cpu_def split: if_splits)
  note fits = jiffies_prev [OF assms(1)]
  then have fa: "jiffies a < 2 ^ 64" and fb: "jiffies b < 2 ^ 64" by auto
  have parts:
    "unat (ct_busy b) \<le> unat (ct_busy a) + (jiffies b - jiffies a)"
    "unat (ct_user b) \<le> unat (ct_user a) + (jiffies b - jiffies a)"
    "unat (ct_system b) \<le> unat (ct_system a) + (jiffies b - jiffies a)"
    "unat (ct_idle b) \<le> unat (ct_idle a) + (jiffies b - jiffies a)"
    "unat (ct_iowait b) \<le> unat (ct_iowait a) + (jiffies b - jiffies a)"
    "unat (ct_steal b) \<le> unat (ct_steal a) + (jiffies b - jiffies a)"
    "unat (ct_nice b) \<le> unat (ct_nice a) + (jiffies b - jiffies a)"
    "unat (ct_irq b + ct_softirq b) \<le> unat (ct_irq a + ct_softirq a) + (jiffies b - jiffies a)"
    using assms(1) unfolding ct_busy_nat [OF fa] ct_busy_nat [OF fb] ct_irqs_nat [OF fa] ct_irqs_nat [OF fb]
      times_grow_unat jiffies_def by linarith+
  have "\<not> ct_total b \<le> ct_total a" using lt by simp
  then show ?thesis
    using assms(2) parts [THEN part_percentage [OF assms(1) lt]]
    unfolding diff_cpu_def delta_percentages_def Let_def by auto
qed

section \<open>Properties\<close>

definition sample_percentages :: "CpuSample \<Rightarrow> bool" where
  "sample_percentages s \<longleftrightarrow>
     list_all percentage ([cs_total s, cs_user s, cs_system s, cs_iowait s, cs_steal s, cs_idle s, cs_nice s, cs_irq s] @ cs_cores s)"

lemma core_busy_percentage: "times_grow a b \<Longrightarrow> percentage (core_busy a b)"
  using diff_cpu_percentages [of a b]
  by (auto simp: core_busy_def delta_percentages_def percentage_def split: option.split)

lemma cores_percentage:
  assumes "\<forall>(a, b) \<in> set (zip as bs). times_grow a b"
  shows "list_all percentage (map (\<lambda>(a, b). core_busy a b) (zip as bs))"
  using assms core_busy_percentage by (auto simp: list_all_iff)

text \<open>C31. Between two readings of a machine that kept counting, the second reading yields a sample as
  soon as any time passed, and every figure of it, single precision rounding included, is a finite
  percentage between 0 and 100, for the machine and for each core.\<close>

theorem cpu_percentages_bounded:
  assumes "last_cpu s = Some (prev_ts, prev)" and "times_grow (st_aggregate prev) (st_aggregate stat)"
    and "\<forall>(a, b) \<in> set (zip (st_cores prev) (st_cores stat)). times_grow a b"
    and "jiffies (st_aggregate prev) < jiffies (st_aggregate stat)"
  shows "\<exists>sample. fst (push_cpu s ts stat load) = Some sample \<and> sample_percentages sample"
proof -
  let ?a = "st_aggregate prev" and ?b = "st_aggregate stat"
  have "ct_total ?a < ct_total ?b"
    using assms(2,4) jiffies_prev [OF assms(2)] ct_total_nat [of ?a] ct_total_nat [of ?b]
    by (simp add: word_less_nat_alt)
  then have "diff_cpu ?a ?b \<noteq> None" by (simp add: diff_cpu_None)
  then obtain d where d: "diff_cpu ?a ?b = Some d" by blast
  show ?thesis
    using assms(1) d diff_cpu_percentages [OF assms(2) d] cores_percentage [OF assms(3)]
    by (simp add: push_cpu_def cpu_sample_def sample_percentages_def delta_percentages_def)
qed

definition demo_times :: "u64 \<Rightarrow> u64 \<Rightarrow> u64 \<Rightarrow> CpuTimes" where
  "demo_times user idle iowait = cpu_times_zero\<lparr>ct_user := user, ct_idle := idle, ct_iowait := iowait\<rparr>"

definition demo_stat :: "u64 \<Rightarrow> u64 \<Rightarrow> u64 \<Rightarrow> ProcStat" where
  "demo_stat user idle iowait = proc_stat_default\<lparr>st_aggregate := demo_times user idle iowait\<rparr>"

lemmas demo_cpu_defs = demo_stat_def demo_times_def proc_stat_default_def cpu_times_zero_def

theorem cpu_percentages_bounded_witness:
  "\<exists>sample. fst (push_cpu (telemetry_new\<lparr>last_cpu := Some (0, demo_stat 10 90 0)\<rparr>) 1000 (demo_stat 40 150 10) (Fin 1, Fin 1, Fin 1)) = Some sample \<and>
     sample_percentages sample"
  by (rule cpu_percentages_bounded [where prev_ts = 0 and prev = "demo_stat 10 90 0"])
    (simp_all add: times_grow_def jiffies_def demo_cpu_defs)

text \<open>The first reading of each kind yields no sample, a reading whose total did not grow yields none
  either, and each reading becomes the baseline of the next; after \<open>reset\<close> the next reading is a first one.\<close>

lemma rates_need_two_readings:
  "last_cpu s = None \<Longrightarrow> fst (push_cpu s ts stat load) = None"
  "last_net s = None \<Longrightarrow> fst (push_net s ts counters) = None"
  "ct_total (st_aggregate stat) \<le> ct_total (st_aggregate prev) \<Longrightarrow> last_cpu s = Some (prev_ts, prev) \<Longrightarrow> fst (push_cpu s ts stat load) = None"
  "last_cpu (snd (push_cpu s ts stat load)) = Some (ts, stat) \<and> last_net (snd (push_net s ts counters)) = Some (ts, counters)"
  "fst (push_cpu (reset s) ts stat load) = None \<and> fst (push_net (reset s) ts counters) = None"
  by (simp_all add: push_cpu_def push_net_def cpu_sample_def diff_cpu_def reset_def)

lemma map_filter_mem: "y \<in> set (List.map_filter f xs) \<longleftrightarrow> (\<exists>x \<in> set xs. f x = Some y)"
  by (induction xs) (auto simp: map_filter_simps split: option.splits)

text \<open>An interface is reported exactly when time passed since the last reading, it is not the loopback,
  the last reading has it, and neither byte counter moved backwards; the figures are those of the two
  readings.\<close>

theorem interface_reported_iff:
  assumes "last_net s = Some (prev_ts, prev)"
  shows "(\<exists>ifs. fst (push_net s ts counters) = Some ifs \<and> i \<in> set ifs) \<longleftrightarrow>
    0 < wrapping_i64 (ts - prev_ts) \<and>
    (\<exists>c \<in> set counters. nc_name c \<noteq> ''lo'' \<and>
      (\<exists>p. find_counters prev (nc_name c) = Some p \<and> nc_rx_bytes p \<le> nc_rx_bytes c \<and> nc_tx_bytes p \<le> nc_tx_bytes c \<and>
           i = interface_rates (fdiv F64 (of_signed F64 (wrapping_i64 (ts - prev_ts))) (Fin 1000)) p c))"
proof -
  let ?secs = "fdiv F64 (of_signed F64 (wrapping_i64 (ts - prev_ts))) (Fin 1000)"
  let ?ifs = "List.map_filter (interface_sample ?secs prev) (filter (\<lambda>c. \<not> is_loopback c) counters)"
  have "i \<in> set ?ifs \<longleftrightarrow> (\<exists>c \<in> set counters. nc_name c \<noteq> ''lo'' \<and>
      (\<exists>p. find_counters prev (nc_name c) = Some p \<and> nc_rx_bytes p \<le> nc_rx_bytes c \<and> nc_tx_bytes p \<le> nc_tx_bytes c \<and>
           i = interface_rates ?secs p c))"
    by (fastforce simp: map_filter_mem is_loopback_def interface_sample_def not_less split: option.splits if_splits)
  moreover have "(\<exists>ifs. fst (push_net s ts counters) = Some ifs \<and> i \<in> set ifs) \<longleftrightarrow> 0 < wrapping_i64 (ts - prev_ts) \<and> i \<in> set ?ifs"
    using assms by (auto simp: push_net_def net_sample_def Let_def)
  ultimately show ?thesis by blast
qed

definition demo_net :: "rstr \<Rightarrow> u64 \<Rightarrow> NetCounters" where
  "demo_net name n = \<lparr>nc_name = name, nc_rx_bytes = n, nc_rx_packets = n, nc_rx_errors = 0, nc_rx_dropped = 0,
     nc_tx_bytes = n, nc_tx_packets = n, nc_tx_errors = 0, nc_tx_dropped = 0\<rparr>"

theorem interface_reported_iff_witness:
  "\<exists>ifs. fst (push_net (telemetry_new\<lparr>last_net := Some (0, [demo_net ''lo'' 1, demo_net ''eth0'' 10])\<rparr>) 1000 [demo_net ''lo'' 2, demo_net ''eth0'' 30]) = Some ifs \<and>
     interface_rates (fdiv F64 (of_signed F64 1000) (Fin 1000)) (demo_net ''eth0'' 10) (demo_net ''eth0'' 30) \<in> set ifs"
proof -
  let ?s = "telemetry_new\<lparr>last_net := Some (0, [demo_net ''lo'' 1, demo_net ''eth0'' 10])\<rparr>"
  have reading: "last_net ?s = Some (0, [demo_net ''lo'' 1, demo_net ''eth0'' 10])" by simp
  have w: "wrapping_i64 (1000 - 0) = 1000" by (simp add: wrapping_i64_def)
  have found: "find_counters [demo_net ''lo'' 1, demo_net ''eth0'' 10] ''eth0'' = Some (demo_net ''eth0'' 10)"
    by (simp add: find_counters_def demo_net_def)
  show ?thesis
    unfolding interface_reported_iff [OF reading, of 1000 "[demo_net ''lo'' 2, demo_net ''eth0'' 30]"] w
    using found by (auto simp: demo_net_def intro!: bexI [of _ "demo_net ''eth0'' 30"])
qed

lemma rnd_numeral: "numeral n < (2::nat) ^ fprec k \<Longrightarrow> rnd k (numeral n) = Fin (numeral n)"
  using rnd_of_nat [of "numeral n" k] by simp

text \<open>The split is not a split when a counter moves backwards, which the kernel documents for iowait:
  200 user jiffies against an iowait that fell by 100 are reported as 200 percent user time and 200 percent
  busy, since the fall shrinks the total but not the part.\<close>

theorem cpu_split_exceeds_100:
  "\<exists>sample. fst (push_cpu (telemetry_new\<lparr>last_cpu := Some (0, demo_stat 0 0 100)\<rparr>) 1000 (demo_stat 200 0 0) load) = Some sample \<and>
     cs_user sample = Fin 200 \<and> cs_total sample = Fin 200"
proof -
  have p: "percent F32 200 100 = Fin 200"
    by (simp add: percent_def of_unsigned_def rnd_numeral)
  have "diff_cpu (demo_times 0 0 100) (demo_times 200 0 0) \<noteq> None"
    unfolding diff_cpu_None by (simp add: demo_cpu_defs ct_total_def)
  then obtain d where d: "diff_cpu (demo_times 0 0 100) (demo_times 200 0 0) = Some d" by blast
  then have "cd_user d = Fin 200 \<and> cd_busy d = Fin 200"
    unfolding diff_cpu_def Let_def
    by (auto simp: demo_cpu_defs ct_total_def ct_busy_def saturating_sub_u64_def p split: if_splits)
  with d show ?thesis by (simp add: push_cpu_def cpu_sample_def demo_stat_def telemetry_new_def)
qed

end
