(* ===== verification/Telemetry_Commands.thy ===== *)
theory Telemetry_Commands
  imports Proc Redact
begin

text \<open>
  crates/kyvon-telemetry/src/commands.rs: the parsers of \<open>df\<close>, \<open>ps\<close>, \<open>systemctl\<close> and \<open>ss\<close>. A loop over
  \<open>iter_mut().find(p)\<close> changes the first element that satisfies \<open>p\<close>.
\<close>

fun update_first :: "('a \<Rightarrow> bool) \<Rightarrow> ('a \<Rightarrow> 'a) \<Rightarrow> 'a list \<Rightarrow> 'a list" where
  "update_first p f [] = []"
| "update_first p f (x # xs) = (if p x then f x # xs else x # update_first p f xs)"

text \<open>One row of a merge: find the entry the row is about, if there is one, and set its fields.\<close>

definition merge_line ::
  "(rstr \<Rightarrow> (rstr \<times> 'u) option) \<Rightarrow> ('a \<Rightarrow> rstr) \<Rightarrow> ('u \<Rightarrow> 'a \<Rightarrow> 'a) \<Rightarrow> rstr \<Rightarrow> 'a list \<Rightarrow> 'a list" where
  "merge_line entry key put line xs =
     (case entry line of
        None \<Rightarrow> xs
      | Some (k, u) \<Rightarrow> update_first (\<lambda>x. key x = k) (put u) xs)"

section \<open>Filesystems\<close>

definition df_row :: "rstr \<Rightarrow> FilesystemInfo option" where
  "df_row line =
     (let f = split_ascii_whitespace line in
      if length f < 6 then None
      else Some \<lparr>fi_mount_point = join '' '' (drop 5 f), fi_device = f ! 0, fi_fs_type = [],
                 fi_total_bytes = parse_or_zero (f ! 1), fi_used_bytes = parse_or_zero (f ! 2),
                 fi_available_bytes = parse_or_zero (f ! 3), fi_inodes_total = 0, fi_inodes_used = 0\<rparr>)"

definition parse_df :: "rstr \<Rightarrow> FilesystemInfo list result" where
  "parse_df contents =
     (let out = List.map_filter df_row (drop 1 (lines contents)) in
      if out = [] then Inl (ParseError ''df'' ''no filesystem rows'') else Inr out)"

definition inode_entry :: "rstr \<Rightarrow> (rstr \<times> u64 \<times> u64) option" where
  "inode_entry line =
     (let f = split_ascii_whitespace line in
      if length f < 6 then None else Some (join '' '' (drop 5 f), parse_or_zero (f ! 1), parse_or_zero (f ! 2)))"

definition set_inodes :: "u64 \<times> u64 \<Rightarrow> FilesystemInfo \<Rightarrow> FilesystemInfo" where
  "set_inodes n x = x\<lparr>fi_inodes_total := fst n, fi_inodes_used := snd n\<rparr>"

definition inode_row :: "rstr \<Rightarrow> FilesystemInfo list \<Rightarrow> FilesystemInfo list" where
  "inode_row line fs = merge_line inode_entry fi_mount_point set_inodes line fs"

definition merge_inode_counts :: "FilesystemInfo list \<Rightarrow> rstr \<Rightarrow> FilesystemInfo list" where
  "merge_inode_counts fs contents = fold inode_row (drop 1 (lines contents)) fs"

text \<open>\<open>str::replace\<close>.\<close>

function replace_str :: "rstr \<Rightarrow> rstr \<Rightarrow> rstr \<Rightarrow> rstr" where
  "replace_str pat rep [] = []"
| "replace_str pat rep (x # xs) =
     (if pat \<noteq> [] \<and> prefix pat (x # xs) then rep @ replace_str pat rep (drop (length pat) (x # xs))
      else x # replace_str pat rep xs)"
  by pat_completeness auto
termination
  by (relation "measure (\<lambda>(pat, rep, s). length s)") (auto simp: prefix_def)

text \<open>One row of \<open>/proc/mounts\<close> or of \<open>findmnt\<close>: the mount point, unescaped, and the type.\<close>

definition mount_row :: "rstr \<Rightarrow> (rstr \<times> rstr) option" where
  "mount_row line =
     (let f = split_ascii_whitespace line in
      if length f \<ge> 3 then Some (replace_str (BSL # ''040'') '' '' (f ! 1), f ! 2)
      else if length f = 2 then Some (replace_str (BSL # ''040'') '' '' (f ! 0), f ! 1)
      else None)"

definition set_fs_type :: "rstr \<Rightarrow> FilesystemInfo \<Rightarrow> FilesystemInfo" where
  "set_fs_type t x = x\<lparr>fi_fs_type := t\<rparr>"

definition fs_type_row :: "rstr \<Rightarrow> FilesystemInfo list \<Rightarrow> FilesystemInfo list" where
  "fs_type_row line fs = merge_line mount_row fi_mount_point set_fs_type line fs"

definition merge_fs_types :: "FilesystemInfo list \<Rightarrow> rstr \<Rightarrow> FilesystemInfo list" where
  "merge_fs_types fs mounts = fold fs_type_row (lines mounts) fs"

section \<open>Processes\<close>

fun find_white :: "rstr \<Rightarrow> nat option" where
  "find_white [] = None"
| "find_white (x # xs) =
     (if strip_any utf8_whitespace (x # xs) \<noteq> None then Some 0 else map_option Suc (find_white xs))"

fun ps_fields :: "nat \<Rightarrow> rstr \<Rightarrow> rstr list" where
  "ps_fields 0 rest = [trim_start rest]"
| "ps_fields (Suc k) rest =
     (case find_white (trim_start rest) of
        Some i \<Rightarrow> take i (trim_start rest) # ps_fields k (drop i (trim_start rest))
      | None \<Rightarrow> [trim_start (trim_start rest)])"

definition flt_or_zero :: "rstr \<Rightarrow> flt" where
  "flt_or_zero w = (case parse_flt F32 w of Some v \<Rightarrow> v | None \<Rightarrow> Fin 0)"

definition ps_row :: "rstr \<Rightarrow> ProcessInfo option" where
  "ps_row raw =
     (let line = trim_start raw; fields = ps_fields 8 line in
      if line = [] \<or> length fields < 9 then None
      else
        (case parse_u32 (fields ! 0) of
           None \<Rightarrow> None
         | Some pid \<Rightarrow>
             Some \<lparr>pr_pid = pid,
                   pr_ppid = (case parse_u32 (fields ! 1) of Some v \<Rightarrow> v | None \<Rightarrow> 0),
                   pr_user = fields ! 2, pr_cpu_pct = flt_or_zero (fields ! 3), pr_mem_pct = flt_or_zero (fields ! 4),
                   pr_rss_bytes = parse_or_zero (fields ! 5) * 1024, pr_state = fields ! 6,
                   pr_command = redact (fields ! 8), pr_uptime_secs = parse_or_zero (fields ! 7)\<rparr>))"

definition parse_ps :: "rstr \<Rightarrow> ProcessInfo list result" where
  "parse_ps contents = Inr (List.map_filter ps_row (lines contents))"

section \<open>Services\<close>

definition BULLET :: rstr where
  "BULLET = [CHR 0xE2, CHR 0x97, CHR 0x8F]"

definition unit_row :: "rstr \<Rightarrow> ServiceInfo option" where
  "unit_row raw =
     (let f = split_ascii_whitespace (trim raw) in
      if trim raw = [] \<or> length f < 4 then None
      else
        (let start = (if f ! 0 = BULLET \<or> f ! 0 = ''*'' then 1 else 0) in
         if length f < start + 4 then None
         else Some \<lparr>sv_unit = f ! start, sv_load_state = f ! (start + 1), sv_active_state = f ! (start + 2),
                    sv_sub_state = f ! (start + 3), sv_description = join '' '' (drop (start + 4) f),
                    sv_enabled = None, sv_active_since_ms = None, sv_restarts = None\<rparr>))"

definition parse_systemctl_units :: "rstr \<Rightarrow> ServiceInfo list result" where
  "parse_systemctl_units contents = Inr (List.map_filter unit_row (lines contents))"

definition enablement_entry :: "rstr \<Rightarrow> (rstr \<times> rstr) option" where
  "enablement_entry line =
     (let f = split_ascii_whitespace line in if length f < 2 then None else Some (f ! 0, f ! 1))"

definition set_enabled :: "rstr \<Rightarrow> ServiceInfo \<Rightarrow> ServiceInfo" where
  "set_enabled e s = s\<lparr>sv_enabled := Some e\<rparr>"

definition enablement_row :: "rstr \<Rightarrow> ServiceInfo list \<Rightarrow> ServiceInfo list" where
  "enablement_row line services = merge_line enablement_entry sv_unit set_enabled line services"

definition merge_unit_enablement :: "ServiceInfo list \<Rightarrow> rstr \<Rightarrow> ServiceInfo list" where
  "merge_unit_enablement services contents = fold enablement_row (lines contents) services"

section \<open>Listening sockets\<close>

definition parse_ss_users :: "rstr \<Rightarrow> rstr option \<times> u32 option" where
  "parse_ss_users line =
     (case split_once_str ''users:(('' line of
        None \<Rightarrow> (None, None)
      | Some (_, rest) \<Rightarrow>
          (map_option fst (Option.bind (strip_prefix [DQ] rest) (split_once DQ)),
           Option.bind (split_once_str ''pid='' rest) (\<lambda>(_, r). parse_u32 (takeWhile is_ascii_digit r))))"

definition ss_row :: "rstr \<Rightarrow> PortInfo option" where
  "ss_row raw =
     (let line = trim raw; f = split_ascii_whitespace line in
      if line = [] \<or> length f < 5 then None
      else
        (case rsplit_once CHR '':'' (f ! 4) of
           None \<Rightarrow> None
         | Some (addr, port_str) \<Rightarrow>
             (case parse_u16 port_str of
                None \<Rightarrow> None
              | Some port \<Rightarrow>
                  (case parse_ss_users line of (process, pid) \<Rightarrow>
                     Some \<lparr>pi_port = port, pi_protocol = f ! 0, pi_address = addr, pi_process = process, pi_pid = pid,
                           pi_exposure = from_bind_address addr\<rparr>))))"

definition parse_ss :: "rstr \<Rightarrow> PortInfo list result" where
  "parse_ss contents = Inr (List.map_filter ss_row (lines contents))"

section \<open>What a merge computes\<close>

text \<open>
  The three merges share a contract: setting fields keeps the key of an entry, and the last setting wins.
  From it follows what a merge computes on entries with distinct keys: the last row about a key, if any.
\<close>

locale keyed_merge =
  fixes entry :: "rstr \<Rightarrow> (rstr \<times> 'u) option" and key :: "'a \<Rightarrow> rstr" and put :: "'u \<Rightarrow> 'a \<Rightarrow> 'a"
  assumes key_put: "key (put u x) = key x" and put_put: "put u (put v x) = put u x"
begin

lemma update_first_distinct:
  assumes "distinct (map key xs)"
  shows "update_first (\<lambda>x. key x = k) (put u) xs = map (\<lambda>x. if key x = k then put u x else x) xs"
  using assms by (induction xs) (auto simp: image_iff intro!: map_idI [symmetric])

lemma keys_update: "map key (update_first p (put u) xs) = map key xs"
  by (induction xs) (auto simp: key_put)

lemma merge_spec:
  assumes "distinct (map key xs)"
  shows "fold (merge_line entry key put) ls xs =
    map (\<lambda>x. case map_of (rev (List.map_filter entry ls)) (key x) of Some u \<Rightarrow> put u x | None \<Rightarrow> x) xs"
  using assms
proof (induction ls arbitrary: xs)
  case (Cons l ls)
  show ?case
  proof (cases "entry l")
    case None
    then show ?thesis using Cons by (simp add: merge_line_def map_filter_simps)
  next
    case (Some ku)
    obtain k u where ku: "ku = (k, u)" by fastforce
    let ?ys = "update_first (\<lambda>x. key x = k) (put u) xs"
    have "distinct (map key ?ys)" using Cons.prems by (simp only: keys_update)
    from Cons.IH [OF this] show ?thesis
      using Some ku Cons.prems
      by (auto simp: merge_line_def map_filter_simps update_first_distinct key_put put_put map_add_def split: option.splits)
  qed
qed (simp add: map_filter_simps)

end

interpretation fs_types: keyed_merge mount_row fi_mount_point set_fs_type
  by unfold_locales (simp_all add: set_fs_type_def)

interpretation inodes: keyed_merge inode_entry fi_mount_point set_inodes
  by unfold_locales (simp_all add: set_inodes_def)

interpretation enablement: keyed_merge enablement_entry sv_unit set_enabled
  by unfold_locales (simp_all add: set_enabled_def)

lemma fs_type_row_eq: "fs_type_row = merge_line mount_row fi_mount_point set_fs_type"
  by (simp add: fun_eq_iff fs_type_row_def)

lemma inode_row_eq: "inode_row = merge_line inode_entry fi_mount_point set_inodes"
  by (simp add: fun_eq_iff inode_row_def)

lemma enablement_row_eq: "enablement_row = merge_line enablement_entry sv_unit set_enabled"
  by (simp add: fun_eq_iff enablement_row_def)

text \<open>On rows of \<open>df\<close> with distinct mount points, the two merges give each filesystem the type of the
  last row of the mount table about its mount point and the inode counts of the last row of \<open>df -i\<close> about
  it, and leave everything else as \<open>df\<close> reported it; likewise for the enablement of units.\<close>

theorem merges_spec:
  assumes "distinct (map fi_mount_point fs)" and "distinct (map sv_unit services)"
  shows "merge_inode_counts (merge_fs_types fs mounts) dfi =
      map (\<lambda>x. let y = (case map_of (rev (List.map_filter mount_row (lines mounts))) (fi_mount_point x) of
                         Some t \<Rightarrow> x\<lparr>fi_fs_type := t\<rparr> | None \<Rightarrow> x)
               in (case map_of (rev (List.map_filter inode_entry (drop 1 (lines dfi)))) (fi_mount_point x) of
                     Some (n, m) \<Rightarrow> y\<lparr>fi_inodes_total := n, fi_inodes_used := m\<rparr> | None \<Rightarrow> y)) fs \<and>
    merge_unit_enablement services units =
      map (\<lambda>x. case map_of (rev (List.map_filter enablement_entry (lines units))) (sv_unit x) of
                 Some e \<Rightarrow> x\<lparr>sv_enabled := Some e\<rparr> | None \<Rightarrow> x) services"
proof -
  let ?types = "map (\<lambda>x. case map_of (rev (List.map_filter mount_row (lines mounts))) (fi_mount_point x) of
    Some t \<Rightarrow> set_fs_type t x | None \<Rightarrow> x) fs"
  have types: "merge_fs_types fs mounts = ?types"
    by (simp only: merge_fs_types_def fs_type_row_eq fs_types.merge_spec [OF assms(1)])
  have "map fi_mount_point ?types = map fi_mount_point fs"
    by (auto simp: set_fs_type_def split: option.split)
  with assms(1) have "distinct (map fi_mount_point ?types)" by (simp only:)
  from inodes.merge_spec [OF this, of "drop 1 (lines dfi)"] types
  have "merge_inode_counts (merge_fs_types fs mounts) dfi =
      map (\<lambda>x. case map_of (rev (List.map_filter inode_entry (drop 1 (lines dfi)))) (fi_mount_point x) of
        Some u \<Rightarrow> set_inodes u x | None \<Rightarrow> x) ?types"
    by (simp only: merge_inode_counts_def inode_row_eq)
  then show ?thesis
    using enablement.merge_spec [OF assms(2), of "lines units"]
    by (auto simp: merge_unit_enablement_def enablement_row_eq set_enabled_def set_inodes_def set_fs_type_def
        split: option.split)
qed

definition demo_fs :: "rstr \<Rightarrow> FilesystemInfo" where
  "demo_fs mount = \<lparr>fi_mount_point = mount, fi_device = ''/dev/vda1'', fi_fs_type = [], fi_total_bytes = 100, fi_used_bytes = 40,
     fi_available_bytes = 50, fi_inodes_total = 0, fi_inodes_used = 0\<rparr>"

lemma demo_mounts: "List.map_filter mount_row (lines (''/dev/vda1 / ext4 rw'' @ [NL])) = [(''/'', ''ext4'')]"
  by code_simp

lemma demo_inodes: "List.map_filter inode_entry (drop 1 (lines [])) = []"
  by code_simp

theorem merges_spec_witness:
  "merge_inode_counts (merge_fs_types [demo_fs ''/'', demo_fs ''/run''] (''/dev/vda1 / ext4 rw'' @ [NL])) [] =
     [(demo_fs ''/'')\<lparr>fi_fs_type := ''ext4''\<rparr>, demo_fs ''/run'']"
proof -
  have "distinct (map fi_mount_point [demo_fs ''/'', demo_fs ''/run''])" "distinct (map sv_unit [])"
    by (simp_all add: demo_fs_def)
  from merges_spec [OF this, of "''/dev/vda1 / ext4 rw'' @ [NL]" "[]" "[]", unfolded demo_mounts demo_inodes]
  show ?thesis by (simp add: demo_fs_def)
qed

end
