(* ===== verification/Collector.thy ===== *)
theory Collector
  imports Rust_Text Core_Types
begin

text \<open>
  crates/kyvon-telemetry/src/collector.rs: the framing of the remote collector. One side is the shell
  script that writes a block per tick, the other the incremental reader that is fed one line at a time.
  What the commands of the script print is a parameter: the lines of each section of a tick.
\<close>

section \<open>Blocks and the reader\<close>

definition MARKER :: rstr where
  "MARKER = ''%%KYVON/1 ''"

record Section =
  sec_name :: rstr
  sec_body :: rstr

record Block =
  blk_ts :: TimestampMs
  blk_seq :: u64
  blk_sections :: "Section list"

definition block_section :: "Block \<Rightarrow> rstr \<Rightarrow> rstr option" where
  "block_section b name = map_option sec_body (find (\<lambda>s. sec_name s = name) (blk_sections b))"

datatype Emit =
    Hello rstr rstr rstr "rstr list"
  | EmitBlock Block

record BlockReader =
  rd_ts :: TimestampMs
  rd_seq :: u64
  rd_sections :: "Section list"
  rd_current :: "Section option"
  rd_in_block :: bool
  rd_preamble :: "rstr list"

definition reader_new :: BlockReader where
  "reader_new = \<lparr>rd_ts = 0, rd_seq = 0, rd_sections = [], rd_current = None, rd_in_block = False, rd_preamble = []\<rparr>"

definition PREAMBLE_MAX :: nat where
  "PREAMBLE_MAX = 64"

text \<open>A line without the marker: the body of the open section, or, outside a block, the preamble.\<close>

definition push_plain :: "BlockReader \<Rightarrow> rstr \<Rightarrow> BlockReader" where
  "push_plain r line =
     (if rd_in_block r then
        (case rd_current r of
           Some sec \<Rightarrow> r\<lparr>rd_current := Some (sec\<lparr>sec_body := sec_body sec @ line @ [NL]\<rparr>)\<rparr>
         | None \<Rightarrow> r)
      else if trim line \<noteq> [] \<and> length (rd_preamble r) < PREAMBLE_MAX then r\<lparr>rd_preamble := rd_preamble r @ [line]\<rparr>
      else r)"

definition close_section :: "BlockReader \<Rightarrow> BlockReader" where
  "close_section r =
     (case rd_current r of
        Some done \<Rightarrow> r\<lparr>rd_sections := rd_sections r @ [done], rd_current := None\<rparr>
      | None \<Rightarrow> r)"

definition nth_word :: "rstr list \<Rightarrow> nat \<Rightarrow> rstr option" where
  "nth_word ws i = (if i < length ws then Some (ws ! i) else None)"

definition word_or :: "(rstr \<Rightarrow> 'a option) \<Rightarrow> 'a \<Rightarrow> rstr list \<Rightarrow> nat \<Rightarrow> 'a" where
  "word_or p d ws i = (case Option.bind (nth_word ws i) p of Some v \<Rightarrow> v | None \<Rightarrow> d)"

definition read_hello :: "rstr \<Rightarrow> Emit result" where
  "read_hello rest =
     (let payload = trim (case strip_prefix ''HELLO'' rest of Some t \<Rightarrow> t | None \<Rightarrow> []);
          f = split_on CHR ''|'' payload
      in if length f < 4
         then Inl (ParseError ''collector HELLO'' (''expected 4 fields, found '' @ show_nat (length f)))
         else Inr (Hello (trim (f ! 0)) (trim (f ! 1)) (trim (f ! 2)) (split_ascii_whitespace (f ! 3))))"

definition push_line :: "BlockReader \<Rightarrow> rstr \<Rightarrow> Emit option result \<times> BlockReader" where
  "push_line r line =
     (case strip_prefix MARKER line of
        None \<Rightarrow> (Inr None, push_plain r line)
      | Some rest \<Rightarrow>
          (let parts = split_ascii_whitespace rest;
               verb = (case parts of v # _ \<Rightarrow> v | [] \<Rightarrow> [])
           in if verb = ''HELLO'' then (map_sum id Some (read_hello rest), r)
              else if verb = ''TICK'' then
                (Inr None,
                 r\<lparr>rd_ts := word_or parse_i64 0 parts 1, rd_seq := word_or parse_u64 0 parts 2,
                   rd_sections := [], rd_current := None, rd_in_block := True, rd_preamble := []\<rparr>)
              else if verb = ''SEC'' then
                (Inr None,
                 (close_section r)\<lparr>rd_current := Some \<lparr>sec_name = word_or Some [] parts 1, sec_body = []\<rparr>\<rparr>)
              else if verb = ''END'' then
                (if \<not> rd_in_block r then (Inr None, r)
                 else (let r' = close_section r in
                       (Inr (Some (EmitBlock \<lparr>blk_ts = rd_ts r', blk_seq = rd_seq r', blk_sections = rd_sections r'\<rparr>)),
                        r'\<lparr>rd_in_block := False, rd_sections := []\<rparr>)))
              else (Inl (ParseError ''collector frame'' (''unknown marker verb `'' @ verb @ ''`'')), r)))"

text \<open>The loop of the caller: every line in order, the result of each kept.\<close>

fun feed :: "BlockReader \<Rightarrow> rstr list \<Rightarrow> Emit option result list \<times> BlockReader" where
  "feed r [] = ([], r)"
| "feed r (l # ls) =
     (case push_line r l of (out, r') \<Rightarrow> (case feed r' ls of (outs, r'') \<Rightarrow> (out # outs, r'')))"

definition emitted :: "Emit option result list \<Rightarrow> Emit list" where
  "emitted outs = List.map_filter (\<lambda>x. case x of Inr (Some e) \<Rightarrow> Some e | _ \<Rightarrow> None) outs"

section \<open>The script\<close>

text \<open>Which sections tick \<open>n\<close> writes, in order; \<open>have\<close> says which commands the host has.\<close>

definition scheduled :: "(rstr \<Rightarrow> bool) \<Rightarrow> nat \<Rightarrow> rstr list" where
  "scheduled have n =
     [''stat'', ''loadavg'', ''netdev''] @
     (if n mod 2 = 0 then [''meminfo'', ''pressure_mem''] else []) @
     (if n mod 3 = 0 then [''ps''] else []) @
     (if n mod 15 = 0 \<and> have ''systemctl'' then [''services''] else []) @
     (if n mod 30 = 0 then [''df'', ''dfi'', ''mounts'', ''uptime''] @ (if have ''ss'' then [''ss''] else []) else [])"

definition script_sec :: "rstr \<Rightarrow> rstr" where
  "script_sec name = ''%%KYVON/1'' @ '' SEC '' @ name"

definition tick_lines :: "(rstr \<Rightarrow> bool) \<Rightarrow> (rstr \<Rightarrow> rstr list) \<Rightarrow> TimestampMs \<Rightarrow> nat \<Rightarrow> rstr list" where
  "tick_lines have outp now n =
     [''%%KYVON/1'' @ '' TICK '' @ show_int now @ '' '' @ show_nat n] @
     concat (map (\<lambda>name. script_sec name # outp name) (scheduled have n)) @
     [''%%KYVON/1'' @ '' END'']"

definition hello_line :: "rstr \<Rightarrow> rstr \<Rightarrow> rstr \<Rightarrow> rstr list \<Rightarrow> rstr" where
  "hello_line node release arch cmds =
     ''%%KYVON/1'' @ '' HELLO '' @ node @ ''|'' @ release @ ''|'' @ arch @ ''|'' @ concat (map (\<lambda>c. SP # c) cmds)"

section \<open>What a stream of lines means\<close>

text \<open>
  A reading of the whole stream that keeps no state: a block is the stretch from a TICK to an END with no
  other TICK in between, a section the stretch from a SEC to the next one.
\<close>

definition marker_words :: "rstr \<Rightarrow> rstr list" where
  "marker_words l = (case strip_prefix MARKER l of Some rest \<Rightarrow> split_ascii_whitespace rest | None \<Rightarrow> [])"

definition is_plain :: "rstr \<Rightarrow> bool" where
  "is_plain l \<longleftrightarrow> \<not> prefix MARKER l"

definition has_verb :: "rstr \<Rightarrow> rstr \<Rightarrow> bool" where
  "has_verb v l \<longleftrightarrow> nth_word (marker_words l) 0 = Some v"

definition ends_block :: "rstr \<Rightarrow> bool" where
  "ends_block l \<longleftrightarrow> has_verb ''TICK'' l \<or> has_verb ''END'' l"

definition unlines :: "rstr list \<Rightarrow> rstr" where
  "unlines ls = concat (map (\<lambda>l. l @ [NL]) ls)"

function sections_of :: "rstr list \<Rightarrow> Section list" where
  "sections_of ls =
     (case dropWhile (\<lambda>l. \<not> has_verb ''SEC'' l) ls of
        [] \<Rightarrow> []
      | s # rest \<Rightarrow>
          \<lparr>sec_name = word_or Some [] (marker_words s) 1,
           sec_body = unlines (filter is_plain (takeWhile (\<lambda>l. \<not> has_verb ''SEC'' l) rest))\<rparr> #
          sections_of (dropWhile (\<lambda>l. \<not> has_verb ''SEC'' l) rest))"
  by pat_completeness auto
termination
proof (relation "measure length", goal_cases)
  case (2 ls s rest)
  have "length (dropWhile (\<lambda>l. \<not> has_verb ''SEC'' l) rest) \<le> length rest"
    by (rule length_dropWhile_le)
  also have "length rest < length (dropWhile (\<lambda>l. \<not> has_verb ''SEC'' l) ls)" using 2 by simp
  also have "\<dots> \<le> length ls" by (rule length_dropWhile_le)
  finally show ?case by simp
qed simp

declare sections_of.simps [simp del]

function blocks_of :: "rstr list \<Rightarrow> Block list" where
  "blocks_of ls =
     (case dropWhile (\<lambda>l. \<not> has_verb ''TICK'' l) ls of
        [] \<Rightarrow> []
      | t # rest \<Rightarrow>
          (case dropWhile (\<lambda>l. \<not> ends_block l) rest of
             [] \<Rightarrow> []
           | e # later \<Rightarrow>
               if has_verb ''END'' e then
                 \<lparr>blk_ts = word_or parse_i64 0 (marker_words t) 1, blk_seq = word_or parse_u64 0 (marker_words t) 2,
                  blk_sections = sections_of (takeWhile (\<lambda>l. \<not> ends_block l) rest)\<rparr> # blocks_of later
               else blocks_of (e # later)))"
  by pat_completeness auto
termination
proof (relation "measure length", goal_cases)
  case (2 ls t rest e later)
  then show ?case
    using length_dropWhile_le [of "\<lambda>l. \<not> has_verb ''TICK'' l" ls]
      length_dropWhile_le [of "\<lambda>l. \<not> ends_block l" rest] by simp
next
  case (3 ls t rest e later)
  then show ?case
    using length_dropWhile_le [of "\<lambda>l. \<not> has_verb ''TICK'' l" ls]
      length_dropWhile_le [of "\<lambda>l. \<not> ends_block l" rest] by simp
qed simp

declare blocks_of.simps [simp del]

definition emitted_blocks :: "Emit option result list \<Rightarrow> Block list" where
  "emitted_blocks outs = List.map_filter (\<lambda>e. case e of EmitBlock b \<Rightarrow> Some b | _ \<Rightarrow> None) (emitted outs)"

section \<open>One line\<close>

lemma plain_no_verb: "is_plain l \<Longrightarrow> \<not> has_verb v l"
  by (simp add: is_plain_def has_verb_def marker_words_def strip_prefix_def nth_word_def)

lemma has_verb_unique: "has_verb v l \<Longrightarrow> has_verb w l \<Longrightarrow> v = w"
  by (simp add: has_verb_def)

lemma push_plain_line: "is_plain l \<Longrightarrow> push_line r l = (Inr None, push_plain r l)"
  by (simp add: is_plain_def push_line_def strip_prefix_def)

lemma has_verbE:
  assumes "has_verb v l"
  obtains rest ws where "strip_prefix MARKER l = Some rest" "split_ascii_whitespace rest = v # ws"
    "marker_words l = v # ws"
  using assms
  by (cases "strip_prefix MARKER l"; cases "marker_words l")
    (auto simp: has_verb_def marker_words_def nth_word_def split: if_splits)

definition tick_state :: "rstr \<Rightarrow> BlockReader" where
  "tick_state l =
     \<lparr>rd_ts = word_or parse_i64 0 (marker_words l) 1, rd_seq = word_or parse_u64 0 (marker_words l) 2,
      rd_sections = [], rd_current = None, rd_in_block = True, rd_preamble = []\<rparr>"

lemma push_tick: "has_verb ''TICK'' l \<Longrightarrow> push_line r l = (Inr None, tick_state l)"
  by (erule has_verbE) (simp add: push_line_def tick_state_def Let_def)

lemma push_sec:
  "has_verb ''SEC'' l \<Longrightarrow>
   push_line r l = (Inr None, (close_section r)\<lparr>rd_current := Some \<lparr>sec_name = word_or Some [] (marker_words l) 1, sec_body = []\<rparr>\<rparr>)"
  by (erule has_verbE) (simp add: push_line_def Let_def)

lemma push_end:
  "has_verb ''END'' l \<Longrightarrow> rd_in_block r \<Longrightarrow>
   push_line r l = (Inr (Some (EmitBlock \<lparr>blk_ts = rd_ts r, blk_seq = rd_seq r, blk_sections = rd_sections (close_section r)\<rparr>)),
                    (close_section r)\<lparr>rd_in_block := False, rd_sections := []\<rparr>)"
  by (erule has_verbE) (simp add: push_line_def Let_def close_section_def split: option.split)

lemma push_end_outside: "has_verb ''END'' l \<Longrightarrow> \<not> rd_in_block r \<Longrightarrow> push_line r l = (Inr None, r)"
  by (erule has_verbE) (simp add: push_line_def Let_def)

text \<open>A marker line with any other verb leaves the reader as it was and completes no block.\<close>

lemma push_other:
  assumes "\<not> is_plain l" "\<not> ends_block l" "\<not> has_verb ''SEC'' l"
  shows "\<exists>out. push_line r l = (out, r) \<and> emitted_blocks [out] = []"
proof -
  from assms(1) obtain rest where rest: "strip_prefix MARKER l = Some rest"
    by (auto simp: is_plain_def strip_prefix_def)
  have none: "emitted_blocks [map_sum id Some (read_hello rest)] = []" "emitted_blocks [Inl e] = []" for e
    by (auto simp: emitted_blocks_def emitted_def read_hello_def map_filter_simps Let_def)
  have "nth_word (split_ascii_whitespace rest) 0 \<notin> {Some ''TICK'', Some ''END'', Some ''SEC''}"
    using assms(2,3) rest by (simp add: ends_block_def has_verb_def marker_words_def)
  then show ?thesis using rest none
    by (cases "split_ascii_whitespace rest") (auto simp: push_line_def nth_word_def Let_def)
qed

section \<open>Streams of lines\<close>

lemma emitted_blocks_Cons: "emitted_blocks (x # xs) = emitted_blocks [x] @ emitted_blocks xs"
  by (cases "case x of Inr (Some e) \<Rightarrow> Some e | _ \<Rightarrow> None")
    (auto simp: emitted_blocks_def emitted_def map_filter_simps split: sum.splits option.splits Emit.splits)

lemma emitted_blocks_simps [simp]:
  "emitted_blocks [] = []" "emitted_blocks (Inr None # xs) = emitted_blocks xs"
  "emitted_blocks (Inr (Some (EmitBlock b)) # xs) = b # emitted_blocks xs"
  by (simp_all add: emitted_blocks_def emitted_def map_filter_simps)

lemma emitted_blocks_append: "emitted_blocks (xs @ ys) = emitted_blocks xs @ emitted_blocks ys"
proof (induction xs)
  case (Cons x xs)
  then show ?case using emitted_blocks_Cons [of x "xs @ ys"] emitted_blocks_Cons [of x xs] by simp
qed simp

lemma feed_append:
  "feed r (xs @ ys) = (case feed r xs of (o1, r1) \<Rightarrow> case feed r1 ys of (o2, r2) \<Rightarrow> (o1 @ o2, r2))"
  by (induction xs arbitrary: r) (auto split: prod.splits)

text \<open>The sections the reader would hand over if the block ended now.\<close>

abbreviation closed :: "BlockReader \<Rightarrow> Section list" where
  "closed r \<equiv> rd_sections (close_section r)"

definition plain_part :: "rstr list \<Rightarrow> rstr" where
  "plain_part ls = unlines (filter is_plain (takeWhile (\<lambda>l. \<not> has_verb ''SEC'' l) ls))"

definition later_sections :: "rstr list \<Rightarrow> Section list" where
  "later_sections ls = sections_of (dropWhile (\<lambda>l. \<not> has_verb ''SEC'' l) ls)"

lemma sections_of_later: "sections_of ls = later_sections ls"
  by (simp add: later_sections_def sections_of.simps [of ls]
      sections_of.simps [of "dropWhile (\<lambda>l. \<not> has_verb ''SEC'' l) ls"])

lemma later_sections_simps [simp]:
  "later_sections [] = []"
  "\<not> has_verb ''SEC'' l \<Longrightarrow> later_sections (l # ls) = later_sections ls"
  "has_verb ''SEC'' l \<Longrightarrow> later_sections (l # ls) =
     \<lparr>sec_name = word_or Some [] (marker_words l) 1, sec_body = plain_part ls\<rparr> # later_sections ls"
  by (simp_all add: later_sections_def plain_part_def sections_of.simps [of "[]"] sections_of.simps [of "l # ls"])

lemma plain_part_simps [simp]:
  "plain_part [] = []"
  "has_verb ''SEC'' l \<Longrightarrow> plain_part (l # ls) = []"
  "\<not> has_verb ''SEC'' l \<Longrightarrow> is_plain l \<Longrightarrow> plain_part (l # ls) = l @ NL # plain_part ls"
  "\<not> has_verb ''SEC'' l \<Longrightarrow> \<not> is_plain l \<Longrightarrow> plain_part (l # ls) = plain_part ls"
  by (simp_all add: plain_part_def unlines_def)

definition with_rest :: "Section option \<Rightarrow> rstr list \<Rightarrow> Section list" where
  "with_rest cur ls =
     (case cur of Some s \<Rightarrow> [s\<lparr>sec_body := sec_body s @ plain_part ls\<rparr>] | None \<Rightarrow> []) @ later_sections ls"

text \<open>Inside a block the reader groups the lines as the stateless reading does, and emits nothing.\<close>

lemma feed_inside:
  assumes "rd_in_block r" and "\<forall>l \<in> set ls. \<not> ends_block l"
  shows "\<exists>outs r'. feed r ls = (outs, r') \<and> emitted_blocks outs = [] \<and> rd_in_block r' \<and>
    rd_ts r' = rd_ts r \<and> rd_seq r' = rd_seq r \<and> closed r' = rd_sections r @ with_rest (rd_current r) ls"
  using assms
proof (induction ls arbitrary: r)
  case Nil
  then show ?case by (cases "rd_current r") (simp_all add: close_section_def with_rest_def)
next
  case (Cons l ls)
  have step: "\<exists>out r1. push_line r l = (out, r1) \<and> emitted_blocks [out] = [] \<and> rd_in_block r1 \<and>
      rd_ts r1 = rd_ts r \<and> rd_seq r1 = rd_seq r \<and>
      rd_sections r1 @ with_rest (rd_current r1) ls = rd_sections r @ with_rest (rd_current r) (l # ls)"
  proof -
    consider "is_plain l" | "has_verb ''SEC'' l" | "\<not> is_plain l" "\<not> has_verb ''SEC'' l" by blast
    then show ?thesis
    proof cases
      case 1
      with Cons.prems(1) show ?thesis
        by (cases "rd_current r") (simp_all add: push_plain_line push_plain_def with_rest_def plain_no_verb)
    next
      case 2
      with Cons.prems(1) show ?thesis
        by (cases "rd_current r") (simp_all add: push_sec close_section_def with_rest_def)
    next
      case 3
      with Cons.prems push_other [of l r] obtain out
        where out: "push_line r l = (out, r)" "emitted_blocks [out] = []" by auto
      with 3 Cons.prems(1) show ?thesis by (simp add: with_rest_def split: option.split)
    qed
  qed
  then obtain out r1 where r1: "push_line r l = (out, r1)" "emitted_blocks [out] = []" "rd_in_block r1"
      "rd_ts r1 = rd_ts r" "rd_seq r1 = rd_seq r"
      "rd_sections r1 @ with_rest (rd_current r1) ls = rd_sections r @ with_rest (rd_current r) (l # ls)"
    by blast
  from Cons.IH [OF r1(3)] Cons.prems(2) obtain outs r' where
    "feed r1 ls = (outs, r')" "emitted_blocks outs = []" "rd_in_block r'" "rd_ts r' = rd_ts r1"
    "rd_seq r' = rd_seq r1" "closed r' = rd_sections r1 @ with_rest (rd_current r1) ls" by auto
  with r1 show ?case by (simp add: emitted_blocks_Cons [of out outs])
qed

text \<open>Outside a block no line but TICK matters.\<close>

lemma push_outside:
  assumes "\<not> rd_in_block r" and "\<not> has_verb ''TICK'' l"
  shows "\<exists>out r'. push_line r l = (out, r') \<and> emitted_blocks [out] = [] \<and> \<not> rd_in_block r'"
proof -
  consider "is_plain l" | "has_verb ''SEC'' l" | "has_verb ''END'' l" | "\<not> is_plain l" "\<not> ends_block l" "\<not> has_verb ''SEC'' l"
    using assms(2) by (auto simp: ends_block_def)
  then show ?thesis
  proof cases
    case 1
    with assms(1) show ?thesis by (simp add: push_plain_line push_plain_def)
  next
    case 2
    with assms(1) show ?thesis by (simp add: push_sec close_section_def split: option.split)
  next
    case 3
    with assms(1) show ?thesis by (simp add: push_end_outside)
  next
    case 4
    with assms(1) push_other [of l r] show ?thesis by auto
  qed
qed

lemma feed_outside:
  assumes "\<not> rd_in_block r" and "\<forall>l \<in> set ls. \<not> has_verb ''TICK'' l"
  shows "\<exists>outs r'. feed r ls = (outs, r') \<and> emitted_blocks outs = [] \<and> \<not> rd_in_block r'"
  using assms
proof (induction ls arbitrary: r)
  case (Cons l ls)
  from push_outside [OF Cons.prems(1), of l] Cons.prems(2) obtain out r1
    where r1: "push_line r l = (out, r1)" "emitted_blocks [out] = []" "\<not> rd_in_block r1" by auto
  from Cons.IH [OF r1(3)] Cons.prems(2) obtain outs r' where
    "feed r1 ls = (outs, r')" "emitted_blocks outs = []" "\<not> rd_in_block r'" by auto
  with r1 show ?case by (simp add: emitted_blocks_Cons [of out outs])
qed simp

lemma feed_blocks:
  "\<not> rd_in_block r \<Longrightarrow> emitted_blocks (fst (feed r ls)) = blocks_of ls"
proof (induction ls arbitrary: r rule: blocks_of.induct)
  case (1 ls)
  let ?noise = "takeWhile (\<lambda>l. \<not> has_verb ''TICK'' l) ls"
  let ?from = "dropWhile (\<lambda>l. \<not> has_verb ''TICK'' l) ls"
  have "\<forall>l \<in> set ?noise. \<not> has_verb ''TICK'' l" by (auto dest: set_takeWhileD)
  from feed_outside [OF 1(3) this] obtain o1 r1
    where noise: "feed r ?noise = (o1, r1)" "emitted_blocks o1 = []" "\<not> rd_in_block r1" by blast
  have split: "emitted_blocks (fst (feed r ls)) = emitted_blocks (fst (feed r1 ?from))"
    using feed_append [of r ?noise ?from] noise
    by (simp add: emitted_blocks_append split: prod.splits)
  show ?case
  proof (cases ?from)
    case Nil
    then show ?thesis unfolding split blocks_of.simps [of ls] by (simp only: Nil) simp
  next
    case (Cons t rest)
    then have tick: "has_verb ''TICK'' t" using hd_dropWhile [of "\<lambda>l. \<not> has_verb ''TICK'' l" ls] by simp
    let ?seg = "takeWhile (\<lambda>l. \<not> ends_block l) rest"
    let ?tail = "dropWhile (\<lambda>l. \<not> ends_block l) rest"
    have "\<forall>l \<in> set ?seg. \<not> ends_block l" by (auto dest: set_takeWhileD)
    from feed_inside [of "tick_state t", OF _ this] obtain o2 r2
      where seg: "feed (tick_state t) ?seg = (o2, r2)" "emitted_blocks o2 = []" "rd_in_block r2"
        "rd_ts r2 = rd_ts (tick_state t)" "rd_seq r2 = rd_seq (tick_state t)" "closed r2 = sections_of ?seg"
      by (auto simp: tick_state_def with_rest_def sections_of_later)
    have tailsplit: "emitted_blocks (fst (feed r ls)) = emitted_blocks (fst (feed r2 ?tail))"
      using split Cons push_tick [OF tick, of r1] feed_append [of "tick_state t" ?seg ?tail] seg
      by (simp add: emitted_blocks_append split: prod.splits)
    show ?thesis
    proof (cases ?tail)
      case Nil
      then show ?thesis unfolding tailsplit blocks_of.simps [of ls]
        by (simp only: Nil Cons list.case feed.simps fst_conv emitted_blocks_simps)
    next
      case tail: (Cons e later)
      then have "ends_block e" using hd_dropWhile [of "\<lambda>l. \<not> ends_block l" rest] by simp
      then consider "has_verb ''END'' e" | "has_verb ''TICK'' e" "\<not> has_verb ''END'' e"
        using has_verb_unique [of "''END''" e "''TICK''"] by (auto simp: ends_block_def)
      then show ?thesis
      proof cases
        case 1
        then have "emitted_blocks (fst (feed r ls)) =
            \<lparr>blk_ts = rd_ts r2, blk_seq = rd_seq r2, blk_sections = closed r2\<rparr> #
            emitted_blocks (fst (feed ((close_section r2)\<lparr>rd_in_block := False, rd_sections := []\<rparr>) later))"
          using tailsplit tail seg(3) by (simp add: push_end split: prod.splits)
        also have "emitted_blocks (fst (feed ((close_section r2)\<lparr>rd_in_block := False, rd_sections := []\<rparr>) later)) = blocks_of later"
          using "1.IH"(1) [OF Cons tail 1] by simp
        finally show ?thesis
          using Cons tail 1 seg by (simp add: blocks_of.simps [of ls] tick_state_def)
      next
        case 2
        have "fst (feed r2 (e # later)) = fst (feed reader_new (e # later))"
          using push_tick [OF 2(1)] by (simp split: prod.splits)
        moreover have "emitted_blocks (fst (feed reader_new (e # later))) = blocks_of (e # later)"
          using "1.IH"(2) [OF Cons tail 2(2)] by (simp add: reader_new_def)
        ultimately show ?thesis
          using tailsplit Cons tail 2 by (simp add: blocks_of.simps [of ls])
      qed
    qed
  qed
qed

section \<open>The script against the reader\<close>

lemma marker_line [simp]: "strip_prefix MARKER (''%%KYVON/1'' @ CHR '' '' # rest) = Some rest"
  by (simp add: strip_prefix_def MARKER_def)

lemma marker_words_line: "is_word v \<Longrightarrow> marker_words (''%%KYVON/1'' @ CHR '' '' # v @ CHR '' '' # s) = v # split_ascii_whitespace s"
  using split_words_Cons [of v SP s] by (simp only: marker_words_def marker_line) (simp add: is_ascii_whitespace_def)

lemma verb_words: "is_word ''TICK''" "is_word ''SEC''" "is_word ''END''" "is_word ''HELLO''"
  by (simp_all add: is_word_def is_ascii_whitespace_def)

lemma marker_words_sec: "is_word name \<Longrightarrow> marker_words (script_sec name) = [''SEC'', name]"
  using marker_words_line [OF verb_words(2), of name] by (simp add: script_sec_def)

lemma marker_words_tick:
  "marker_words (''%%KYVON/1'' @ '' TICK '' @ show_int now @ '' '' @ show_nat n) = [''TICK'', show_int now, show_nat n]"
  using marker_words_line [OF verb_words(1), of "show_int now @ '' '' @ show_nat n"]
    split_words_Cons [of "show_int now" SP "show_nat n"]
  by (simp add: is_ascii_whitespace_def)

lemma has_verb_end: "has_verb ''END'' (''%%KYVON/1'' @ '' END'')"
  using split_words_single [OF verb_words(3)]
  by (simp add: has_verb_def marker_words_def strip_prefix_def MARKER_def nth_word_def)

lemma scheduled_words: "name \<in> set (scheduled have n) \<Longrightarrow> is_word name"
  by (auto simp: scheduled_def is_word_def is_ascii_whitespace_def split: if_splits)

lemma later_sections_plain:
  assumes "\<forall>l \<in> set ls. is_plain l"
  shows "plain_part (ls @ ms) = unlines ls @ plain_part ms" "later_sections (ls @ ms) = later_sections ms"
  using assms by (induction ls) (auto simp: plain_no_verb unlines_def)

lemma later_sections_script:
  assumes "\<forall>name \<in> set names. is_word name \<and> (\<forall>l \<in> set (outp name). is_plain l)"
  shows "later_sections (concat (map (\<lambda>name. script_sec name # outp name) names)) =
           map (\<lambda>name. \<lparr>sec_name = name, sec_body = unlines (outp name)\<rparr>) names \<and>
         plain_part (concat (map (\<lambda>name. script_sec name # outp name) names)) = []"
  using assms
proof (induction names)
  case (Cons name names)
  have words: "marker_words (script_sec name) = [''SEC'', name]"
    using Cons.prems by (intro marker_words_sec) simp
  then have sec: "has_verb ''SEC'' (script_sec name)" by (simp add: has_verb_def nth_word_def)
  have "\<forall>l \<in> set (outp name). is_plain l" using Cons.prems by simp
  from later_sections_plain [OF this] Cons sec words show ?case
    by (simp add: word_or_def nth_word_def)
qed simp

lemma script_lines_inside:
  assumes "\<forall>name \<in> set names. is_word name \<and> (\<forall>l \<in> set (outp name). is_plain l)"
    and "l \<in> set (concat (map (\<lambda>name. script_sec name # outp name) names))"
  shows "\<not> ends_block l"
proof -
  from assms(2) obtain name where name: "name \<in> set names" and l: "l = script_sec name \<or> l \<in> set (outp name)" by auto
  from l show ?thesis
  proof
    assume "l = script_sec name"
    then show ?thesis
      using assms(1) name marker_words_sec [of name] by (simp add: ends_block_def has_verb_def nth_word_def)
  next
    assume "l \<in> set (outp name)"
    then show ?thesis using assms(1) name plain_no_verb by (auto simp: ends_block_def)
  qed
qed

lemma feed_tick_lines:
  assumes "in_i64 now" and "n < 2 ^ 64"
    and "\<forall>name \<in> set (scheduled have n). \<forall>l \<in> set (outp name). is_plain l"
  shows "emitted_blocks (fst (feed r (tick_lines have outp now n))) =
      [\<lparr>blk_ts = now, blk_seq = of_nat n,
        blk_sections = map (\<lambda>name. \<lparr>sec_name = name, sec_body = unlines (outp name)\<rparr>) (scheduled have n)\<rparr>]"
    and "\<not> rd_in_block (snd (feed r (tick_lines have outp now n)))"
proof -
  let ?tick = "''%%KYVON/1'' @ '' TICK '' @ show_int now @ '' '' @ show_nat n"
  let ?body = "concat (map (\<lambda>name. script_sec name # outp name) (scheduled have n))"
  let ?fin = "''%%KYVON/1'' @ '' END''"
  have lines: "tick_lines have outp now n = ?tick # ?body @ [?fin]" by (simp add: tick_lines_def)
  have ok: "\<forall>name \<in> set (scheduled have n). is_word name \<and> (\<forall>l \<in> set (outp name). is_plain l)"
    using assms(3) scheduled_words by blast
  have tick: "has_verb ''TICK'' ?tick" by (simp only: has_verb_def marker_words_tick) (simp add: nth_word_def)
  have seq: "parse_u64 (show_nat n) = Some (of_nat n)"
    using assms(2) by (simp add: parse_u64_def parse_unsigned_show)
  have start: "rd_ts (tick_state ?tick) = now" "rd_seq (tick_state ?tick) = of_nat n"
    using parse_i64_show [OF assms(1)] seq
    by (simp_all only: tick_state_def marker_words_tick) (simp_all add: word_or_def nth_word_def)
  have "\<forall>l \<in> set ?body. \<not> ends_block l" using script_lines_inside [OF ok] by blast
  from feed_inside [of "tick_state ?tick", OF _ this] obtain outs r' where
    body: "feed (tick_state ?tick) ?body = (outs, r')" "emitted_blocks outs = []" "rd_in_block r'"
      "rd_ts r' = now" "rd_seq r' = of_nat n" "closed r' = later_sections ?body"
    using start by (auto simp: tick_state_def with_rest_def)
  have run: "feed r (tick_lines have outp now n) =
      (Inr None # outs @ [Inr (Some (EmitBlock \<lparr>blk_ts = now, blk_seq = of_nat n, blk_sections = closed r'\<rparr>))],
       (close_section r')\<lparr>rd_in_block := False, rd_sections := []\<rparr>)"
    unfolding lines
    by (simp only: feed.simps push_tick [OF tick] prod.case feed_append body(1) push_end [OF has_verb_end body(3)] body(4,5))
  show "emitted_blocks (fst (feed r (tick_lines have outp now n))) =
      [\<lparr>blk_ts = now, blk_seq = of_nat n,
        blk_sections = map (\<lambda>name. \<lparr>sec_name = name, sec_body = unlines (outp name)\<rparr>) (scheduled have n)\<rparr>]"
    using run body(2,6) later_sections_script [OF ok] by (simp add: emitted_blocks_append)
  show "\<not> rd_in_block (snd (feed r (tick_lines have outp now n)))" using run by simp
qed

section \<open>Properties\<close>

lemma push_line_preamble:
  assumes "length (rd_preamble r) \<le> PREAMBLE_MAX"
  shows "length (rd_preamble (snd (push_line r l))) \<le> PREAMBLE_MAX"
  using assms
  by (auto simp: push_line_def push_plain_def close_section_def Let_def split: option.splits if_splits)

lemma feed_preamble:
  "length (rd_preamble r) \<le> PREAMBLE_MAX \<Longrightarrow> length (rd_preamble (snd (feed r ls))) \<le> PREAMBLE_MAX"
proof (induction ls arbitrary: r)
  case (Cons l ls)
  from Cons.IH [OF push_line_preamble [OF Cons.prems, of l]] show ?case
    by (simp split: prod.splits) (metis snd_conv)
qed simp

text \<open>C29. Whatever lines a host sends, the blocks the reader hands over are exactly the stretches from a
  TICK to the next END with no TICK in between, each with the time and sequence number of its TICK and
  with its sections in order; banners, stray markers, unknown verbs and blocks that are cut short
  contribute nothing, and the text kept for diagnosis never exceeds 64 lines.\<close>

theorem reader_emits_complete_blocks:
  "emitted_blocks (fst (feed reader_new ls)) = blocks_of ls \<and>
   length (rd_preamble (snd (feed reader_new ls))) \<le> PREAMBLE_MAX"
  using feed_blocks [of reader_new ls] feed_preamble [of reader_new ls] by (simp add: reader_new_def)

text \<open>The script and the reader fit together: from any state of the reader, the lines of tick \<open>n\<close>
  yield one block, with the time and the number of the tick and the scheduled sections, each body byte for
  byte what the command printed, as long as no printed line starts with the marker.\<close>

theorem tick_roundtrip:
  assumes "in_i64 now" and "n < 2 ^ 64"
    and "\<forall>name \<in> set (scheduled have n). \<forall>l \<in> set (outp name). is_plain l"
  shows "emitted_blocks (fst (feed r (tick_lines have outp now n))) =
      [\<lparr>blk_ts = now, blk_seq = of_nat n,
        blk_sections = map (\<lambda>name. \<lparr>sec_name = name, sec_body = unlines (outp name)\<rparr>) (scheduled have n)\<rparr>]"
  using assms by (rule feed_tick_lines)

definition demo_output :: "rstr \<Rightarrow> rstr list" where
  "demo_output name = (if name = ''stat'' then [''cpu 1 2 3 4''] else if name = ''netdev'' then [''h1'', ''h2''] else [])"

theorem tick_roundtrip_witness:
  "emitted_blocks (fst (feed reader_new (tick_lines (\<lambda>c. False) demo_output 1770000000000 1))) =
     [\<lparr>blk_ts = 1770000000000, blk_seq = 1,
       blk_sections = [\<lparr>sec_name = ''stat'', sec_body = ''cpu 1 2 3 4'' @ [NL]\<rparr>, \<lparr>sec_name = ''loadavg'', sec_body = []\<rparr>,
         \<lparr>sec_name = ''netdev'', sec_body = ''h1'' @ [NL] @ ''h2'' @ [NL]\<rparr>]\<rparr>]"
  using tick_roundtrip [of 1770000000000 1 "\<lambda>c. False" demo_output reader_new]
  by (simp add: scheduled_def demo_output_def is_plain_def MARKER_def unlines_def i64_defs)

end
