(* ===== verification/Protocol.thy ===== *)
theory Protocol
  imports Telemetry_State Telemetry_Commands Collector
begin

text \<open>
  crates/kyvon-telemetry/src/protocol.rs and sample.rs: from one block of the collector to typed frames,
  and from a frame to the rows of the metric store. Serialising a frame is serde's and is not modelled;
  the version check of a decoded frame is, over the decoder as a parameter.
\<close>

section \<open>Frames\<close>

definition PROTOCOL_VERSION :: u32 where
  "PROTOCOL_VERSION = 1"

definition frame :: "TimestampMs \<Rightarrow> Payload \<Rightarrow> Frame" where
  "frame ts payload = \<lparr>fr_version = PROTOCOL_VERSION, fr_ts = ts, fr_payload = payload\<rparr>"

definition error_frame :: "TimestampMs \<Rightarrow> rstr \<Rightarrow> KyvonError \<Rightarrow> Frame" where
  "error_frame ts collector e = frame ts (PError collector (display_error e))"

definition decode_line :: "(rstr \<Rightarrow> Frame result) \<Rightarrow> rstr \<Rightarrow> Frame result" where
  "decode_line from_str line =
     (case from_str (trim line) of
        Inl e \<Rightarrow> Inl e
      | Inr f \<Rightarrow>
          if fr_version f \<noteq> PROTOCOL_VERSION
          then Inl (ParseError ''telemetry frame''
                 (''frame speaks protocol '' @ show_nat (unat (fr_version f)) @ '' but this build speaks '' @
                  show_nat (unat PROTOCOL_VERSION)))
          else Inr f)"

text \<open>The stages of \<open>block_to_frames\<close>, one per section, in the order of the code.\<close>

definition block_load :: "Block \<Rightarrow> flt \<times> flt \<times> flt" where
  "block_load b =
     (case block_section b ''loadavg'' of
        Some l \<Rightarrow> (case parse_loadavg l of Inr v \<Rightarrow> v | Inl _ \<Rightarrow> (Fin 0, Fin 0, Fin 0))
      | None \<Rightarrow> (Fin 0, Fin 0, Fin 0))"

definition cpu_stage :: "TelemetryState \<Rightarrow> Block \<Rightarrow> Frame list \<times> TelemetryState" where
  "cpu_stage s b =
     (case block_section b ''stat'' of
        None \<Rightarrow> ([], s)
      | Some stat_body \<Rightarrow>
          (case parse_stat stat_body of
             Inr stat \<Rightarrow>
               (case push_cpu s (blk_ts b) stat (block_load b) of
                  (Some sample, s') \<Rightarrow> ([frame (blk_ts b) (PCpu sample)], s')
                | (None, s') \<Rightarrow> ([], s'))
           | Inl e \<Rightarrow> ([error_frame (blk_ts b) ''cpu'' e], s)))"

definition memory_sample :: "MemInfo \<Rightarrow> flt option \<Rightarrow> MemorySample" where
  "memory_sample m psi =
     \<lparr>ms_total_bytes = mi_total m, ms_used_bytes = mi_used m, ms_available_bytes = mi_available m,
      ms_free_bytes = mi_free m, ms_cached_bytes = mi_cached m, ms_buffers_bytes = mi_buffers m,
      ms_swap_total_bytes = mi_swap_total m, ms_swap_used_bytes = mi_swap_used m, ms_pressure_some_avg60 = psi\<rparr>"

definition memory_stage :: "Block \<Rightarrow> Frame list" where
  "memory_stage b =
     (case block_section b ''meminfo'' of
        None \<Rightarrow> []
      | Some body \<Rightarrow>
          (case parse_meminfo body of
             Inr m \<Rightarrow>
               [frame (blk_ts b)
                  (PMemory (memory_sample m (Option.bind (block_section b ''pressure_mem'') parse_pressure_some_avg60)))]
           | Inl e \<Rightarrow> [error_frame (blk_ts b) ''memory'' e]))"

definition net_stage :: "TelemetryState \<Rightarrow> Block \<Rightarrow> Frame list \<times> TelemetryState" where
  "net_stage s b =
     (case block_section b ''netdev'' of
        None \<Rightarrow> ([], s)
      | Some body \<Rightarrow>
          (case parse_net_dev body of
             Inr counters \<Rightarrow>
               (case push_net s (blk_ts b) counters of
                  (Some sample, s') \<Rightarrow> ([frame (blk_ts b) (PNetwork sample)], s')
                | (None, s') \<Rightarrow> ([], s'))
           | Inl e \<Rightarrow> ([error_frame (blk_ts b) ''network'' e], s)))"

definition simple_stage :: "rstr \<Rightarrow> rstr \<Rightarrow> (rstr \<Rightarrow> 'a result) \<Rightarrow> ('a \<Rightarrow> Payload) \<Rightarrow> Block \<Rightarrow> Frame list" where
  "simple_stage sec collector parser payload b =
     (case block_section b sec of
        None \<Rightarrow> []
      | Some body \<Rightarrow>
          (case parser body of
             Inr v \<Rightarrow> [frame (blk_ts b) (payload v)]
           | Inl e \<Rightarrow> [error_frame (blk_ts b) collector e]))"

definition ps_stage :: "Block \<Rightarrow> Frame list" where
  "ps_stage b =
     simple_stage ''ps'' ''processes'' parse_ps
       (\<lambda>ps. PProcesses \<lparr>ps_processes = ps, ps_total = of_nat (length ps)\<rparr>) b"

definition services_stage :: "Block \<Rightarrow> Frame list" where
  "services_stage b = simple_stage ''services'' ''services'' parse_systemctl_units PServices b"

definition disk_payload :: "Block \<Rightarrow> FilesystemInfo list \<Rightarrow> Payload" where
  "disk_payload b fs =
     (let fs1 = (case block_section b ''mounts'' of Some mounts \<Rightarrow> merge_fs_types fs mounts | None \<Rightarrow> fs);
          fs2 = (case block_section b ''dfi'' of Some dfi \<Rightarrow> merge_inode_counts fs1 dfi | None \<Rightarrow> fs1)
      in PDisk (filter is_real_storage fs2))"

definition disk_stage :: "Block \<Rightarrow> Frame list" where
  "disk_stage b = simple_stage ''df'' ''disk'' parse_df (disk_payload b) b"

definition ports_stage :: "Block \<Rightarrow> Frame list" where
  "ports_stage b = simple_stage ''ss'' ''ports'' parse_ss PPorts b"

definition block_to_frames :: "TelemetryState \<Rightarrow> Block \<Rightarrow> Frame list \<times> TelemetryState" where
  "block_to_frames s b =
     (case cpu_stage s b of (cpu, s1) \<Rightarrow>
      case net_stage s1 b of (net, s2) \<Rightarrow>
        (cpu @ memory_stage b @ net @ ps_stage b @ services_stage b @ disk_stage b @ ports_stage b, s2))"

definition frames_from_block :: "Block \<Rightarrow> TelemetryState \<Rightarrow> Frame list \<times> TelemetryState" where
  "frames_from_block b s = block_to_frames s b"

section \<open>Capabilities of the host\<close>

definition hello_probes :: "(rstr \<times> rstr) list" where
  "hello_probes =
     [(''ss'', ''ss''), (''ip'', ''ip''), (''systemd'', ''systemctl''), (''journalctl'', ''journalctl''),
      (''docker'', ''docker''), (''nginx'', ''nginx''), (''ufw'', ''ufw''), (''iptables'', ''iptables''),
      (''nftables'', ''nft''), (''postgres'', ''psql''), (''mysql'', ''mysql''), (''redis'', ''redis-cli''),
      (''node'', ''node''), (''php'', ''php''), (''python'', ''python3'')]"

definition capabilities_from_hello :: "Emit \<Rightarrow> Capabilities" where
  "capabilities_from_hello e =
     (case e of
        Hello _ _ _ cmds \<Rightarrow>
          fold (\<lambda>(key, probe). caps_set key (probe \<in> set cmds)) hello_probes (caps_set ''proc'' True caps_new)
      | EmitBlock _ \<Rightarrow> caps_new)"

section \<open>Rows for the metric store\<close>

type_synonym metric_row = "rstr \<times> TimestampMs \<times> flt"

definition push_row :: "TimestampMs \<Rightarrow> rstr \<times> flt \<Rightarrow> metric_row list" where
  "push_row ts kv = (if is_finite (snd kv) then [(fst kv, ts, snd kv)] else [])"

definition f64_of :: "u64 \<Rightarrow> flt" where
  "f64_of w = of_unsigned F64 w"

definition cpu_rows :: "CpuSample \<Rightarrow> (rstr \<times> flt) list" where
  "cpu_rows c =
     [(''cpu.total'', flt_cast F64 (cs_total c)), (''cpu.user'', flt_cast F64 (cs_user c)),
      (''cpu.system'', flt_cast F64 (cs_system c)), (''cpu.iowait'', flt_cast F64 (cs_iowait c)),
      (''cpu.steal'', flt_cast F64 (cs_steal c)), (''load.1m'', flt_cast F64 (fst (cs_load c))),
      (''load.5m'', flt_cast F64 (fst (snd (cs_load c)))), (''load.15m'', flt_cast F64 (snd (snd (cs_load c))))]"

definition memory_rows :: "MemorySample \<Rightarrow> (rstr \<times> flt) list" where
  "memory_rows m =
     [(''mem.used_bytes'', f64_of (ms_used_bytes m))] @
     (if ms_total_bytes m > 0 then [(''mem.used_pct'', percent F64 (ms_used_bytes m) (ms_total_bytes m))] else []) @
     (if ms_swap_total_bytes m > 0
      then [(''mem.swap_used_pct'', percent F64 (ms_swap_used_bytes m) (ms_swap_total_bytes m))] else []) @
     (case ms_pressure_some_avg60 m of Some p \<Rightarrow> [(''mem.pressure_some_avg60'', flt_cast F64 p)] | None \<Rightarrow> [])"

definition interface_rows :: "NetworkInterface \<Rightarrow> (rstr \<times> flt) list" where
  "interface_rows i =
     [(''net.'' @ ni_name i @ ''.rx_bps'', f64_of (ni_rx_bytes_per_sec i)),
      (''net.'' @ ni_name i @ ''.tx_bps'', f64_of (ni_tx_bytes_per_sec i))]"

definition filesystem_rows :: "FilesystemInfo \<Rightarrow> (rstr \<times> flt) list" where
  "filesystem_rows f =
     (if fi_total_bytes f > 0
      then [(''disk.'' @ fi_mount_point f @ ''.used_pct'', percent F64 (fi_used_bytes f) (fi_total_bytes f))] else []) @
     [(''disk.'' @ fi_mount_point f @ ''.available_bytes'', f64_of (fi_available_bytes f))] @
     (if fi_inodes_total f > 0
      then [(''disk.'' @ fi_mount_point f @ ''.inodes_used_pct'', percent F64 (fi_inodes_used f) (fi_inodes_total f))] else [])"

definition payload_rows :: "Payload \<Rightarrow> (rstr \<times> flt) list" where
  "payload_rows p =
     (case p of
        PCpu c \<Rightarrow> cpu_rows c
      | PMemory m \<Rightarrow> memory_rows m
      | PNetwork ifs \<Rightarrow> concat (map interface_rows ifs)
      | PDisk fs \<Rightarrow> concat (map filesystem_rows fs)
      | _ \<Rightarrow> [])"

definition metric_rows :: "Frame \<Rightarrow> metric_row list" where
  "metric_rows f = concat (map (push_row (fr_ts f)) (payload_rows (fr_payload f)))"

section \<open>Which frames a block yields\<close>

definition frame_slot :: "Frame \<Rightarrow> rstr" where
  "frame_slot f = (case fr_payload f of PError c _ \<Rightarrow> c | p \<Rightarrow> payload_kind p)"

definition slot_section :: "(rstr \<times> rstr) list" where
  "slot_section =
     [(''cpu'', ''stat''), (''memory'', ''meminfo''), (''network'', ''netdev''), (''processes'', ''ps''),
      (''services'', ''services''), (''disk'', ''df''), (''ports'', ''ss'')]"

text \<open>A frame is due for a section that is there, except for a rate that two readings do not define.\<close>

definition due :: "TelemetryState \<Rightarrow> Block \<Rightarrow> rstr \<times> rstr \<Rightarrow> bool" where
  "due s b slot =
     (case block_section b (snd slot) of
        None \<Rightarrow> False
      | Some body \<Rightarrow>
          if fst slot = ''cpu'' then
            (case parse_stat body of
               Inl _ \<Rightarrow> True
             | Inr stat \<Rightarrow> (case last_cpu s of Some (_, prev) \<Rightarrow> ct_total (st_aggregate prev) < ct_total (st_aggregate stat) | None \<Rightarrow> False))
          else if fst slot = ''network'' then
            (case parse_net_dev body of Inl _ \<Rightarrow> True | Inr counters \<Rightarrow> fst (push_net s (blk_ts b) counters) \<noteq> None)
          else True)"

lemma frame_slot_frame [simp]:
  "frame_slot (frame ts (PCpu c)) = ''cpu''" "frame_slot (frame ts (PMemory m)) = ''memory''"
  "frame_slot (frame ts (PNetwork n)) = ''network''" "frame_slot (frame ts (PProcesses p)) = ''processes''"
  "frame_slot (frame ts (PServices v)) = ''services''" "frame_slot (frame ts (PDisk d)) = ''disk''"
  "frame_slot (frame ts (PPorts q)) = ''ports''" "frame_slot (error_frame ts col e) = col"
  by (simp_all add: frame_slot_def frame_def error_frame_def)

lemma frame_ts [simp]: "fr_ts (frame ts p) = ts" "fr_ts (error_frame ts c e) = ts" "fr_payload (frame ts p) = p"
  by (simp_all add: frame_def error_frame_def)

lemma push_cpu_None:
  "fst (push_cpu s ts stat load) = None \<longleftrightarrow>
     \<not> (case last_cpu s of Some (_, prev) \<Rightarrow> ct_total (st_aggregate prev) < ct_total (st_aggregate stat) | None \<Rightarrow> False)"
  by (auto simp: push_cpu_def cpu_sample_def diff_cpu_None not_less split: option.split)

lemma cpu_stage_slots: "map frame_slot (fst (cpu_stage s b)) = (if due s b (''cpu'', ''stat'') then [''cpu''] else [])"
proof (cases "block_section b ''stat''")
  case (Some body)
  show ?thesis
  proof (cases "parse_stat body")
    case (Inr stat)
    have "due s b (''cpu'', ''stat'') \<longleftrightarrow> fst (push_cpu s (blk_ts b) stat (block_load b)) \<noteq> None"
      using Some Inr by (simp add: due_def push_cpu_None)
    with Some Inr show ?thesis
      by (cases "push_cpu s (blk_ts b) stat (block_load b)") (auto simp: cpu_stage_def split: option.split)
  qed (simp add: Some cpu_stage_def due_def)
qed (simp add: cpu_stage_def due_def)

lemma cpu_stage_last_net: "last_net (snd (cpu_stage s b)) = last_net s"
  by (auto simp: cpu_stage_def push_cpu_def Let_def split: option.splits sum.splits prod.splits)

lemma net_stage_slots: "map frame_slot (fst (net_stage s b)) = (if due s b (''network'', ''netdev'') then [''network''] else [])"
  by (auto simp: net_stage_def due_def split: option.splits sum.splits prod.splits)

lemma net_due_last_net: "last_net s = last_net s' \<Longrightarrow> due s b (''network'', sec) = due s' b (''network'', sec)"
  by (simp add: due_def push_net_def split: option.splits sum.splits)

lemma simple_stage_slots:
  assumes "\<And>v. frame_slot (frame (blk_ts b) (payload v)) = c"
  shows "map frame_slot (simple_stage sec c parser payload b) = (if block_section b sec \<noteq> None then [c] else [])"
  using assms by (auto simp: simple_stage_def split: option.split sum.split)

lemma other_slots:
  "map frame_slot (memory_stage b) = (if due s b (''memory'', ''meminfo'') then [''memory''] else [])"
  "map frame_slot (ps_stage b) = (if due s b (''processes'', ''ps'') then [''processes''] else [])"
  "map frame_slot (services_stage b) = (if due s b (''services'', ''services'') then [''services''] else [])"
  "map frame_slot (disk_stage b) = (if due s b (''disk'', ''df'') then [''disk''] else [])"
  "map frame_slot (ports_stage b) = (if due s b (''ports'', ''ss'') then [''ports''] else [])"
  by (auto simp: memory_stage_def ps_stage_def services_stage_def disk_stage_def ports_stage_def disk_payload_def
      simple_stage_slots due_def Let_def split: option.split sum.split)

text \<open>The time and the slot of every frame of a stage.\<close>

definition stamped :: "Block \<Rightarrow> rstr \<Rightarrow> Frame \<Rightarrow> bool" where
  "stamped b slot f \<longleftrightarrow> fr_ts f = blk_ts b \<and> frame_slot f = slot"

lemma simple_stage_stamped:
  assumes "\<And>v. frame_slot (frame (blk_ts b) (payload v)) = c"
  shows "list_all (stamped b c) (simple_stage sec c parser payload b)"
  using assms by (simp add: simple_stage_def stamped_def split: option.split sum.split)

lemma stages_stamped:
  "list_all (stamped b ''cpu'') (fst (cpu_stage s b))" "list_all (stamped b ''network'') (fst (net_stage s b))"
  "list_all (stamped b ''memory'') (memory_stage b)" "list_all (stamped b ''processes'') (ps_stage b)"
  "list_all (stamped b ''services'') (services_stage b)" "list_all (stamped b ''disk'') (disk_stage b)"
  "list_all (stamped b ''ports'') (ports_stage b)"
  by (simp_all add: cpu_stage_def net_stage_def memory_stage_def ps_stage_def services_stage_def disk_stage_def
      ports_stage_def disk_payload_def Let_def simple_stage_stamped)
    (simp_all add: stamped_def split: option.split sum.split prod.split)

lemmas stage_stamp = stages_stamped [unfolded list_all_iff, rule_format]

lemma in_block_to_frames:
  "f \<in> set (fst (block_to_frames s b)) \<longleftrightarrow>
     f \<in> set (fst (cpu_stage s b)) \<or> f \<in> set (memory_stage b) \<or> f \<in> set (fst (net_stage (snd (cpu_stage s b)) b)) \<or>
     f \<in> set (ps_stage b) \<or> f \<in> set (services_stage b) \<or> f \<in> set (disk_stage b) \<or> f \<in> set (ports_stage b)"
  by (auto simp: block_to_frames_def split: prod.split)

text \<open>The frames of a block come in the fixed order CPU, memory, network, processes, services, disk, ports,
  at most one each and all with the time of the block; a section the block does not carry yields none, and a
  section it carries is never dropped silently: it yields its sample or an error frame that names the
  collector, except a rate for which there is no earlier reading to compare with.\<close>

theorem frames_of_block:
  "map frame_slot (fst (block_to_frames s b)) = map fst (filter (due s b) slot_section) \<and>
   list_all (\<lambda>f. fr_ts f = blk_ts b) (fst (block_to_frames s b))"
proof
  have "map frame_slot (fst (block_to_frames s b)) =
      map frame_slot (fst (cpu_stage s b)) @ map frame_slot (memory_stage b) @
      map frame_slot (fst (net_stage (snd (cpu_stage s b)) b)) @ map frame_slot (ps_stage b) @
      map frame_slot (services_stage b) @ map frame_slot (disk_stage b) @ map frame_slot (ports_stage b)"
    by (simp add: block_to_frames_def split: prod.split)
  also have "\<dots> = map fst (filter (due s b) slot_section)"
    using net_due_last_net [OF cpu_stage_last_net [of s b], of b "''netdev''"]
    by (simp add: cpu_stage_slots net_stage_slots other_slots [of b s] slot_section_def)
  finally show "map frame_slot (fst (block_to_frames s b)) = map fst (filter (due s b) slot_section)" .
  show "list_all (\<lambda>f. fr_ts f = blk_ts b) (fst (block_to_frames s b))"
    using stage_stamp unfolding list_all_iff Ball_def in_block_to_frames stamped_def by blast
qed

section \<open>What the frames say\<close>

lemma simple_stage_payload:
  "f \<in> set (simple_stage sec c parser payload b) \<Longrightarrow>
     (\<exists>body v. block_section b sec = Some body \<and> parser body = Inr v \<and> fr_payload f = payload v) \<or>
     (\<exists>body e. block_section b sec = Some body \<and> parser body = Inl e \<and> fr_payload f = PError c (display_error e))"
  by (cases "block_section b sec"; cases "parser (the (block_section b sec))")
    (auto simp: simple_stage_def error_frame_def)

lemma slot_stage:
  assumes "f \<in> set (fst (block_to_frames s b))"
  shows "frame_slot f = ''memory'' \<Longrightarrow> f \<in> set (memory_stage b)"
    and "frame_slot f = ''processes'' \<Longrightarrow> f \<in> set (ps_stage b)"
    and "frame_slot f = ''disk'' \<Longrightarrow> f \<in> set (disk_stage b)"
    and "frame_slot f = ''ports'' \<Longrightarrow> f \<in> set (ports_stage b)"
  using assms unfolding in_block_to_frames by (auto dest!: stage_stamp simp: stamped_def)

definition redacted_command :: "ProcessInfo \<Rightarrow> bool" where
  "redacted_command p \<longleftrightarrow> (\<exists>raw. pr_command p = redact raw)"

definition frame_ok :: "Frame \<Rightarrow> bool" where
  "frame_ok f =
     (case fr_payload f of
        PMemory m \<Rightarrow> ms_used_bytes m \<le> ms_total_bytes m \<and> ms_swap_used_bytes m \<le> ms_swap_total_bytes m \<and>
                     percentage (utilisation_pct m) \<and> percentage (swap_pct m)
      | PProcesses p \<Rightarrow> ps_total p = of_nat (length (ps_processes p)) \<and> list_all redacted_command (ps_processes p)
      | PDisk fs \<Rightarrow> list_all is_real_storage fs
      | PPorts ps \<Rightarrow> list_all (\<lambda>p. pi_exposure p = from_bind_address (pi_address p)) ps
      | _ \<Rightarrow> True)"

lemma frame_ok_error [simp]: "frame_ok (error_frame ts c e)"
  by (simp add: frame_ok_def error_frame_def)

lemma simple_stage_ok:
  assumes "\<And>body v. parser body = Inr v \<Longrightarrow> frame_ok (frame (blk_ts b) (payload v))"
  shows "list_all frame_ok (simple_stage sec c parser payload b)"
  using assms by (simp add: simple_stage_def split: option.split sum.split)

lemma list_all_map_filter: "(\<And>x y. f x = Some y \<Longrightarrow> P y) \<Longrightarrow> list_all P (List.map_filter f xs)"
  by (induction xs) (auto simp: map_filter_simps split: option.split)

lemma ps_row_redacted: "ps_row l = Some p \<Longrightarrow> redacted_command p"
  by (auto simp: ps_row_def redacted_command_def Let_def split: if_splits option.splits)

lemma ss_row_exposure: "ss_row l = Some p \<Longrightarrow> pi_exposure p = from_bind_address (pi_address p)"
  by (auto simp: ss_row_def Let_def split: if_splits option.splits prod.splits)

lemma percentage_cast: "a \<le> b \<Longrightarrow> b \<noteq> 0 \<Longrightarrow> percentage (flt_cast F32 (percent F64 a b))"
  using cast_percent_bounds [of a b] by (auto simp: percentage_def)

lemma memory_sample_ok: "frame_ok (frame ts (PMemory (memory_sample m psi)))"
proof -
  have "percentage (utilisation_pct x)" for x
    using percentage_cast [of _ "ms_total_bytes x"] saturating_sub_u64_le [of "ms_total_bytes x"]
    by (auto simp: utilisation_pct_def percentage_def)
  moreover have "percentage (swap_pct (memory_sample m psi))"
    using percentage_cast [of _ "mi_swap_total m"] saturating_sub_u64_le [of "mi_swap_total m"]
    by (auto simp: swap_pct_def memory_sample_def mi_swap_used_def percentage_def)
  ultimately show ?thesis
    by (simp add: frame_ok_def memory_sample_def mi_used_def mi_swap_used_def saturating_sub_u64_le)
qed

lemma stages_ok:
  "list_all frame_ok (memory_stage b)" "list_all frame_ok (ps_stage b)" "list_all frame_ok (services_stage b)"
  "list_all frame_ok (disk_stage b)" "list_all frame_ok (ports_stage b)"
  "list_all frame_ok (fst (cpu_stage s b))" "list_all frame_ok (fst (net_stage s b))"
proof -
  show "list_all frame_ok (ps_stage b)" unfolding ps_stage_def
    by (rule simple_stage_ok) (auto simp: parse_ps_def frame_ok_def intro: list_all_map_filter ps_row_redacted)
  show "list_all frame_ok (services_stage b)" unfolding services_stage_def
    by (rule simple_stage_ok) (simp add: frame_ok_def)
  show "list_all frame_ok (disk_stage b)" unfolding disk_stage_def
    by (rule simple_stage_ok) (simp add: frame_ok_def disk_payload_def Let_def list_all_iff)
  show "list_all frame_ok (ports_stage b)" unfolding ports_stage_def
    by (rule simple_stage_ok) (auto simp: parse_ss_def frame_ok_def intro: list_all_map_filter ss_row_exposure)
  show "list_all frame_ok (memory_stage b)"
    by (simp add: memory_stage_def memory_sample_ok split: option.split sum.split)
  show "list_all frame_ok (fst (cpu_stage s b))" "list_all frame_ok (fst (net_stage s b))"
    by (simp_all add: cpu_stage_def net_stage_def frame_ok_def error_frame_def split: option.split sum.split prod.split)
qed


section \<open>What is stored\<close>

definition row_ok :: "TimestampMs \<Rightarrow> metric_row \<Rightarrow> bool" where
  "row_ok ts row =
     (case row of (key, t, v) \<Rightarrow>
        t = ts \<and> is_finite v \<and> (key = ''mem.used_pct'' \<or> key = ''mem.swap_used_pct'' \<longrightarrow> percentage v))"

definition kv_ok :: "rstr \<times> flt \<Rightarrow> bool" where
  "kv_ok kv \<longleftrightarrow> (fst kv = ''mem.used_pct'' \<or> fst kv = ''mem.swap_used_pct'' \<longrightarrow> percentage (snd kv))"

lemma metric_rows_ok: "list_all kv_ok (payload_rows (fr_payload f)) \<Longrightarrow> list_all (row_ok (fr_ts f)) (metric_rows f)"
  unfolding metric_rows_def by (induction "payload_rows (fr_payload f)" rule: list.induct) (auto simp: push_row_def row_ok_def kv_ok_def list_all_iff)

lemma payload_rows_ok: "frame_ok f \<Longrightarrow> list_all kv_ok (payload_rows (fr_payload f))"
proof (cases "fr_payload f")
  case (PMemory m)
  assume "frame_ok f"
  with PMemory have "ms_used_bytes m \<le> ms_total_bytes m" "ms_swap_used_bytes m \<le> ms_swap_total_bytes m"
    by (simp_all add: frame_ok_def)
  with PMemory percentage_percent show ?thesis
    by (auto simp: payload_rows_def memory_rows_def kv_ok_def word_gt_0 split: option.split)
qed (auto simp: payload_rows_def cpu_rows_def interface_rows_def filesystem_rows_def kv_ok_def list_all_iff)

text \<open>Every row a block adds to the metric store carries the time of the block and a finite value, and the
  stored memory and swap percentages lie between 0 and 100; infinities and NaN never reach the store.\<close>

theorem rows_of_block:
  "list_all (row_ok (blk_ts b)) (concat (map metric_rows (fst (block_to_frames s b))))"
proof -
  have "list_all (row_ok (blk_ts b)) (metric_rows f)" if "f \<in> set (fst (block_to_frames s b))" for f
  proof -
    have "frame_ok f"
      using that stages_ok [unfolded list_all_iff, rule_format] unfolding in_block_to_frames by blast
    from metric_rows_ok [OF payload_rows_ok [OF this]] show ?thesis
      using that stage_stamp unfolding in_block_to_frames stamped_def by metis
  qed
  then show ?thesis by (auto simp: list_all_iff)
qed

section \<open>The greeting\<close>

lemma split_words_spaced:
  "list_all is_word cmds \<Longrightarrow> split_ascii_whitespace (concat (map (\<lambda>c. SP # c) cmds)) = cmds"
proof (induction cmds)
  case (Cons c cmds)
  show ?case
  proof (cases cmds)
    case Nil
    then show ?thesis using Cons by (simp add: is_ascii_whitespace_def)
  next
    case (Cons d ds)
    with Cons.IH Cons.prems split_words_Cons [of c SP "d @ concat (map (\<lambda>c. SP # c) ds)"] show ?thesis
      by (simp add: is_ascii_whitespace_def)
  qed
qed simp

lemma bars_no_bar: "list_all is_name cmds \<Longrightarrow> CHR ''|'' \<notin> set (concat (map (\<lambda>c. SP # c) cmds))"
  using name_no_bar by (auto simp: list_all_iff)

lemma read_hello_line:
  assumes "is_name node" "is_name release" "is_name arch" "list_all is_name cmds"
  shows "read_hello (''HELLO '' @ node @ ''|'' @ release @ ''|'' @ arch @ ''|'' @ concat (map (\<lambda>c. SP # c) cmds)) =
    Inr (Hello node release arch cmds)"
proof -
  let ?cmds = "concat (map (\<lambda>c. SP # c) cmds)"
  let ?payload = "node @ ''|'' @ release @ ''|'' @ arch @ ''|'' @ ?cmds"
  obtain a t where a: "node = a # t" "printable a" using is_name_ends [OF assms(1)] by metis
  have "\<exists>u z. ?payload = u @ [z] \<and> 33 \<le> byte z \<and> byte z < 127"
  proof (cases cmds rule: rev_cases)
    case Nil
    then show ?thesis
      by (intro exI [of _ "node @ ''|'' @ release @ ''|'' @ arch"] exI [of _ "CHR ''|''"]) (simp add: byte_def)
  next
    case (snoc ds d)
    with assms(4) have "is_name d" by simp
    then obtain u z where "d = u @ [z]" "printable z" using is_name_ends by metis
    then show ?thesis
      using snoc by (intro exI [of _ "node @ ''|'' @ release @ ''|'' @ arch @ ''|'' @ concat (map (\<lambda>c. SP # c) ds) @ SP # u"] exI [of _ z])
        (simp add: printable_def)
  qed
  then obtain u z where z: "?payload = u @ [z]" "33 \<le> byte z" "byte z < 127" by blast
  obtain rest where rest: "?payload = a # rest" using a by simp
  have trim: "trim (CHR '' '' # ?payload) = ?payload"
    by (rule trim_bounded(2) [OF _ _ z(2,3) rest z(1)]) (use a(2) in \<open>simp_all add: printable_def\<close>)
  have split: "split_on CHR ''|'' ?payload = [node, release, arch, ?cmds]"
    using assms name_no_bar bars_no_bar by (simp add: split_on_append split_on_single)
  have words: "split_ascii_whitespace ?cmds = cmds"
    using assms(4) is_name_word by (intro split_words_spaced) (auto simp: list_all_iff)
  have strip: "strip_prefix ''HELLO'' (''HELLO '' @ ?payload) = Some (CHR '' '' # ?payload)"
    by (simp add: strip_prefix_def)
  show ?thesis
    unfolding read_hello_def strip option.case Let_def trim split using words assms(1-3) by (simp add: trim_name)
qed

text \<open>The greeting of the script reaches the application unharmed: the reader recovers the host name, the
  kernel, the architecture and the list of commands from it, and the capability map then says of every
  probed program exactly whether the host listed it, and that /proc is there.\<close>

theorem hello_capabilities:
  assumes "is_name node" "is_name release" "is_name arch" "list_all is_name cmds"
  shows "push_line r (hello_line node release arch cmds) = (Inr (Some (Hello node release arch cmds)), r) \<and>
    list_all (\<lambda>(key, probe). caps_has (capabilities_from_hello (Hello node release arch cmds)) key = (probe \<in> set cmds)) hello_probes \<and>
    caps_has (capabilities_from_hello (Hello node release arch cmds)) ''proc''"
proof (intro conjI)
  let ?rest = "''HELLO '' @ node @ ''|'' @ release @ ''|'' @ arch @ ''|'' @ concat (map (\<lambda>c. SP # c) cmds)"
  have line: "hello_line node release arch cmds = ''%%KYVON/1'' @ CHR '' '' # ?rest" by (simp add: hello_line_def)
  have "split_ascii_whitespace ?rest = ''HELLO'' # split_ascii_whitespace (drop 6 ?rest)"
    using split_words_Cons [OF verb_words(4), of SP "drop 6 ?rest"] by (simp add: is_ascii_whitespace_def)
  then show "push_line r (hello_line node release arch cmds) = (Inr (Some (Hello node release arch cmds)), r)"
    unfolding push_line_def line marker_line option.case Let_def read_hello_line [OF assms] by simp
  have caps: "map_of (capabilities_from_hello (Hello node release arch cmds)) key =
      (case map_of (rev hello_probes) key of Some probe \<Rightarrow> Some (probe \<in> set cmds)
       | None \<Rightarrow> map_of (caps_set ''proc'' True caps_new) key)" for key
    by (simp add: capabilities_from_hello_def caps_fold)
  show "list_all (\<lambda>(key, probe). caps_has (capabilities_from_hello (Hello node release arch cmds)) key = (probe \<in> set cmds)) hello_probes"
    unfolding caps_has_def caps by (simp add: hello_probes_def)
  show "caps_has (capabilities_from_hello (Hello node release arch cmds)) ''proc''"
    unfolding caps_has_def caps by (simp add: hello_probes_def caps_set_def caps_new_def)
qed

theorem hello_capabilities_witness:
  "push_line reader_new (hello_line ''web-01'' ''6.8'' ''x86_64'' [''ss'', ''docker'']) =
     (Inr (Some (Hello ''web-01'' ''6.8'' ''x86_64'' [''ss'', ''docker''])), reader_new)"
  using hello_capabilities [of "''web-01''" "''6.8''" "''x86_64''" "[''ss'', ''docker'']" reader_new]
  by (simp add: is_name_def printable_def byte_def)

end
