(* ===== verification/Ssh_Session.thy ===== *)
theory Ssh_Session
  imports Redact
begin

text \<open>
  crates/kyvon-ssh/src/session.rs: collecting the output of a command and streaming it line by line.
  The messages of a channel are a list; the transport itself (russh, tokio) is not modelled.
\<close>

section \<open>Lossy decoding\<close>

text \<open>
  \<open>String::from_utf8_lossy\<close>: the longest valid or truncated UTF-8 sequence at the start of the bytes, and
  whether it is valid; an invalid one becomes U+FFFD.
\<close>

definition cont_byte :: "char \<Rightarrow> bool" where
  "cont_byte c \<longleftrightarrow> 0x80 \<le> byte c \<and> byte c \<le> 0xBF"

definition second_ok :: "char \<Rightarrow> char \<Rightarrow> bool" where
  "second_ok b c \<longleftrightarrow>
     (if byte b = 0xE0 then 0xA0 \<le> byte c \<and> byte c \<le> 0xBF
      else if byte b = 0xED then 0x80 \<le> byte c \<and> byte c \<le> 0x9F
      else if byte b = 0xF0 then 0x90 \<le> byte c \<and> byte c \<le> 0xBF
      else if byte b = 0xF4 then 0x80 \<le> byte c \<and> byte c \<le> 0x8F
      else cont_byte c)"

text \<open>How many continuation bytes a lead byte announces; none for a byte that cannot lead.\<close>

definition announced :: "char \<Rightarrow> nat" where
  "announced b = (if 0xC2 \<le> byte b \<and> byte b \<le> 0xDF then 1
                  else if 0xE0 \<le> byte b \<and> byte b \<le> 0xEF then 2
                  else if 0xF0 \<le> byte b \<and> byte b \<le> 0xF4 then 3 else 0)"

definition follow :: "char \<Rightarrow> rstr \<Rightarrow> nat" where
  "follow b s =
     (case s of [] \<Rightarrow> 0
      | c # s' \<Rightarrow> if announced b = 0 \<or> \<not> second_ok b c then 0
                  else 1 + length (takeWhile cont_byte (take (announced b - 1) s')))"

function from_utf8_lossy :: "rstr \<Rightarrow> rstr" where
  "from_utf8_lossy [] = []"
| "from_utf8_lossy (b # s) =
     (if byte b < 0x80 then b # from_utf8_lossy s
      else (let n = follow b s in
            (if announced b > 0 \<and> n = announced b then b # take n s else [CHR 0xEF, CHR 0xBF, CHR 0xBD]) @
            from_utf8_lossy (drop n s)))"
  by pat_completeness auto
termination
  by (relation "measure length") (auto simp: less_Suc_eq_le)

section \<open>Command output\<close>

definition MAX_EXEC_OUTPUT :: nat where
  "MAX_EXEC_OUTPUT = 4 * 1024 * 1024"

record CommandOutput =
  co_stdout :: rstr
  co_stderr :: rstr
  co_exit_status :: "u32 option"

definition success :: "CommandOutput \<Rightarrow> bool" where
  "success out \<longleftrightarrow> co_exit_status out = Some 0"

definition require_success :: "CommandOutput \<Rightarrow> rstr result" where
  "require_success out =
     (if success out then Inr (co_stdout out)
      else Inl (RemoteCommand (case co_exit_status out of Some s \<Rightarrow> s | None \<Rightarrow> 255) (redact (trim (co_stderr out)))))"

definition append_capped :: "rstr \<Rightarrow> rstr \<Rightarrow> bool \<Rightarrow> rstr \<times> bool" where
  "append_capped buf data truncated =
     (if length buf \<ge> MAX_EXEC_OUTPUT then (buf, True)
      else (let room = MAX_EXEC_OUTPUT - length buf in
            if length data > room then (buf @ take room data, True) else (buf @ data, truncated)))"

datatype ChannelMsg = Data rstr | ExtendedData rstr u32 | ExitStatus u32 | Eof | Close | OtherMsg

record exec_state =
  ex_stdout :: rstr
  ex_stderr :: rstr
  ex_exit :: "u32 option"
  ex_truncated :: bool

fun exec_loop :: "ChannelMsg list \<Rightarrow> exec_state \<Rightarrow> exec_state" where
  "exec_loop [] st = st"
| "exec_loop (Data d # ms) st =
     (case append_capped (ex_stdout st) d (ex_truncated st) of (b, t) \<Rightarrow>
        exec_loop ms (st\<lparr>ex_stdout := b, ex_truncated := t\<rparr>))"
| "exec_loop (ExtendedData d ext # ms) st =
     (if ext = 1 then
        (case append_capped (ex_stderr st) d (ex_truncated st) of (b, t) \<Rightarrow>
           exec_loop ms (st\<lparr>ex_stderr := b, ex_truncated := t\<rparr>))
      else exec_loop ms st)"
| "exec_loop (ExitStatus s # ms) st = exec_loop ms (st\<lparr>ex_exit := Some s\<rparr>)"
| "exec_loop (Eof # ms) st = st"
| "exec_loop (Close # ms) st = st"
| "exec_loop (OtherMsg # ms) st = exec_loop ms st"

definition exec_start :: exec_state where
  "exec_start = \<lparr>ex_stdout = [], ex_stderr = [], ex_exit = None, ex_truncated = False\<rparr>"

definition TRUNCATION_NOTICE :: rstr where
  "TRUNCATION_NOTICE =
     [NL] @ ''[output truncated by KyvonOPS at 4 MB; narrow the command or use the log viewer]'' @ [NL]"

definition exec_output :: "ChannelMsg list \<Rightarrow> CommandOutput" where
  "exec_output ms =
     (let st = exec_loop ms exec_start;
          stdout = (if ex_truncated st then ex_stdout st @ TRUNCATION_NOTICE else ex_stdout st)
      in \<lparr>co_stdout = from_utf8_lossy stdout, co_stderr = from_utf8_lossy (ex_stderr st), co_exit_status = ex_exit st\<rparr>)"

section \<open>Streaming by lines\<close>

datatype StreamItem = Line rstr | Exited "u32 option"

definition MAX_LINE :: nat where
  "MAX_LINE = 1024 * 1024"

definition is_eol :: "char \<Rightarrow> bool" where
  "is_eol c \<longleftrightarrow> c = NL \<or> c = CR"

definition line_text :: "rstr \<Rightarrow> rstr" where
  "line_text line = rev (dropWhile is_eol (rev (from_utf8_lossy line)))"

text \<open>The inner loop: whole lines are taken off the front of the buffer, each with its newline.\<close>

function drain_lines :: "rstr \<Rightarrow> StreamItem list \<times> rstr" where
  "drain_lines buffer =
     (case find_char NL buffer of
        None \<Rightarrow> ([], buffer)
      | Some nl \<Rightarrow>
          (case drain_lines (drop (nl + 1) buffer) of (items, rest) \<Rightarrow>
             (Line (line_text (take (nl + 1) buffer)) # items, rest)))"
  by pat_completeness auto
termination
  by (relation "measure length") (auto dest!: find_char_Some)

declare drain_lines.simps [simp del]

definition stream_chunk :: "rstr \<Rightarrow> rstr \<Rightarrow> StreamItem list \<times> rstr" where
  "stream_chunk buffer data =
     (case drain_lines (buffer @ data) of (items, rest) \<Rightarrow>
        (items, if length rest > MAX_LINE then [] else rest))"

fun stream_loop :: "rstr \<Rightarrow> ChannelMsg list \<Rightarrow> StreamItem list" where
  "stream_loop buffer [] = [Exited None]"
| "stream_loop buffer (Data d # ms) = (case stream_chunk buffer d of (items, b) \<Rightarrow> items @ stream_loop b ms)"
| "stream_loop buffer (ExtendedData d ext # ms) = (case stream_chunk buffer d of (items, b) \<Rightarrow> items @ stream_loop b ms)"
| "stream_loop buffer (ExitStatus s # ms) = Exited (Some s) # stream_loop buffer ms"
| "stream_loop buffer (Eof # ms) = [Exited None]"
| "stream_loop buffer (Close # ms) = [Exited None]"
| "stream_loop buffer (OtherMsg # ms) = stream_loop buffer ms"

section \<open>Draining is splitting\<close>

lemma split_on_resume: "split_on c (a @ b) = butlast (split_on c a) @ split_on c (last (split_on c a) @ b)"
proof (induction a)
  case (Cons x a)
  obtain w ws where w: "split_on c a = w # ws" by (cases "split_on c a") auto
  show ?case
  proof (cases "ws = []")
    case True
    with Cons w show ?thesis by auto
  next
    case False
    with Cons w show ?thesis by auto
  qed
qed simp

lemma split_on_prefix: "c \<notin> set r \<Longrightarrow> split_on c (r @ t) = (r @ hd (split_on c t)) # tl (split_on c t)"
proof (induction r)
  case Nil
  then show ?case by simp
next
  case (Cons x r)
  then show ?case by auto
qed

definition emitted :: "rstr list \<Rightarrow> StreamItem list" where
  "emitted pieces = map (\<lambda>p. Line (line_text (p @ [NL]))) pieces"

lemma drain_lines_split: "drain_lines s = (emitted (butlast (split_on NL s)), last (split_on NL s))"
proof (induction s rule: drain_lines.induct)
  case (1 s)
  show ?case
  proof (cases "find_char NL s")
    case None
    then have "split_on NL s = [s]" by (simp add: find_char_None split_on_single)
    with None show ?thesis by (simp add: drain_lines.simps [of s] emitted_def)
  next
    case (Some nl)
    from find_char_Some [OF this] have nl: "nl < length s" "s ! nl = NL" "NL \<notin> set (take nl s)" by auto
    then have s: "s = take nl s @ NL # drop (nl + 1) s" using id_take_nth_drop [of nl s] by simp
    have split: "split_on NL s = take nl s # split_on NL (drop (nl + 1) s)"
      by (subst s) (rule split_on_append [OF nl(3)])
    have "take (nl + 1) s = take nl s @ [NL]" using nl by (simp add: take_Suc_conv_app_nth)
    then show ?thesis
      using Some 1 [OF Some] split by (simp add: drain_lines.simps [of s] emitted_def)
  qed
qed

lemma last_split_no_sep: "c \<notin> set (last (split_on c s))"
  using split_on_no_sep [of "last (split_on c s)" c s] by simp

lemma stream_data:
  assumes "NL \<notin> set b" and "list_all (\<lambda>p. length p \<le> MAX_LINE) (split_on NL (b @ concat cs))"
  shows "stream_loop b (map Data cs @ ms) =
    emitted (butlast (split_on NL (b @ concat cs))) @ stream_loop (last (split_on NL (b @ concat cs))) ms"
  using assms
proof (induction cs arbitrary: b)
  case Nil
  then show ?case by (simp add: split_on_single emitted_def)
next
  case (Cons d cs)
  let ?r = "last (split_on NL (b @ d))"
  have r: "NL \<notin> set ?r" by (rule last_split_no_sep)
  have split: "split_on NL (b @ concat (d # cs)) = butlast (split_on NL (b @ d)) @ split_on NL (?r @ concat cs)"
    using split_on_resume [of NL "b @ d" "concat cs"] by simp
  have bound: "list_all (\<lambda>p. length p \<le> MAX_LINE) (split_on NL (?r @ concat cs))"
    using Cons.prems(2) unfolding split by simp
  then have "length ?r \<le> MAX_LINE" unfolding split_on_prefix [OF r] by simp
  then have chunk: "stream_chunk b d = (emitted (butlast (split_on NL (b @ d))), ?r)"
    by (simp add: stream_chunk_def drain_lines_split)
  show ?case
    unfolding split using Cons.IH [OF r bound] chunk
    by (simp add: butlast_append emitted_def)
qed

lemma length_split_on: "length (split_on c s) = Suc (count_list s c)"
  by (induction s) (auto split: list.splits)

lemma stream_loop_last: "stream_loop b ms \<noteq> [] \<and> last (stream_loop b ms) = Exited None"
  by (induction b ms rule: stream_loop.induct) (auto split: prod.splits)

text \<open>C35. The reading loops end: one chunk of a stream takes one round for each newline in the buffer and leaves none behind,
  what is kept for the next chunk never exceeds a megabyte however long the lines are, and the task that
  reads a stream ends, whatever was received, by reporting the end of the stream.\<close>

theorem stream_rounds_bounded:
  "length (fst (drain_lines buffer)) = count_list buffer NL \<and> NL \<notin> set (snd (drain_lines buffer)) \<and>
   length (snd (stream_chunk buffer data)) \<le> MAX_LINE \<and>
   last (stream_loop buffer ms) = Exited None"
  using length_split_on [of NL buffer] last_split_no_sep [of NL buffer] stream_loop_last [of buffer ms]
  by (auto simp: drain_lines_split emitted_def stream_chunk_def split: prod.splits)

section \<open>Collected output\<close>

fun stdout_data :: "ChannelMsg list \<Rightarrow> rstr" where
  "stdout_data (Data d # ms) = d @ stdout_data ms"
| "stdout_data (Eof # ms) = []"
| "stdout_data (Close # ms) = []"
| "stdout_data (m # ms) = stdout_data ms"
| "stdout_data [] = []"

fun stderr_data :: "ChannelMsg list \<Rightarrow> rstr" where
  "stderr_data (ExtendedData d ext # ms) = (if ext = 1 then d @ stderr_data ms else stderr_data ms)"
| "stderr_data (Eof # ms) = []"
| "stderr_data (Close # ms) = []"
| "stderr_data (m # ms) = stderr_data ms"
| "stderr_data [] = []"

lemma append_capped_take:
  assumes "b = take MAX_EXEC_OUTPUT x"
  shows "fst (append_capped b d t) = take MAX_EXEC_OUTPUT (x @ d)"
proof (cases "length x \<ge> MAX_EXEC_OUTPUT")
  case True
  then show ?thesis using assms by (simp add: append_capped_def)
next
  case False
  then show ?thesis using assms by (simp add: append_capped_def Let_def)
qed

lemma append_capped_flag:
  "b = take MAX_EXEC_OUTPUT x \<Longrightarrow> (length x > MAX_EXEC_OUTPUT \<Longrightarrow> t) \<Longrightarrow> length (x @ d) > MAX_EXEC_OUTPUT \<Longrightarrow>
     snd (append_capped b d t)"
  by (auto simp: append_capped_def Let_def min_def split: if_splits)

lemma append_capped_keeps: "t \<Longrightarrow> snd (append_capped b d t)"
  by (simp add: append_capped_def Let_def)

definition collected :: "rstr \<Rightarrow> rstr \<Rightarrow> exec_state \<Rightarrow> bool" where
  "collected x y st \<longleftrightarrow>
     ex_stdout st = take MAX_EXEC_OUTPUT x \<and> ex_stderr st = take MAX_EXEC_OUTPUT y \<and>
     (length x > MAX_EXEC_OUTPUT \<or> length y > MAX_EXEC_OUTPUT \<longrightarrow> ex_truncated st)"

lemma collected_stdout:
  "collected x y st \<Longrightarrow> append_capped (ex_stdout st) d (ex_truncated st) = (b, t) \<Longrightarrow>
     collected (x @ d) y (st\<lparr>ex_stdout := b, ex_truncated := t\<rparr>)"
  using append_capped_take [of "ex_stdout st" x d "ex_truncated st"]
    append_capped_flag [of "ex_stdout st" x "ex_truncated st" d] append_capped_keeps [of "ex_truncated st" "ex_stdout st" d]
  by (auto simp: collected_def)

lemma collected_stderr:
  "collected x y st \<Longrightarrow> append_capped (ex_stderr st) d (ex_truncated st) = (b, t) \<Longrightarrow>
     collected x (y @ d) (st\<lparr>ex_stderr := b, ex_truncated := t\<rparr>)"
  using append_capped_take [of "ex_stderr st" y d "ex_truncated st"]
    append_capped_flag [of "ex_stderr st" y "ex_truncated st" d] append_capped_keeps [of "ex_truncated st" "ex_stderr st" d]
  by (auto simp: collected_def)

lemma exec_loop_collected: "collected x y st \<Longrightarrow> collected (x @ stdout_data ms) (y @ stderr_data ms) (exec_loop ms st)"
proof (induction ms st arbitrary: x y rule: exec_loop.induct)
  case (2 d ms st)
  obtain b t where a: "append_capped (ex_stdout st) d (ex_truncated st) = (b, t)" by fastforce
  from 2(1) [OF a [symmetric] collected_stdout [OF 2(2) a]] show ?case by (simp add: a)
next
  case (3 d ext ms st)
  obtain b t where a: "append_capped (ex_stderr st) d (ex_truncated st) = (b, t)" by fastforce
  show ?case
  proof (cases "ext = 1")
    case True
    from 3(1) [OF True a [symmetric] collected_stderr [OF 3(3) a]] show ?thesis by (simp add: a True)
  next
    case False
    from 3(2) [OF False 3(3)] show ?thesis by (simp add: False)
  qed
next
  case (4 s ms st)
  have "collected x y (st\<lparr>ex_exit := Some s\<rparr>)" using 4(2) by (simp add: collected_def)
  from 4(1) [OF this] show ?case by simp
qed simp_all

section \<open>Properties\<close>

text \<open>Streaming does not depend on how the transport cuts the bytes: whatever the packets, as long as no line exceeds one megabyte, exactly the complete lines of the concatenated data are delivered, in order, and the unfinished rest is kept for what follows.\<close>

theorem stream_segmentation:
  assumes "list_all (\<lambda>p. length p \<le> MAX_LINE) (split_on NL (concat cs))"
  shows "stream_loop [] (map Data cs @ ms) =
    map (\<lambda>p. Line (line_text (p @ [NL]))) (butlast (split_on NL (concat cs))) @
    stream_loop (last (split_on NL (concat cs))) ms"
  using stream_data [of "[]" cs ms] assms by (simp add: emitted_def)

theorem stream_segmentation_witness:
  "stream_loop [] (map Data [''fra'', ''me'' @ [CR], [NL] @ ''rest''] @ [ExitStatus 0, Eof]) =
     [Line ''frame'', Exited (Some 0), Exited None]"
proof -
  have "list_all (\<lambda>p. length p \<le> MAX_LINE) (split_on NL (concat [''fra'', ''me'' @ [CR], [NL] @ ''rest'']))"
    by (simp add: MAX_LINE_def)
  moreover have "line_text (''frame'' @ [CR] @ [NL]) = ''frame''" by code_simp
  ultimately show ?thesis
    using stream_segmentation [of "[''fra'', ''me'' @ [CR], [NL] @ ''rest'']" "[ExitStatus 0, Eof]"] by simp
qed

text \<open>Collected output is capped without losing order or hiding the loss: standard output and standard error are each the first four megabytes of what the channel delivered before it closed, and whenever one of them is longer the output carries the truncation notice.\<close>

theorem exec_output_capped:
  "ex_stdout (exec_loop ms exec_start) = take MAX_EXEC_OUTPUT (stdout_data ms) \<and>
   ex_stderr (exec_loop ms exec_start) = take MAX_EXEC_OUTPUT (stderr_data ms) \<and>
   (length (stdout_data ms) > MAX_EXEC_OUTPUT \<or> length (stderr_data ms) > MAX_EXEC_OUTPUT \<longrightarrow>
      co_stdout (exec_output ms) = from_utf8_lossy (take MAX_EXEC_OUTPUT (stdout_data ms) @ TRUNCATION_NOTICE))"
proof -
  have "collected [] [] exec_start" by (simp add: collected_def exec_start_def)
  from exec_loop_collected [OF this, of ms] show ?thesis
    by (auto simp: collected_def exec_output_def Let_def)
qed

theorem exec_output_capped_witness:
  "co_stdout (exec_output [Data (replicate (MAX_EXEC_OUTPUT + 1) CR)]) =
     from_utf8_lossy (replicate MAX_EXEC_OUTPUT CR @ TRUNCATION_NOTICE)"
  using exec_output_capped [of "[Data (replicate (MAX_EXEC_OUTPUT + 1) CR)]"] by (simp add: take_Cons' del: replicate.simps)

end
