(* ===== verification/Pipeline.thy ===== *)
theory Pipeline
  imports Protocol Ssh_Session Metrics
begin

text \<open>
  apps/desktop/src-tauri/src/commands/telemetry.rs: the task that reads the collector's stream, turns blocks
  into frames, records their rows and shows them. It ties together the SSH stream, the block reader, the
  telemetry state and the metric store; the events it emits to the window are a list. What each write to the
  database reports is a parameter, one entry per write.
\<close>

section \<open>The task\<close>

text \<open>The bit pattern under which a value is stored.\<close>

definition f64_bits :: "flt \<Rightarrow> u64" where
  "f64_bits x =
     (case x of
        Fin q \<Rightarrow>
          if q = 0 then 0
          else
            (let m = \<bar>q\<bar>; e = max (ilog2 m) (femin F64); frac = \<lfloor>m / 2 powi (e - 52)\<rfloor>;
                 body = (if frac \<ge> 2 ^ 52 then (e + 1023) * 2 ^ 52 + (frac - 2 ^ 52) else frac)
             in of_int (if q < 0 then 2 ^ 63 + body else body))
      | PInf \<Rightarrow> 0x7FF0000000000000
      | NInf \<Rightarrow> 0xFFF0000000000000
      | NaN \<Rightarrow> 0x7FF8000000000000)"

datatype AppEvent =
    TelemetryEvent rstr Frame
  | CollectorStopped rstr rstr

record collector_task =
  tk_reader :: BlockReader
  tk_telemetry :: TelemetryState
  tk_store :: Store
  tk_writes :: "db_fault list"

definition task_new :: "Store \<Rightarrow> db_fault list \<Rightarrow> collector_task" where
  "task_new st writes = \<lparr>tk_reader = reader_new, tk_telemetry = telemetry_new, tk_store = st, tk_writes = writes\<rparr>"

definition stored_rows :: "Frame list \<Rightarrow> (rstr \<times> TimestampMs \<times> u64) list" where
  "stored_rows frames = map (\<lambda>(k, ts, v). (k, ts, f64_bits v)) (concat (map metric_rows frames))"

text \<open>Recording the rows of a block: no write when there is none, and a failed write is reported.\<close>

definition record_rows :: "rstr \<Rightarrow> rstr \<Rightarrow> Frame list \<Rightarrow> collector_task \<Rightarrow> AppEvent list \<times> collector_task" where
  "record_rows fk server_id frames t =
     (if stored_rows frames = [] then ([], t)
      else
        (case insert_samples (fault_at (tk_writes t)) fk server_id (stored_rows frames) (tk_store t) of
           (res, st) \<Rightarrow>
             ((case res of
                 Inl e \<Rightarrow> [CollectorStopped server_id (''telemetry is live but not being recorded: '' @ display_error e)]
               | Inr _ \<Rightarrow> []),
              t\<lparr>tk_store := st, tk_writes := tl (tk_writes t)\<rparr>)))"

definition task_block :: "rstr \<Rightarrow> rstr \<Rightarrow> Block \<Rightarrow> collector_task \<Rightarrow> AppEvent list \<times> collector_task" where
  "task_block fk server_id b t =
     (case frames_from_block b (tk_telemetry t) of (frames, tel) \<Rightarrow>
      case record_rows fk server_id frames (t\<lparr>tk_telemetry := tel\<rparr>) of (evs, t') \<Rightarrow>
        (evs @ map (TelemetryEvent server_id) frames, t'))"

definition task_line :: "rstr \<Rightarrow> rstr \<Rightarrow> rstr \<Rightarrow> collector_task \<Rightarrow> AppEvent list \<times> collector_task" where
  "task_line fk server_id line t =
     (case push_line (tk_reader t) line of (out, r) \<Rightarrow>
        let t' = t\<lparr>tk_reader := r\<rparr> in
        (case out of
           Inr (Some (EmitBlock b)) \<Rightarrow> task_block fk server_id b t'
         | Inr (Some (Hello _ _ _ _)) \<Rightarrow> ([], t')
         | Inr None \<Rightarrow> ([], t')
         | Inl e \<Rightarrow> ([CollectorStopped server_id (display_error e)], t')))"

definition show_status :: "u32 option \<Rightarrow> rstr" where
  "show_status s = (case s of Some n \<Rightarrow> ''Some('' @ show_nat (unat n) @ '')'' | None \<Rightarrow> ''None'')"

definition exit_detail :: "u32 option \<Rightarrow> BlockReader \<Rightarrow> rstr" where
  "exit_detail status r =
     (if rd_preamble r = [] then ''collector exited with status '' @ show_status status
      else ''collector exited with status '' @ show_status status @ '': '' @ join '' '' (rd_preamble r))"

fun run_task :: "rstr \<Rightarrow> rstr \<Rightarrow> StreamItem list \<Rightarrow> collector_task \<Rightarrow> AppEvent list \<times> collector_task" where
  "run_task fk server_id [] t = ([], t)"
| "run_task fk server_id (Line line # items) t =
     (case task_line fk server_id line t of (evs, t') \<Rightarrow>
      case run_task fk server_id items t' of (evs', t'') \<Rightarrow> (evs @ evs', t''))"
| "run_task fk server_id (Exited status # items) t = ([CollectorStopped server_id (exit_detail status (tk_reader t))], t)"

section \<open>What the task amounts to\<close>

fun frames_run :: "TelemetryState \<Rightarrow> Block list \<Rightarrow> Frame list list" where
  "frames_run s [] = []"
| "frames_run s (b # bs) = (case block_to_frames s b of (frames, s') \<Rightarrow> frames # frames_run s' bs)"

definition shown :: "AppEvent list \<Rightarrow> Frame list" where
  "shown evs = List.map_filter (\<lambda>e. case e of TelemetryEvent _ f \<Rightarrow> Some f | _ \<Rightarrow> None) evs"

fun store_run :: "rstr \<Rightarrow> rstr \<Rightarrow> Frame list list \<Rightarrow> db_fault list \<Rightarrow> Store \<Rightarrow> Store" where
  "store_run fk server_id [] writes st = st"
| "store_run fk server_id (fs # fss) writes st =
     (if stored_rows fs = [] then store_run fk server_id fss writes st
      else store_run fk server_id fss (tl writes) (snd (insert_samples (fault_at writes) fk server_id (stored_rows fs) st)))"

lemma shown_simps [simp]:
  "shown [] = []" "shown (xs @ ys) = shown xs @ shown ys" "shown (map (TelemetryEvent i) fs) = fs"
  "shown (CollectorStopped i m # xs) = shown xs"
proof -
  show "shown (xs @ ys) = shown xs @ shown ys"
    by (induction xs) (auto simp: shown_def map_filter_simps split: AppEvent.splits)
  show "shown (map (TelemetryEvent i) fs) = fs"
    by (induction fs) (auto simp: shown_def map_filter_simps)
qed (simp_all add: shown_def map_filter_simps)

lemma task_line_blocks:
  assumes "push_line (tk_reader t) line = (out, r)" "emitted_blocks [out] = []"
  shows "\<exists>evs. task_line fk server_id line t = (evs, t\<lparr>tk_reader := r\<rparr>) \<and> shown evs = []"
  using assms
  by (cases out) (auto simp: task_line_def Let_def split: option.splits Emit.splits)

lemma record_rows_state:
  "record_rows fk server_id fs t = (evs, t') \<Longrightarrow>
     shown evs = [] \<and> tk_reader t' = tk_reader t \<and> tk_telemetry t' = tk_telemetry t \<and>
     store_run fk server_id fss (tk_writes t') (tk_store t') = store_run fk server_id (fs # fss) (tk_writes t) (tk_store t)"
  by (auto simp: record_rows_def split: if_splits prod.splits sum.splits)

lemma run_lines:
  "\<exists>evs t'. run_task fk server_id (map Line ls @ items) t =
      (evs @ fst (run_task fk server_id items t'), snd (run_task fk server_id items t')) \<and>
    tk_reader t' = snd (feed (tk_reader t) ls) \<and>
    shown evs = concat (frames_run (tk_telemetry t) (emitted_blocks (fst (feed (tk_reader t) ls)))) \<and>
    tk_store t' = store_run fk server_id (frames_run (tk_telemetry t) (emitted_blocks (fst (feed (tk_reader t) ls))))
      (tk_writes t) (tk_store t)"
proof (induction ls arbitrary: t)
  case Nil
  show ?case by (intro exI [of _ "[]"] exI [of _ t]) simp
next
  case (Cons l ls)
  obtain out r where push: "push_line (tk_reader t) l = (out, r)" by fastforce
  show ?case
  proof (cases "emitted_blocks [out] = []")
    case True
    from task_line_blocks [OF push this] obtain evs1 where
      line: "task_line fk server_id l t = (evs1, t\<lparr>tk_reader := r\<rparr>)" "shown evs1 = []" by blast
    from Cons.IH [of "t\<lparr>tk_reader := r\<rparr>"] obtain evs t' where
      IH: "run_task fk server_id (map Line ls @ items) (t\<lparr>tk_reader := r\<rparr>) =
          (evs @ fst (run_task fk server_id items t'), snd (run_task fk server_id items t'))"
        "tk_reader t' = snd (feed r ls)" "shown evs = concat (frames_run (tk_telemetry t) (emitted_blocks (fst (feed r ls))))"
        "tk_store t' = store_run fk server_id (frames_run (tk_telemetry t) (emitted_blocks (fst (feed r ls)))) (tk_writes t) (tk_store t)"
      by auto
    show ?thesis
      using line IH push True emitted_blocks_Cons [of out "fst (feed r ls)"]
      by (intro exI [of _ "evs1 @ evs"] exI [of _ t']) (auto split: prod.splits)
  next
    case False
    then obtain b where out: "out = Inr (Some (EmitBlock b))"
      by (cases out) (auto simp: emitted_blocks_def Collector.emitted_def map_filter_simps split: option.splits Emit.splits)
    obtain fs tel where fs: "block_to_frames (tk_telemetry t) b = (fs, tel)" by fastforce
    obtain evs1 t1 where rec: "record_rows fk server_id fs (t\<lparr>tk_reader := r, tk_telemetry := tel\<rparr>) = (evs1, t1)" by fastforce
    from Cons.IH [of t1] record_rows_state [OF rec] obtain evs t' where
      IH: "run_task fk server_id (map Line ls @ items) t1 =
          (evs @ fst (run_task fk server_id items t'), snd (run_task fk server_id items t'))"
        "tk_reader t' = snd (feed r ls)" "shown evs = concat (frames_run tel (emitted_blocks (fst (feed r ls))))"
        "tk_store t' = store_run fk server_id (fs # frames_run tel (emitted_blocks (fst (feed r ls)))) (tk_writes t) (tk_store t)"
      by auto
    have line: "task_line fk server_id l t = (evs1 @ map (TelemetryEvent server_id) fs, t1)"
      using push out fs rec by (simp add: task_line_def task_block_def frames_from_block_def)
    show ?thesis
      using line IH push out fs record_rows_state [OF rec]
      by (intro exI [of _ "evs1 @ map (TelemetryEvent server_id) fs @ evs"] exI [of _ t']) (auto split: prod.splits)
  qed
qed

section \<open>Text over the wire\<close>

lemma utf8_ascii: "list_all (\<lambda>c. byte c < 0x80) s \<Longrightarrow> from_utf8_lossy s = s"
  by (induction s) simp_all

definition ascii_line :: "rstr \<Rightarrow> bool" where
  "ascii_line l \<longleftrightarrow> list_all (\<lambda>c. byte c < 0x80) l \<and> NL \<notin> set l \<and> (l \<noteq> [] \<longrightarrow> last l \<noteq> CR)"

lemma line_text_ascii:
  assumes "ascii_line l"
  shows "line_text (l @ [NL]) = l"
proof -
  have "list_all (\<lambda>c. byte c < 0x80) (l @ [NL])" using assms by (simp add: ascii_line_def byte_def)
  then have dec: "from_utf8_lossy (l @ [NL]) = l @ [NL]" by (rule utf8_ascii)
  show ?thesis
  proof (cases l rule: rev_cases)
    case Nil
    then show ?thesis using dec by (simp add: line_text_def is_eol_def)
  next
    case (snoc u z)
    then have "\<not> is_eol z" using assms by (auto simp: ascii_line_def is_eol_def)
    then show ?thesis using dec snoc by (simp add: line_text_def is_eol_def)
  qed
qed

lemma digits_ascii: "is_ascii_digit c \<Longrightarrow> byte c < 0x80 \<and> c \<noteq> NL \<and> c \<noteq> CR"
  by (auto simp: byte_class_defs)

lemma show_nat_ascii: "list_all is_ascii_digit (show_nat n)"
  using show_nat_digits [of n] by (simp add: is_digits_def)

lemma show_int_chars: "c \<in> set (show_int i) \<Longrightarrow> byte c < 0x80 \<and> c \<noteq> NL \<and> c \<noteq> CR"
  using show_nat_ascii digits_ascii
  by (auto simp: show_int_def list_all_iff byte_def split: if_splits)

lemma show_nat_chars: "c \<in> set (show_nat n) \<Longrightarrow> byte c < 0x80 \<and> c \<noteq> NL \<and> c \<noteq> CR"
  using show_nat_ascii digits_ascii by (auto simp: list_all_iff)

lemma ascii_lineI: "(\<And>c. c \<in> set l \<Longrightarrow> byte c < 0x80 \<and> c \<noteq> NL \<and> c \<noteq> CR) \<Longrightarrow> ascii_line l"
  unfolding ascii_line_def list_all_iff using last_in_set by blast

lemma scheduled_chars: "list_all (list_all (\<lambda>c. byte c < 0x80 \<and> c \<noteq> NL \<and> c \<noteq> CR)) (scheduled have n)"
  by (simp add: scheduled_def byte_def)

lemma scheduled_ascii: "name \<in> set (scheduled have n) \<Longrightarrow> c \<in> set name \<Longrightarrow> byte c < 0x80 \<and> c \<noteq> NL \<and> c \<noteq> CR"
  using scheduled_chars [of "have" n] unfolding list_all_iff by blast

lemma marker_chars: "list_all (\<lambda>c. byte c < 0x80 \<and> c \<noteq> NL \<and> c \<noteq> CR) (''%%KYVON/1'' @ '' TICK '' @ '' SEC '' @ '' END'' @ '' '')"
  by (simp add: byte_def)

lemma tick_lines_ascii:
  assumes "\<forall>name \<in> set (scheduled have n). list_all ascii_line (outp name)"
  shows "list_all ascii_line (tick_lines have outp now n)"
proof -
  note m = marker_chars [unfolded list_all_iff, rule_format]
  have "ascii_line (''%%KYVON/1'' @ '' TICK '' @ show_int now @ '' '' @ show_nat n)"
    by (rule ascii_lineI) (use m show_int_chars show_nat_chars in \<open>simp only: set_append, blast\<close>)
  moreover have "ascii_line (''%%KYVON/1'' @ '' END'')"
    by (rule ascii_lineI) (use m in \<open>simp only: set_append, blast\<close>)
  moreover have "ascii_line (script_sec name)" if "name \<in> set (scheduled have n)" for name
    unfolding script_sec_def
    by (rule ascii_lineI) (use m scheduled_ascii [OF that] in \<open>simp only: set_append, blast\<close>)
  ultimately show ?thesis using assms by (auto simp: tick_lines_def list_all_iff)
qed

lemma feed_ticks:
  assumes "\<forall>(now, n, outp) \<in> set ticks. in_i64 now \<and> n < 2 ^ 64 \<and> (\<forall>name \<in> set (scheduled have n). \<forall>l \<in> set (outp name). is_plain l)"
  shows "emitted_blocks (fst (feed r (concat (map (\<lambda>(now, n, outp). tick_lines have outp now n) ticks)))) =
    map (\<lambda>(now, n, outp). \<lparr>blk_ts = now, blk_seq = of_nat n,
      blk_sections = map (\<lambda>name. \<lparr>sec_name = name, sec_body = unlines (outp name)\<rparr>) (scheduled have n)\<rparr>) ticks"
  using assms
proof (induction ticks arbitrary: r)
  case (Cons t ticks)
  obtain now n outp where t: "t = (now, n, outp)" by (cases t)
  obtain o1 r1 where first: "feed r (tick_lines have outp now n) = (o1, r1)" by fastforce
  have "emitted_blocks o1 = [\<lparr>blk_ts = now, blk_seq = of_nat n,
      blk_sections = map (\<lambda>name. \<lparr>sec_name = name, sec_body = unlines (outp name)\<rparr>) (scheduled have n)\<rparr>]"
    using feed_tick_lines(1) [of now n "have" outp r] Cons.prems first t by simp
  moreover obtain o2 r2 where second: "feed r1 (concat (map (\<lambda>(now, n, outp). tick_lines have outp now n) ticks)) = (o2, r2)"
    by fastforce
  moreover have "emitted_blocks o2 = map (\<lambda>(now, n, outp). \<lparr>blk_ts = now, blk_seq = of_nat n,
      blk_sections = map (\<lambda>name. \<lparr>sec_name = name, sec_body = unlines (outp name)\<rparr>) (scheduled have n)\<rparr>) ticks"
    using Cons.IH [of r1] Cons.prems second by simp
  ultimately show ?case by (simp add: t first feed_append emitted_blocks_append)
qed simp

section \<open>Properties\<close>

text \<open>The task is its parts: on any stream of lines it shows, in order, the frames of the complete blocks of
  that stream, and it records the rows of each block that has any. A write that fails costs the rows of that
  block only; the frames shown do not depend on what the database reports, and the stream goes on.\<close>

theorem task_is_blocks:
  "shown (fst (run_task fk server_id (map Line ls) (task_new st writes))) = concat (frames_run telemetry_new (blocks_of ls)) \<and>
   tk_store (snd (run_task fk server_id (map Line ls) (task_new st writes))) =
     store_run fk server_id (frames_run telemetry_new (blocks_of ls)) writes st"
proof -
  have "emitted_blocks (fst (feed reader_new ls)) = blocks_of ls"
    by (rule feed_blocks) (simp add: reader_new_def)
  with run_lines [of fk server_id ls "[]" "task_new st writes"] show ?thesis
    by (auto simp: task_new_def)
qed

definition tick_block :: "(rstr \<Rightarrow> bool) \<Rightarrow> TimestampMs \<times> nat \<times> (rstr \<Rightarrow> rstr list) \<Rightarrow> Block" where
  "tick_block have t =
     (case t of (now, n, outp) \<Rightarrow>
        \<lparr>blk_ts = now, blk_seq = of_nat n,
         blk_sections = map (\<lambda>name. \<lparr>sec_name = name, sec_body = unlines (outp name)\<rparr>) (scheduled have n)\<rparr>)"

definition ticks_text :: "(rstr \<Rightarrow> bool) \<Rightarrow> (TimestampMs \<times> nat \<times> (rstr \<Rightarrow> rstr list)) list \<Rightarrow> rstr" where
  "ticks_text have ticks = unlines (concat (map (\<lambda>(now, n, outp). tick_lines have outp now n) ticks))"

definition tick_ok :: "(rstr \<Rightarrow> bool) \<Rightarrow> TimestampMs \<times> nat \<times> (rstr \<Rightarrow> rstr list) \<Rightarrow> bool" where
  "tick_ok have t =
     (case t of (now, n, outp) \<Rightarrow>
        in_i64 now \<and> n < 2 ^ 64 \<and> list_all (\<lambda>name. list_all (\<lambda>l. is_plain l \<and> ascii_line l) (outp name)) (scheduled have n))"

lemma split_on_unlines:
  "\<forall>l \<in> set ls. NL \<notin> set l \<Longrightarrow> split_on NL (unlines ls) = ls @ [[]]"
  by (induction ls) (auto simp: unlines_def split_on_append)

lemma ticks_lines_ascii:
  assumes "list_all (tick_ok have) ticks" and "l \<in> set (concat (map (\<lambda>(now, n, outp). tick_lines have outp now n) ticks))"
  shows "ascii_line l"
proof -
  from assms(2) obtain now n outp where t: "(now, n, outp) \<in> set ticks" "l \<in> set (tick_lines have outp now n)" by auto
  with assms(1) have "tick_ok have (now, n, outp)" by (simp add: list_all_iff)
  then have "\<forall>name \<in> set (scheduled have n). list_all ascii_line (outp name)"
    by (auto simp: tick_ok_def list_all_iff)
  with t(2) show ?thesis using tick_lines_ascii unfolding list_all_iff by blast
qed

lemma ticks_blocks:
  assumes "list_all (tick_ok have) ticks"
  shows "blocks_of (concat (map (\<lambda>(now, n, outp). tick_lines have outp now n) ticks)) = map (tick_block have) ticks"
proof -
  let ?ls = "concat (map (\<lambda>(now, n, outp). tick_lines have outp now n) ticks)"
  have "\<forall>(now, n, outp) \<in> set ticks. in_i64 now \<and> n < 2 ^ 64 \<and> (\<forall>name \<in> set (scheduled have n). \<forall>l \<in> set (outp name). is_plain l)"
    using assms by (auto simp: tick_ok_def list_all_iff)
  from feed_ticks [OF this, of reader_new] show ?thesis
    using feed_blocks [of reader_new ?ls] by (simp add: reader_new_def tick_block_def cong: map_cong)
qed



end
