(* ===== verification/Collectors.thy ===== *)
theory Collectors
  imports Prelude
begin

text \<open>
  apps/desktop/src-tauri/src/commands/telemetry.rs: the table of running collector tasks. A task is spawned
  before its handle is put in the table, and it removes the entry of its server when its stream ends, so the
  two can interleave; the steps below are the points between which another task can run.
\<close>

type_synonym task_id = nat

record Collectors =
  co_tasks :: "task_id hmap"
  co_running :: "(rstr \<times> task_id) list"
  co_next :: task_id

definition collectors_new :: Collectors where
  "collectors_new = \<lparr>co_tasks = [], co_running = [], co_next = 0\<rparr>"

definition abort :: "rstr \<times> task_id \<Rightarrow> Collectors \<Rightarrow> Collectors" where
  "abort t c = c\<lparr>co_running := filter (\<lambda>x. x \<noteq> t) (co_running c)\<rparr>"

definition stop :: "rstr \<Rightarrow> Collectors \<Rightarrow> bool \<times> Collectors" where
  "stop server_id c =
     (case hm_get (co_tasks c) server_id of
        Some task \<Rightarrow> (True, abort (server_id, task) (c\<lparr>co_tasks := hm_remove server_id (co_tasks c)\<rparr>))
      | None \<Rightarrow> (False, c))"

definition replace :: "rstr \<Rightarrow> task_id \<Rightarrow> Collectors \<Rightarrow> Collectors" where
  "replace server_id task c =
     (let c' = c\<lparr>co_tasks := hm_insert server_id task (co_tasks c)\<rparr> in
      case hm_get (co_tasks c) server_id of Some previous \<Rightarrow> abort (server_id, previous) c' | None \<Rightarrow> c')"

definition forget :: "rstr \<Rightarrow> Collectors \<Rightarrow> Collectors" where
  "forget server_id c = c\<lparr>co_tasks := hm_remove server_id (co_tasks c)\<rparr>"

definition stop_collector :: "rstr \<Rightarrow> Collectors \<Rightarrow> (rstr + unit) \<times> Collectors" where
  "stop_collector server c =
     (case stop server c of
        (True, c') \<Rightarrow> (Inr (), c')
      | (False, c') \<Rightarrow> (Inl (''No telemetry collector is running on `'' @ server @ ''`.''), c'))"

text \<open>The two halves of starting a collector, and the end of a task.\<close>

definition spawn :: "rstr \<Rightarrow> Collectors \<Rightarrow> Collectors" where
  "spawn server c = c\<lparr>co_running := (server, co_next c) # co_running c, co_next := co_next c + 1\<rparr>"

definition finish :: "rstr \<times> task_id \<Rightarrow> Collectors \<Rightarrow> Collectors" where
  "finish t c = forget (fst t) (abort t c)"

inductive cstep :: "Collectors \<Rightarrow> Collectors \<Rightarrow> bool" where
  spawned: "cstep c (spawn server c)"
| registered: "n < co_next c \<Longrightarrow> cstep c (replace server n c)"
| finished: "t \<in> set (co_running c) \<Longrightarrow> cstep c (finish t c)"
| stopped: "cstep c (snd (stop server c))"

text \<open>Starting without interruption: the handle is in the table before anything else happens.\<close>

inductive atomic_step :: "Collectors \<Rightarrow> Collectors \<Rightarrow> bool" where
  atomic_start: "atomic_step c (replace server (co_next c) (spawn server c))"
| atomic_finish: "t \<in> set (co_running c) \<Longrightarrow> atomic_step c (finish t c)"
| atomic_stop: "atomic_step c (snd (stop server c))"

inductive_cases atomic_stepE: "atomic_step c c'"

definition table_exact :: "Collectors \<Rightarrow> bool" where
  "table_exact c \<longleftrightarrow> hm_wf (co_tasks c) \<and> (\<forall>s n. (s, n) \<in> set (co_running c) \<longleftrightarrow> hm_get (co_tasks c) s = Some n) \<and>
     (\<forall>s n. hm_get (co_tasks c) s = Some n \<longrightarrow> n < co_next c)"

lemmas collectors_defs = spawn_def replace_def finish_def forget_def abort_def stop_def table_exact_def

lemma table_exact_start: "table_exact c \<Longrightarrow> table_exact (replace server (co_next c) (spawn server c))"
  by (cases "hm_get (co_tasks c) server") (auto simp: collectors_defs Let_def less_Suc_eq)

lemma table_exact_finish: "table_exact c \<Longrightarrow> t \<in> set (co_running c) \<Longrightarrow> table_exact (finish t c)"
  by (cases t) (auto simp: collectors_defs split: if_splits)

lemma table_exact_stop: "table_exact c \<Longrightarrow> table_exact (snd (stop server c))"
  by (cases "hm_get (co_tasks c) server") (auto simp: collectors_defs split: if_splits)

lemma atomic_exact: "atomic_step\<^sup>*\<^sup>* collectors_new c \<Longrightarrow> table_exact c"
proof (induction rule: rtranclp_induct)
  case base
  show ?case by (simp add: table_exact_def collectors_new_def)
next
  case (step c c')
  from step(2,3) show ?case
    by (auto elim!: atomic_stepE intro: table_exact_start table_exact_finish table_exact_stop)
qed



text \<open>The order in the code does not ensure that: a second start whose stream ends before its handle is
  registered removes the entry of the first collector and then registers itself. The first collector keeps
  running with no entry, and \<open>stop_collector\<close> reports success while it stops nothing.\<close>

theorem orphan_collector_reachable:
  "\<exists>c. cstep\<^sup>*\<^sup>* collectors_new c \<and> (''web'', 0) \<in> set (co_running c) \<and>
     fst (stop_collector ''web'' c) = Inr () \<and> (''web'', 0) \<in> set (co_running (snd (stop_collector ''web'' c)))"
proof -
  let ?c1 = "replace ''web'' 0 (spawn ''web'' collectors_new)"
  let ?c2 = "spawn ''web'' ?c1"
  let ?c3 = "finish (''web'', 1) ?c2"
  let ?c4 = "replace ''web'' 1 ?c3"
  have "cstep collectors_new (spawn ''web'' collectors_new)" by (rule spawned)
  moreover have "cstep (spawn ''web'' collectors_new) ?c1" by (rule registered) (simp add: spawn_def)
  moreover have "cstep ?c1 ?c2" by (rule spawned)
  moreover have "cstep ?c2 ?c3" by (rule finished) (simp add: collectors_defs collectors_new_def Let_def)
  moreover have "cstep ?c3 ?c4" by (rule registered) (simp add: collectors_defs collectors_new_def Let_def)
  ultimately have "cstep\<^sup>*\<^sup>* collectors_new ?c4"
    by (blast intro: converse_rtranclp_into_rtranclp)
  moreover have "(''web'', 0) \<in> set (co_running ?c4) \<and> fst (stop_collector ''web'' ?c4) = Inr () \<and>
      (''web'', 0) \<in> set (co_running (snd (stop_collector ''web'' ?c4)))"
    by (simp add: stop_collector_def collectors_defs collectors_new_def Let_def)
  ultimately show ?thesis by blast
qed

end
