(* ===== verification/Aggregate.thy ===== *)
theory Aggregate
  imports Telemetry_State Metrics "HOL-Library.Product_Lexorder"
begin

text \<open>
  crates/kyvon-telemetry/src/aggregate.rs: downsampling in memory, on the floats of \<open>Ieee\<close>. The metric store
  does the same work in SQL (\<open>Metrics\<close>); the last section compares the two.
\<close>

section \<open>Downsampling\<close>

definition agg_bucket_start :: "TimestampMs \<Rightarrow> Resolution \<Rightarrow> TimestampMs" where
  "agg_bucket_start ts resolution =
     (let width = bucket_ms resolution in if width \<le> 0 then ts else wrapping_i64 (ts - ts mod width))"

record MetricAggregate =
  ma_bucket_start_ms :: TimestampMs
  ma_avg :: flt
  ma_min :: flt
  ma_max :: flt
  ma_p95 :: flt
  ma_samples :: u32

text \<open>The order of \<open>partial_cmp\<close> on values that are not NaN.\<close>

primrec flt_key :: "flt \<Rightarrow> int \<times> rat" where
  "flt_key (Fin q) = (1, q)"
| "flt_key PInf = (2, 0)"
| "flt_key NInf = (0, 0)"
| "flt_key NaN = (3, 0)"

definition f_ceil :: "flt \<Rightarrow> flt" where
  "f_ceil x = (case x of Fin q \<Rightarrow> Fin (of_int \<lceil>q\<rceil>) | y \<Rightarrow> y)"

definition rank_of :: "flt \<Rightarrow> nat \<Rightarrow> nat" where
  "rank_of q n = unat (to_u64 (f_max (f_ceil (fmul F64 q (of_unsigned F64 (of_nat n :: u64)))) (Fin 1)))"

definition percentile :: "flt list \<Rightarrow> flt \<Rightarrow> flt" where
  "percentile xs q = (if xs = [] then Fin 0 else xs ! (min (rank_of q (length xs)) (length xs) - 1))"

definition bt_push :: "'k::linorder \<Rightarrow> 'v \<Rightarrow> ('k \<times> 'v list) list \<Rightarrow> ('k \<times> 'v list) list" where
  "bt_push k v m = bt_insert k ((case map_of m k of Some vs \<Rightarrow> vs | None \<Rightarrow> []) @ [v]) m"

definition bucket_sample :: "Resolution \<Rightarrow> TimestampMs \<times> flt \<Rightarrow> (TimestampMs \<times> flt list) list \<Rightarrow> (TimestampMs \<times> flt list) list" where
  "bucket_sample resolution s m =
     (if is_nan (snd s) then m else bt_push (agg_bucket_start (fst s) resolution) (snd s) m)"

definition Q95 :: flt where
  "Q95 = rnd F64 (95 / 100)"

definition summarise :: "TimestampMs \<Rightarrow> flt list \<Rightarrow> MetricAggregate" where
  "summarise start vals =
     (let values = sort_key flt_key vals in
      \<lparr>ma_bucket_start_ms = start, ma_avg = fdiv F64 (foldl (fadd F64) (Fin 0) values) (of_unsigned F64 (of_nat (length values) :: u64)),
       ma_min = values ! 0, ma_max = values ! (length values - 1), ma_p95 = percentile values Q95,
       ma_samples = of_nat (length values)\<rparr>)"

definition downsample :: "(TimestampMs \<times> flt) list \<Rightarrow> Resolution \<Rightarrow> MetricAggregate list" where
  "downsample samples resolution =
     map (\<lambda>(start, values). summarise start values) (fold (bucket_sample resolution) samples [])"

definition retention_cutoff :: "TimestampMs \<Rightarrow> Resolution \<Rightarrow> TimestampMs" where
  "retention_cutoff now resolution = wrapping_i64 (now - retention_ms resolution)"

section \<open>Grouping\<close>

definition in_bucket :: "Resolution \<Rightarrow> TimestampMs \<Rightarrow> TimestampMs \<times> flt \<Rightarrow> bool" where
  "in_bucket res k s \<longleftrightarrow> \<not> is_nan (snd s) \<and> agg_bucket_start (fst s) res = k"

definition bucket_values :: "Resolution \<Rightarrow> (TimestampMs \<times> flt) list \<Rightarrow> TimestampMs \<Rightarrow> flt list" where
  "bucket_values res samples k = map snd (filter (in_bucket res k) samples)"

definition bucket_starts :: "Resolution \<Rightarrow> (TimestampMs \<times> flt) list \<Rightarrow> TimestampMs list" where
  "bucket_starts res samples =
     sorted_list_of_set ((\<lambda>s. agg_bucket_start (fst s) res) ` set (filter (\<lambda>s. \<not> is_nan (snd s)) samples))"

lemma bt_wf_push: "bt_wf m \<Longrightarrow> bt_wf (bt_push k v m)"
  by (simp add: bt_push_def bt_wf_insert)

lemma bucket_sample_inv:
  assumes "bt_wf m" "\<And>k. map_of m k = (if bucket_values res done k = [] then None else Some (bucket_values res done k))"
  shows "bt_wf (bucket_sample res s m)"
    and "map_of (bucket_sample res s m) k =
      (if bucket_values res (done @ [s]) k = [] then None else Some (bucket_values res (done @ [s]) k))"
  using assms by (auto simp: bucket_sample_def bt_wf_push bt_wf_insert bt_push_def bucket_values_def in_bucket_def)

lemma fold_bucket_sample:
  assumes "bt_wf m" "\<And>k. map_of m k = (if bucket_values res done k = [] then None else Some (bucket_values res done k))"
  shows "bt_wf (fold (bucket_sample res) samples m) \<and>
    (\<forall>k. map_of (fold (bucket_sample res) samples m) k =
      (if bucket_values res (done @ samples) k = [] then None else Some (bucket_values res (done @ samples) k)))"
  using assms
proof (induction samples arbitrary: m "done")
  case (Cons s samples)
  from Cons.IH [OF bucket_sample_inv [OF Cons.prems]] show ?case by simp
qed simp

lemma bt_wf_entries:
  assumes "bt_wf m"
  shows "m = map (\<lambda>k. (k, the (map_of m k))) (sorted_list_of_set (dom (map_of m)))"
proof -
  have sorted: "sorted_wrt (<) (map fst m)" using assms by (simp add: bt_wf_def)
  have "sorted_list_of_set (dom (map_of m)) = map fst m"
    using sorted by (simp add: dom_map_of_conv_image_fst strict_sorted_iff sorted_list_of_set.idem_if_sorted_distinct flip: set_map)
  moreover have "map (\<lambda>k. (k, the (map_of m k))) (map fst m) = m"
    using bt_wf_distinct [OF assms] by (auto simp: comp_def intro!: map_idI)
  ultimately show ?thesis by simp
qed

text \<open>Downsampling is grouping: the result has one entry per bucket that received a sample that is a
  number, in ascending order of the bucket, and summarises exactly the values of that bucket; a bucket without
  samples is absent.\<close>

theorem downsample_groups:
  "downsample samples res = map (\<lambda>k. summarise k (bucket_values res samples k)) (bucket_starts res samples)"
proof -
  let ?m = "fold (bucket_sample res) samples []"
  have "bt_wf ?m \<and> (\<forall>k. map_of ?m k =
      (if bucket_values res ([] @ samples) k = [] then None else Some (bucket_values res ([] @ samples) k)))"
    by (rule fold_bucket_sample) (simp_all add: bt_wf_def bucket_values_def)
  then have wf: "bt_wf ?m" and of: "\<And>k. map_of ?m k = (if bucket_values res samples k = [] then None else Some (bucket_values res samples k))"
    by auto
  have "dom (map_of ?m) = (\<lambda>s. agg_bucket_start (fst s) res) ` set (filter (\<lambda>s. \<not> is_nan (snd s)) samples)"
    by (auto simp: dom_def of bucket_values_def in_bucket_def filter_empty_conv)
  then have keys: "sorted_list_of_set (dom (map_of ?m)) = bucket_starts res samples"
    by (simp add: bucket_starts_def)
  have "bucket_values res samples k \<noteq> []" if "k \<in> set (bucket_starts res samples)" for k
    using that by (auto simp: bucket_starts_def bucket_values_def in_bucket_def filter_empty_conv)
  then show ?thesis
    unfolding downsample_def by (subst bt_wf_entries [OF wf]) (simp add: keys of)
qed

section \<open>The two ways to compute a percentile\<close>

lemma Q95_value: "Q95 = Fin (8556839292003942 / 2 ^ 53)"
  unfolding Q95_def using rnd_F64_value [of "- 1" "95 / 100" 53 8556839292003942] by (simp add: power_int_def power_one_over)

lemma rank_of_p95:
  assumes "0 < n" "n < 2 ^ 40"
  shows "rank_of Q95 n = p95_rank n"
proof -
  let ?c = "8556839292003942 / 2 ^ 53 :: rat" and ?n = "of_nat n :: rat"
  let ?k = "p95_rank n" and ?x = "8556839292003942 / 2 ^ 53 * of_nat n :: rat"
  have "of_nat 1 \<le> ?n" "?n < of_nat (2 ^ 40)" using assms by (simp_all only: of_nat_le_iff of_nat_less_iff Suc_le_eq One_nat_def)
  then have n: "1 \<le> ?n" "?n < 2 ^ 40" by simp_all
  have k: "100 * ?k \<le> 95 * n + 99" "95 * n \<le> 100 * ?k" unfolding p95_rank_def by linarith+
  have "20 * ?k \<le> 19 * n + 19" using k(1) by linarith
  with k have "(of_nat (100 * ?k) :: rat) \<le> of_nat (95 * n + 95)" "(of_nat (95 * n) :: rat) \<le> of_nat (100 * ?k)"
    by (simp_all only: of_nat_le_iff)
  then have kr: "100 * of_nat ?k \<le> 95 * ?n + (95::rat)" "95 * ?n \<le> 100 * of_nat ?k" by simp_all
  have x: "?x \<le> of_nat ?k" "of_nat ?k - 1 + 1 / 25 \<le> ?x" "0 < ?x" "?x < 2 powi 40"
    using kr n by (simp_all add: power_int_def field_simps)
  have "?k < 2 ^ fprec F64" using assms unfolding p95_rank_def by simp
  then have kk: "rnd F64 (of_nat ?k) = Fin (of_nat ?k)" by (rule rnd_of_nat)
  obtain r where r: "rnd F64 ?x = Fin r" "0 \<le> r" "r \<le> of_nat ?k" using rnd_mono_Fin [OF kk less_imp_le [OF x(3)] x(1)] .
  then have "r = round_rat F64 ?x" using x(3) by (simp add: rnd_def rnd_pos_def Let_def split: if_splits)
  moreover have "?x - (2 powi (- 13)) / 2 \<le> round_rat F64 ?x"
    using round_rat_error [OF x(3), of F64] ulp_small [OF x(3,4)] by linarith
  moreover have "(2::rat) powi (- 13) / 2 < 1 / 25" by (simp add: power_int_def power_one_over)
  ultimately have low: "of_nat ?k - 1 < r" using x(2) by linarith
  have ceil: "\<lceil>r\<rceil> = int ?k" using low r(3) by (intro ceiling_unique) simp_all
  have small: "n < 2 ^ 64" "n < 2 ^ fprec F64" using assms by simp_all
  then have "of_unsigned F64 (of_nat n :: u64) = Fin ?n"
    unfolding of_unsigned_def unat_of_nat_small [OF small(1)] by (intro rnd_of_nat)
  then have prod: "fmul F64 Q95 (of_unsigned F64 (of_nat n :: u64)) = Fin r" using r(1) by (simp add: Q95_value)
  have k1: "1 \<le> ?k" "?k < 2 ^ 64" using assms unfolding p95_rank_def by simp_all
  then have "f_max (f_ceil (Fin r)) (Fin 1) = Fin (of_nat ?k)"
    using ceil by (simp add: f_ceil_def f_max_def is_nan_def)
  moreover have "to_u64 (Fin (of_nat ?k)) = of_nat ?k"
    using k1 by (simp add: to_u64_def not_le)
  ultimately show ?thesis
    unfolding rank_of_def prod using unat_of_nat_small [OF k1(2)] by simp
qed

text \<open>C33. The aggregator in memory and the rollup in SQL agree: for every bucket of fewer than \<open>2 ^ 40\<close> samples
  the rank taken from a product of doubles is the rank the SQL computes in integers, so both report the same
  sample as the 95th percentile, and for times after 1970 both put a sample in the same bucket. Before 1970
  they part, since the remainder of SQL has the sign of the time.\<close>

theorem aggregator_agrees_with_rollup:
  assumes "0 < n" and "n < 2 ^ 40" and "0 \<le> ts" and "in_i64 ts" and "bucket_ms res > 0"
  shows "rank_of Q95 n = p95_rank n \<and> agg_bucket_start ts res = bucket_start (bucket_ms res) ts \<and>
    agg_bucket_start (- 1) res = bucket_start (bucket_ms res) (- 1) - bucket_ms res"
proof -
  have "0 \<le> ts mod bucket_ms res" "ts mod bucket_ms res \<le> ts"
    using assms(3,5) by (simp_all add: zmod_le_nonneg_dividend)
  then have "wrapping_i64 (ts - ts mod bucket_ms res) = ts - ts mod bucket_ms res"
    using assms(3,4) by (simp add: wrapping_i64_def i64_defs)
  then have "agg_bucket_start ts res = bucket_start (bucket_ms res) ts"
    using assms(3,5) by (simp add: agg_bucket_start_def bucket_start_def sql_mod_def Let_def)
  moreover have "agg_bucket_start (- 1) res = bucket_start (bucket_ms res) (- 1) - bucket_ms res"
    using assms(5)
    by (cases res) (simp_all add: agg_bucket_start_def bucket_start_def sql_mod_def wrapping_i64_def Let_def)
  ultimately show ?thesis using rank_of_p95 [OF assms(1,2)] by blast
qed

theorem aggregator_agrees_with_rollup_witness:
  "rank_of Q95 60 = 57 \<and> agg_bucket_start 125000 OneMinute = 120000 \<and> agg_bucket_start (- 1) OneMinute = - 60000"
  using aggregator_agrees_with_rollup [of 60 125000 OneMinute]
  by (simp add: p95_rank_def bucket_start_def sql_mod_def i64_defs)

end
