(* ===== verification/App_Database.thy ===== *)
theory App_Database
  imports Store_Invariant
begin

text \<open>
  The tables of database/migrations/0001_initial.sql that hang off the inventory: the audit ledger,
  the operator notes and the configuration snapshots, and the settings. \<open>Database\<close> joins them with the
  store of Inventory. The interface \<open>child_table\<close> states what a table with a foreign key into the
  inventory does when a server is deleted: the audit ledger keeps its rows and forgets the server
  (\<open>ON DELETE SET NULL\<close>), the other two lose the rows (\<open>ON DELETE CASCADE\<close>). Referential integrity is
  proved once from that contract.
\<close>

section \<open>Tables\<close>

record audit_row =
  au_id :: rstr
  au_server_id :: "rstr option"
  au_category :: rstr
  au_summary :: rstr
  au_command :: "rstr option"
  au_risk_tier :: rstr
  au_outcome :: rstr
  au_exit_status :: "int option"
  au_duration_ms :: "int option"
  au_result_excerpt :: "rstr option"
  au_created_at :: TimestampMs

record note_row =
  no_id :: rstr
  no_server_id :: rstr
  no_section :: rstr
  no_title :: rstr
  no_body_md :: rstr
  no_created_at :: TimestampMs
  no_updated_at :: TimestampMs

record snapshot_row =
  sn_id :: rstr
  sn_server_id :: rstr
  sn_label :: rstr
  sn_payload_json :: rstr
  sn_created_at :: TimestampMs

record setting_row =
  se_key :: rstr
  se_value_json :: rstr
  se_updated_at :: TimestampMs

record Database =
  db_store :: Store
  db_audit :: "audit_row list"
  db_notes :: "note_row list"
  db_snapshots :: "snapshot_row list"
  db_settings :: "setting_row list"

definition db_empty :: Database where
  "db_empty = \<lparr>db_store = store_empty, db_audit = [], db_notes = [], db_snapshots = [], db_settings = []\<rparr>"

definition known_ids :: "Database \<Rightarrow> rstr set" where
  "known_ids db = sr_id ` set (st_servers (db_store db))"

section \<open>Deleting a server\<close>

definition forget_server :: "rstr \<Rightarrow> audit_row list \<Rightarrow> audit_row list" where
  "forget_server i rows = map (\<lambda>r. if au_server_id r = Some i then r\<lparr>au_server_id := None\<rparr> else r) rows"

definition drop_notes :: "rstr \<Rightarrow> note_row list \<Rightarrow> note_row list" where
  "drop_notes i rows = filter (\<lambda>r. no_server_id r \<noteq> i) rows"

definition drop_snapshots :: "rstr \<Rightarrow> snapshot_row list \<Rightarrow> snapshot_row list" where
  "drop_snapshots i rows = filter (\<lambda>r. sn_server_id r \<noteq> i) rows"

text \<open>\<open>DELETE FROM servers WHERE id = ?\<close> on the whole database, the foreign keys included.\<close>

definition delete_server :: "db_fault \<Rightarrow> rstr \<Rightarrow> Database \<Rightarrow> unit result \<times> Database" where
  "delete_server fault i db =
     (case Inventory.delete fault i (db_store db) of
        (Inl e, _) \<Rightarrow> (Inl e, db)
      | (Inr _, st) \<Rightarrow>
          (Inr (), db\<lparr>db_store := st, db_audit := forget_server i (db_audit db),
             db_notes := drop_notes i (db_notes db), db_snapshots := drop_snapshots i (db_snapshots db)\<rparr>))"

section \<open>Tables with a foreign key into the inventory\<close>

definition rows_ok :: "('r \<Rightarrow> rstr) \<Rightarrow> ('r \<Rightarrow> rstr option) \<Rightarrow> rstr set \<Rightarrow> 'r list \<Rightarrow> bool" where
  "rows_ok key owner known rows \<longleftrightarrow>
     distinct (map key rows) \<and> (\<forall>r \<in> set rows. case owner r of None \<Rightarrow> True | Some i \<Rightarrow> i \<in> known)"

lemma subseq_distinct: "subseq xs ys \<Longrightarrow> distinct ys \<Longrightarrow> distinct xs"
  by (auto simp: subseq_conv_nths)

locale child_table =
  fixes key :: "'r \<Rightarrow> rstr"
    and owner :: "'r \<Rightarrow> rstr option"
    and on_delete :: "rstr \<Rightarrow> 'r list \<Rightarrow> 'r list"
  assumes on_delete_keys: "subseq (map key (on_delete i rows)) (map key rows)"
    and on_delete_owner: "r \<in> set (on_delete i rows) \<Longrightarrow> owner r \<noteq> Some i \<and> (owner r = None \<or> owner r \<in> owner ` set rows)"
begin

lemma ok_insert:
  assumes "rows_ok key owner known rows" and "key r \<notin> key ` set rows"
    and "case owner r of None \<Rightarrow> True | Some i \<Rightarrow> i \<in> known"
  shows "rows_ok key owner known (rows @ [r])"
  using assms by (auto simp: rows_ok_def)

lemma ok_filter: "rows_ok key owner known rows \<Longrightarrow> rows_ok key owner known (filter p rows)"
  by (auto simp: rows_ok_def distinct_map_filter)

lemma ok_more: "rows_ok key owner known rows \<Longrightarrow> known \<subseteq> known' \<Longrightarrow> rows_ok key owner known' rows"
  by (fastforce simp: rows_ok_def split: option.splits)

lemma ok_rewrite:
  assumes "rows_ok key owner known rows" and "\<And>r. key (g r) = key r" and "\<And>r. owner (g r) = owner r"
  shows "rows_ok key owner known (map g rows)"
  using assms by (simp add: rows_ok_def comp_def)

lemma ok_on_delete:
  assumes "rows_ok key owner known rows"
  shows "rows_ok key owner (known - {i}) (on_delete i rows)"
proof -
  have "distinct (map key (on_delete i rows))"
    using assms on_delete_keys [of i rows] unfolding rows_ok_def by (blast intro: subseq_distinct)
  moreover have "case owner r of None \<Rightarrow> True | Some j \<Rightarrow> j \<in> known - {i}" if "r \<in> set (on_delete i rows)" for r
    using on_delete_owner [OF that] assms unfolding rows_ok_def by (auto split: option.splits)
  ultimately show ?thesis by (simp add: rows_ok_def)
qed

end

interpretation audit_rows: child_table au_id au_server_id forget_server
  by unfold_locales (auto simp: forget_server_def comp_def if_distrib cong: if_cong)

interpretation note_rows: child_table no_id "\<lambda>r. Some (no_server_id r)" drop_notes
  by unfold_locales (auto simp: drop_notes_def intro: subseq_map)

interpretation snapshot_rows: child_table sn_id "\<lambda>r. Some (sn_server_id r)" drop_snapshots
  by unfold_locales (auto simp: drop_snapshots_def intro: subseq_map)

section \<open>The invariant of the database\<close>

definition db_ok :: "Database \<Rightarrow> bool" where
  "db_ok db \<longleftrightarrow>
     store_ok (db_store db) \<and>
     rows_ok au_id au_server_id (known_ids db) (db_audit db) \<and>
     rows_ok no_id (\<lambda>r. Some (no_server_id r)) (known_ids db) (db_notes db) \<and>
     rows_ok sn_id (\<lambda>r. Some (sn_server_id r)) (known_ids db) (db_snapshots db) \<and>
     distinct (map se_key (db_settings db))"

lemma db_ok_empty: "db_ok db_empty"
  by (simp add: db_ok_def db_empty_def store_ok_empty rows_ok_def)

lemma known_after_delete:
  "Inventory.delete None i st = (Inr (), st') \<Longrightarrow> sr_id ` set (st_servers st') = sr_id ` set (st_servers st) - {i}"
  by (auto simp: Inventory.delete_def)

lemma delete_server_ok: "db_ok db \<Longrightarrow> db_ok (snd (delete_server fault i db))"
proof -
  assume ok: "db_ok db"
  show ?thesis
  proof (cases fault)
    case None
    obtain st where st: "Inventory.delete None i (db_store db) = (Inr (), st)"
      by (simp add: Inventory.delete_def)
    have k: "sr_id ` set (st_servers st) = known_ids db - {i}"
      using known_after_delete [OF st] by (simp add: known_ids_def)
    have "store_ok st" using delete_ok [of "db_store db" None i] ok st by (simp add: db_ok_def)
    with ok None st k show ?thesis
      by (simp add: delete_server_def db_ok_def known_ids_def [of "db\<lparr>db_store := _, db_audit := _, db_notes := _, db_snapshots := _\<rparr>"]
          audit_rows.ok_on_delete note_rows.ok_on_delete snapshot_rows.ok_on_delete)
  qed (use ok in \<open>simp add: delete_server_def Inventory.delete_def\<close>)
qed

text \<open>An operation of the store that removes no server leaves the other tables as they were.\<close>

lemma store_write_ok:
  assumes "db_ok db" and "store_ok st" and "sr_id ` set (st_servers (db_store db)) \<subseteq> sr_id ` set (st_servers st)"
  shows "db_ok (db\<lparr>db_store := st\<rparr>)"
proof -
  have "known_ids db \<subseteq> known_ids (db\<lparr>db_store := st\<rparr>)" using assms(3) by (simp add: known_ids_def)
  with assms(1,2) show ?thesis
    by (auto simp: db_ok_def intro: audit_rows.ok_more note_rows.ok_more snapshot_rows.ok_more)
qed

end
