(* ===== verification/Audit_Log.thy ===== *)
theory Audit_Log
  imports App_Database Ssh_Session "HOL-Library.Multiset"
begin

text \<open>
  crates/kyvon-storage/src/audit.rs: the ledger of what the program did. Identifiers and the clock are
  arguments, and so is what the driver reports when it refuses a row. Among rows of one millisecond
  SQL leaves the order open; the model keeps the order of insertion, and no property depends on it.
\<close>

section \<open>Outcomes and tiers as text\<close>

datatype Outcome = Success | Failure | Cancelled | Unverified

primrec outcome_as_str :: "Outcome \<Rightarrow> rstr" where
  "outcome_as_str Success = ''success''"
| "outcome_as_str Failure = ''failure''"
| "outcome_as_str Cancelled = ''cancelled''"
| "outcome_as_str Unverified = ''unverified''"

definition outcome_parse :: "rstr \<Rightarrow> Outcome" where
  "outcome_parse s =
     (if s = ''success'' then Success
      else if s = ''cancelled'' then Cancelled
      else if s = ''unverified'' then Unverified
      else Failure)"

definition parse_tier :: "rstr \<Rightarrow> RiskTier" where
  "parse_tier s =
     (if s = ''safe'' then Safe
      else if s = ''low'' then Low
      else if s = ''medium'' then Medium
      else if s = ''high'' then High
      else Critical)"

section \<open>Events\<close>

record AuditEvent =
  ae_id :: rstr
  ae_server_id :: "rstr option"
  ae_category :: rstr
  ae_summary :: rstr
  ae_command :: "rstr option"
  ae_risk_tier :: RiskTier
  ae_outcome :: Outcome
  ae_exit_status :: "int option"
  ae_duration_ms :: "int option"
  ae_result_excerpt :: "rstr option"
  ae_created_at :: TimestampMs

definition audit_event_new :: "rstr \<Rightarrow> TimestampMs \<Rightarrow> rstr option \<Rightarrow> rstr \<Rightarrow> rstr \<Rightarrow> RiskTier \<Rightarrow> Outcome \<Rightarrow> AuditEvent" where
  "audit_event_new uuid now server_id category summary tier outcome =
     \<lparr>ae_id = uuid, ae_server_id = server_id, ae_category = category, ae_summary = summary, ae_command = None,
      ae_risk_tier = tier, ae_outcome = outcome, ae_exit_status = None, ae_duration_ms = None,
      ae_result_excerpt = None, ae_created_at = now\<rparr>"

definition with_command :: "rstr \<Rightarrow> AuditEvent \<Rightarrow> AuditEvent" where
  "with_command command e = e\<lparr>ae_command := Some command\<rparr>"

text \<open>\<open>chars().take(n)\<close> on UTF-8: a character is a byte that does not continue one, with its continuation bytes.\<close>

fun take_chars :: "nat \<Rightarrow> rstr \<Rightarrow> rstr" where
  "take_chars n [] = []"
| "take_chars n (c # s) =
     (if cont_byte c then c # take_chars n s
      else case n of 0 \<Rightarrow> [] | Suc m \<Rightarrow> c # take_chars m s)"

definition with_result :: "u32 option \<Rightarrow> rstr \<Rightarrow> u64 \<Rightarrow> AuditEvent \<Rightarrow> AuditEvent" where
  "with_result exit_status excerpt duration e =
     e\<lparr>ae_exit_status := map_option uint exit_status,
       ae_duration_ms := Some (sint duration),
       ae_result_excerpt := Some (take_chars 2000 excerpt)\<rparr>"

section \<open>The ledger\<close>

definition row_of_event :: "AuditEvent \<Rightarrow> audit_row" where
  "row_of_event e =
     \<lparr>au_id = ae_id e, au_server_id = ae_server_id e, au_category = ae_category e,
      au_summary = redact (ae_summary e), au_command = map_option redact (ae_command e),
      au_risk_tier = tier_as_str (ae_risk_tier e), au_outcome = outcome_as_str (ae_outcome e),
      au_exit_status = ae_exit_status e, au_duration_ms = ae_duration_ms e,
      au_result_excerpt = map_option redact (ae_result_excerpt e), au_created_at = ae_created_at e\<rparr>"

text \<open>The primary key and the foreign key of the table refuse a row; \<open>refusal\<close> is the text of the driver.\<close>

definition record_event :: "db_fault \<Rightarrow> rstr \<Rightarrow> AuditEvent \<Rightarrow> Database \<Rightarrow> unit result \<times> Database" where
  "record_event fault refusal e db =
     (case fault of
        Some err \<Rightarrow> (Inl (Storage err), db)
      | None \<Rightarrow>
          if list_ex (\<lambda>r. au_id r = ae_id e) (db_audit db) \<or>
             (case ae_server_id e of None \<Rightarrow> False | Some i \<Rightarrow> find_server i (db_store db) = None)
          then (Inl (Storage refusal), db)
          else (Inr (), db\<lparr>db_audit := db_audit db @ [row_of_event e]\<rparr>))"

definition event_of_row :: "audit_row \<Rightarrow> AuditEvent" where
  "event_of_row r =
     \<lparr>ae_id = au_id r, ae_server_id = au_server_id r, ae_category = au_category r, ae_summary = au_summary r,
      ae_command = au_command r, ae_risk_tier = parse_tier (au_risk_tier r),
      ae_outcome = outcome_parse (au_outcome r), ae_exit_status = au_exit_status r,
      ae_duration_ms = au_duration_ms r, ae_result_excerpt = au_result_excerpt r, ae_created_at = au_created_at r\<rparr>"

definition limit_rows :: "u32 \<Rightarrow> nat" where
  "limit_rows limit = max 1 (min 1000 (unat limit))"

definition about_server :: "rstr option \<Rightarrow> audit_row \<Rightarrow> bool" where
  "about_server server_id r = (case server_id of None \<Rightarrow> True | Some i \<Rightarrow> au_server_id r = Some i)"

definition newest_first :: "audit_row list \<Rightarrow> audit_row list" where
  "newest_first rows = sort_key (\<lambda>r. - au_created_at r) rows"

definition recent :: "db_fault \<Rightarrow> rstr option \<Rightarrow> u32 \<Rightarrow> Database \<Rightarrow> AuditEvent list result" where
  "recent fault server_id limit db =
     (case fault of
        Some e \<Rightarrow> Inl (Storage e)
      | None \<Rightarrow> Inr (map event_of_row (take (limit_rows limit) (newest_first (filter (about_server server_id) (db_audit db))))))"

definition audit_count :: "db_fault \<Rightarrow> Database \<Rightarrow> u64 result" where
  "audit_count fault db = (case fault of Some e \<Rightarrow> Inl (Storage e) | None \<Rightarrow> Inr (of_nat (length (db_audit db))))"

section \<open>Lemmas\<close>

lemma outcome_round_trip [simp]: "outcome_parse (outcome_as_str o') = o'"
  by (cases o') (simp_all add: outcome_parse_def)

lemma tier_round_trip [simp]: "parse_tier (tier_as_str t) = t"
  by (cases t) (simp_all add: parse_tier_def)

text \<open>Text no version of the program wrote is read in the cautious direction.\<close>

lemma unknown_text_is_worst:
  "(\<forall>t. tier_as_str t \<noteq> s) \<Longrightarrow> parse_tier s = Critical"
  "(\<forall>o'. outcome_as_str o' \<noteq> s) \<Longrightarrow> outcome_parse s = Failure"
proof -
  show "(\<forall>t. tier_as_str t \<noteq> s) \<Longrightarrow> parse_tier s = Critical"
    unfolding parse_tier_def by (metis tier_as_str.simps)
  show "(\<forall>o'. outcome_as_str o' \<noteq> s) \<Longrightarrow> outcome_parse s = Failure"
    unfolding outcome_parse_def by (metis outcome_as_str.simps)
qed

definition redacted :: "AuditEvent \<Rightarrow> AuditEvent" where
  "redacted e =
     e\<lparr>ae_summary := redact (ae_summary e), ae_command := map_option redact (ae_command e),
       ae_result_excerpt := map_option redact (ae_result_excerpt e)\<rparr>"

lemma event_round_trip [simp]: "event_of_row (row_of_event e) = redacted e"
  by (simp add: event_of_row_def row_of_event_def redacted_def)

lemma row_of_event_sel [simp]:
  "au_id (row_of_event e) = ae_id e" "au_server_id (row_of_event e) = ae_server_id e"
  "au_created_at (row_of_event e) = ae_created_at e"
  by (simp_all add: row_of_event_def)

lemma record_event_cases:
  "record_event fault refusal e db = (Inr (), db\<lparr>db_audit := db_audit db @ [row_of_event e]\<rparr>) \<and> fault = None \<and>
     ae_id e \<notin> au_id ` set (db_audit db) \<and> (\<forall>i. ae_server_id e = Some i \<longrightarrow> i \<in> known_ids db) \<or>
   (\<exists>err. record_event fault refusal e db = (Inl (Storage err), db))"
  by (auto simp: record_event_def known_ids_def list_ex_iff find_server_None split: option.splits)

lemma record_event_okD:
  assumes "fst (record_event fault refusal e db) = Inr ()"
  shows "snd (record_event fault refusal e db) = db\<lparr>db_audit := db_audit db @ [row_of_event e]\<rparr>"
    and "ae_id e \<notin> au_id ` set (db_audit db)" and "\<forall>i. ae_server_id e = Some i \<longrightarrow> i \<in> known_ids db"
  using assms record_event_cases [of fault refusal e db] by auto

lemma record_event_ok: "db_ok db \<Longrightarrow> db_ok (snd (record_event fault refusal e db))"
  using record_event_cases [of fault refusal e db]
  by (auto simp: db_ok_def known_ids_def intro!: audit_rows.ok_insert split: option.split)

lemma mset_newest_first [simp]: "mset (newest_first rows) = mset rows"
  by (simp add: newest_first_def)

lemma newest_first_sorted: "sorted_wrt (\<lambda>r q. au_created_at q \<le> au_created_at r) (newest_first rows)"
proof -
  have "sorted (map (\<lambda>r. - au_created_at r) (newest_first rows))" by (simp add: newest_first_def)
  then show ?thesis by (simp add: sorted_map)
qed

lemma limit_rows_bounds: "1 \<le> limit_rows l" "limit_rows l \<le> 1000"
  by (simp_all add: limit_rows_def)

lemma take_chars_prefix: "prefix (take_chars n s) s"
  by (induction n s rule: take_chars.induct) (auto split: nat.split)

lemma take_chars_count: "length (filter (\<lambda>c. \<not> cont_byte c) (take_chars n s)) \<le> n"
  by (induction n s rule: take_chars.induct) (auto split: nat.split)

section \<open>Properties\<close>

text \<open>Reading the ledger: the answer holds, newest first, the stored rows about the server (all rows when no server is named), as many as there are up to the limit, which is forced into 1..1000; and no row that was left out is newer than one that was returned.\<close>

theorem recent_is_newest:
  "\<exists>shown rest. recent None server_id limit db = Inr (map event_of_row shown) \<and>
     mset (shown @ rest) = mset (filter (about_server server_id) (db_audit db)) \<and>
     sorted_wrt (\<lambda>r q. au_created_at q \<le> au_created_at r) (shown @ rest) \<and>
     length shown = min (limit_rows limit) (length (filter (about_server server_id) (db_audit db)))"
proof -
  let ?rows = "filter (about_server server_id) (db_audit db)"
  let ?s = "take (limit_rows limit) (newest_first ?rows)" and ?r = "drop (limit_rows limit) (newest_first ?rows)"
  have "length (newest_first ?rows) = length ?rows" by (simp add: newest_first_def)
  moreover have "?s @ ?r = newest_first ?rows" by simp
  ultimately have "recent None server_id limit db = Inr (map event_of_row ?s) \<and>
     mset (?s @ ?r) = mset ?rows \<and> sorted_wrt (\<lambda>r q. au_created_at q \<le> au_created_at r) (?s @ ?r) \<and>
     length ?s = min (limit_rows limit) (length ?rows)"
    using newest_first_sorted [of ?rows] by (simp add: recent_def min.commute)
  then show ?thesis by blast
qed

text \<open>What is recorded is read back redacted: after a successful write, a reader of that server's ledger with room for one more row finds the event with its tier and outcome as they were and with its summary, command and excerpt passed through the redactor, whoever the caller was.\<close>

theorem recorded_event_read_back:
  assumes "fst (record_event fault refusal e db) = Inr ()"
    and "length (filter (about_server (ae_server_id e)) (db_audit db)) < limit_rows limit"
    and "recent None (ae_server_id e) limit (snd (record_event fault refusal e db)) = Inr events"
  shows "e\<lparr>ae_summary := redact (ae_summary e), ae_command := map_option redact (ae_command e),
           ae_result_excerpt := map_option redact (ae_result_excerpt e)\<rparr> \<in> set events"
proof -
  let ?rows = "filter (about_server (ae_server_id e)) (db_audit db @ [row_of_event e])"
  have mine: "about_server (ae_server_id e) (row_of_event e)"
    by (simp add: about_server_def split: option.split)
  have "length (newest_first ?rows) \<le> limit_rows limit"
    using assms(2) mine by (simp add: newest_first_def)
  with assms(3) have "events = map event_of_row (newest_first ?rows)"
    by (simp add: record_event_okD(1) [OF assms(1)] recent_def)
  moreover have "row_of_event e \<in> set (newest_first ?rows)"
    using mine by (simp add: newest_first_def)
  ultimately have "redacted e \<in> set events" using image_iff by fastforce
  then show ?thesis by (simp add: redacted_def)
qed

definition demo_event :: AuditEvent where
  "demo_event = with_result (Some 0) ''PGPASSWORD=swordfish accepted'' 10
     (with_command ''psql postgres://app:hunter2@db:5432/prod'' (audit_event_new ''e1'' 7 None ''exec'' ''connect to db'' Low Success))"

theorem recorded_event_read_back_witness:
  "\<exists>events. recent None None 10 (snd (record_event None [] demo_event db_empty)) = Inr events \<and>
     demo_event\<lparr>ae_summary := redact (ae_summary demo_event), ae_command := map_option redact (ae_command demo_event),
       ae_result_excerpt := map_option redact (ae_result_excerpt demo_event)\<rparr> \<in> set events"
proof -
  have i: "ae_server_id demo_event = None"
    by (simp add: demo_event_def with_result_def with_command_def audit_event_new_def)
  obtain events where r: "recent None None 10 (snd (record_event None [] demo_event db_empty)) = Inr events"
    by (simp add: recent_def)
  have "fst (record_event None [] demo_event db_empty) = Inr ()"
    by (simp add: record_event_def db_empty_def i)
  then show ?thesis
    using recorded_event_read_back [of None "[]" demo_event db_empty 10 events] r
    by (simp add: i db_empty_def limit_rows_def)
qed

end
