(* ===== verification/Snapshots.thy ===== *)
theory Snapshots
  imports App_Database Telemetry_Types Rust_Text
begin

text \<open>
  crates/kyvon-storage/src/snapshots.rs: documents of a host's configuration, the list of changes
  between two of them, and their repository. The JSON codec of a document is an argument. The ordered
  maps of \<open>diff\<close> are the sorted association lists of Prelude: the last entry under a key wins, and
  iteration is in the order of the keys.
\<close>

section \<open>Documents and changes\<close>

record SnapshotDocument =
  sd_services :: "ServiceInfo list"
  sd_ports :: "PortInfo list"
  sd_packages :: "rstr list"
  sd_containers :: "rstr list"
  sd_users :: "rstr list"
  sd_kernel :: rstr

record Snapshot =
  ss_id :: rstr
  ss_server_id :: rstr
  ss_label :: rstr
  ss_document :: SnapshotDocument
  ss_created_at :: TimestampMs

record Change =
  ch_kind :: rstr
  ch_subject :: rstr
  ch_previous :: "rstr option"
  ch_current :: "rstr option"

definition is_addition :: "Change \<Rightarrow> bool" where
  "is_addition c \<longleftrightarrow> ch_previous c = None \<and> ch_current c \<noteq> None"

definition is_removal :: "Change \<Rightarrow> bool" where
  "is_removal c \<longleftrightarrow> ch_previous c \<noteq> None \<and> ch_current c = None"

section \<open>The difference of two documents\<close>

type_synonym ordered = "(rstr \<times> rstr) list"

definition change_of :: "rstr \<Rightarrow> rstr \<Rightarrow> rstr option \<Rightarrow> rstr option \<Rightarrow> Change" where
  "change_of kind subject prev now = \<lparr>ch_kind = kind, ch_subject = subject, ch_previous = prev, ch_current = now\<rparr>"

definition kept_or_gone :: "rstr \<Rightarrow> ordered \<Rightarrow> rstr \<times> rstr \<Rightarrow> Change list" where
  "kept_or_gone kind b = (\<lambda>(subject, prev).
     (case map_of b subject of
        Some now \<Rightarrow> if now = prev then [] else [change_of kind subject (Some prev) (Some now)]
      | None \<Rightarrow> [change_of kind subject (Some prev) None]))"

definition added :: "rstr \<Rightarrow> ordered \<Rightarrow> rstr \<times> rstr \<Rightarrow> Change list" where
  "added kind a = (\<lambda>(subject, now). if map_of a subject = None then [change_of kind subject None (Some now)] else [])"

definition compare_kind :: "rstr \<Rightarrow> ordered \<Rightarrow> ordered \<Rightarrow> Change list" where
  "compare_kind kind a b = concat (map (kept_or_gone kind b) a) @ concat (map (added kind a) b)"

definition services_of :: "SnapshotDocument \<Rightarrow> ordered" where
  "services_of d = bt_of_list (map (\<lambda>s. (sv_unit s, sv_active_state s @ '' ('' @ sv_sub_state s @ '')'')) (sd_services d))"

definition ports_of :: "SnapshotDocument \<Rightarrow> ordered" where
  "ports_of d = bt_of_list (map (\<lambda>p. (show_nat (unat (pi_port p)) @ ''/'' @ pi_protocol p,
     (case pi_process p of Some n \<Rightarrow> n | None \<Rightarrow> ''unknown process'') @ '' on '' @ pi_address p)) (sd_ports d))"

definition list_of :: "rstr list \<Rightarrow> ordered" where
  "list_of items = bt_of_list (map (\<lambda>s. case split_once SP s of Some (name, rest) \<Rightarrow> (name, rest) | None \<Rightarrow> (s, [])) items)"

definition kernel_change :: "SnapshotDocument \<Rightarrow> SnapshotDocument \<Rightarrow> Change list" where
  "kernel_change before after =
     (if sd_kernel before \<noteq> sd_kernel after \<and> sd_kernel before \<noteq> []
      then [change_of ''kernel'' ''running kernel'' (Some (sd_kernel before)) (Some (sd_kernel after))] else [])"

definition diff :: "SnapshotDocument \<Rightarrow> SnapshotDocument \<Rightarrow> Change list" where
  "diff before after =
     compare_kind ''service'' (services_of before) (services_of after) @
     compare_kind ''port'' (ports_of before) (ports_of after) @
     compare_kind ''package'' (list_of (sd_packages before)) (list_of (sd_packages after)) @
     compare_kind ''container'' (list_of (sd_containers before)) (list_of (sd_containers after)) @
     compare_kind ''user'' (list_of (sd_users before)) (list_of (sd_users after)) @
     kernel_change before after"

section \<open>The repository\<close>

record document_codec =
  enc_document :: "SnapshotDocument \<Rightarrow> rstr result"
  dec_document :: "rstr \<Rightarrow> SnapshotDocument result"

definition create_snapshot :: "document_codec \<Rightarrow> db_fault \<Rightarrow> rstr \<Rightarrow> Snapshot \<Rightarrow> Database \<Rightarrow> unit result \<times> Database" where
  "create_snapshot codec fault refusal s db =
     (case enc_document codec (ss_document s) of
        Inl e \<Rightarrow> (Inl e, db)
      | Inr payload \<Rightarrow>
          (case fault of
             Some e \<Rightarrow> (Inl (Storage e), db)
           | None \<Rightarrow>
               if list_ex (\<lambda>r. sn_id r = ss_id s) (db_snapshots db) \<or> find_server (ss_server_id s) (db_store db) = None
               then (Inl (Storage refusal), db)
               else (Inr (), db\<lparr>db_snapshots := db_snapshots db @
                 [\<lparr>sn_id = ss_id s, sn_server_id = ss_server_id s, sn_label = ss_label s, sn_payload_json = payload,
                   sn_created_at = ss_created_at s\<rparr>]\<rparr>)))"

definition row_to_snapshot :: "document_codec \<Rightarrow> snapshot_row \<Rightarrow> Snapshot result" where
  "row_to_snapshot codec r =
     (case dec_document codec (sn_payload_json r) of
        Inl e \<Rightarrow> Inl e
      | Inr d \<Rightarrow> Inr \<lparr>ss_id = sn_id r, ss_server_id = sn_server_id r, ss_label = sn_label r, ss_document = d,
                        ss_created_at = sn_created_at r\<rparr>)"

definition list_snapshots :: "document_codec \<Rightarrow> db_fault \<Rightarrow> rstr \<Rightarrow> Database \<Rightarrow> Snapshot list result" where
  "list_snapshots codec fault server_id db =
     (case fault of
        Some e \<Rightarrow> Inl (Storage e)
      | None \<Rightarrow> collect_results (map (row_to_snapshot codec)
          (sort_key (\<lambda>r. - sn_created_at r) (filter (\<lambda>r. sn_server_id r = server_id) (db_snapshots db)))))"

definition get_snapshot :: "document_codec \<Rightarrow> db_fault \<Rightarrow> rstr \<Rightarrow> Database \<Rightarrow> Snapshot option result" where
  "get_snapshot codec fault i db =
     (case fault of
        Some e \<Rightarrow> Inl (Storage e)
      | None \<Rightarrow>
          (case find (\<lambda>r. sn_id r = i) (db_snapshots db) of
             None \<Rightarrow> Inr None
           | Some r \<Rightarrow> (case row_to_snapshot codec r of Inl e \<Rightarrow> Inl e | Inr s \<Rightarrow> Inr (Some s))))"

definition delete_snapshot :: "db_fault \<Rightarrow> rstr \<Rightarrow> Database \<Rightarrow> unit result \<times> Database" where
  "delete_snapshot fault i db =
     (case fault of
        Some e \<Rightarrow> (Inl (Storage e), db)
      | None \<Rightarrow> (Inr (), db\<lparr>db_snapshots := filter (\<lambda>r. sn_id r \<noteq> i) (db_snapshots db)\<rparr>))"

section \<open>Lemmas on the difference\<close>

text \<open>What a document says about a subject of a kind.\<close>

definition diff_kinds :: "rstr list" where
  "diff_kinds = [''service'', ''port'', ''package'', ''container'', ''user'']"

definition view :: "rstr \<Rightarrow> SnapshotDocument \<Rightarrow> ordered" where
  "view kind d =
     (if kind = ''service'' then services_of d
      else if kind = ''port'' then ports_of d
      else if kind = ''package'' then list_of (sd_packages d)
      else if kind = ''container'' then list_of (sd_containers d)
      else if kind = ''user'' then list_of (sd_users d)
      else [])"

lemma view_wf [simp]: "bt_wf (view kind d)"
proof -
  have "bt_wf ([] :: ordered)" by (simp add: bt_wf_def)
  then show ?thesis by (simp add: view_def services_of_def ports_of_def list_of_def)
qed

lemma diff_eq: "diff a b = concat (map (\<lambda>k. compare_kind k (view k a) (view k b)) diff_kinds) @ kernel_change a b"
  by (simp add: diff_def diff_kinds_def view_def)

lemma change_of_sel [simp]:
  "ch_kind (change_of k s p c) = k" "ch_subject (change_of k s p c) = s"
  "ch_previous (change_of k s p c) = p" "ch_current (change_of k s p c) = c"
  by (simp_all add: change_of_def)

lemma change_eq_iff: "c = change_of k s p n \<longleftrightarrow> ch_kind c = k \<and> ch_subject c = s \<and> ch_previous c = p \<and> ch_current c = n"
  by (cases c) (auto simp: change_of_def)

lemma kept_or_gone_mem:
  "c \<in> set (kept_or_gone kind b (s, v)) \<longleftrightarrow> c = change_of kind s (Some v) (map_of b s) \<and> map_of b s \<noteq> Some v"
  by (auto simp: kept_or_gone_def split: option.split)

lemma added_mem: "c \<in> set (added kind a (s, v)) \<longleftrightarrow> c = change_of kind s None (Some v) \<and> map_of a s = None"
  by (auto simp: added_def)

lemma compare_kind_mem:
  assumes "bt_wf a" and "bt_wf b"
  shows "c \<in> set (compare_kind kind a b) \<longleftrightarrow>
    c = change_of kind (ch_subject c) (map_of a (ch_subject c)) (map_of b (ch_subject c)) \<and>
    map_of a (ch_subject c) \<noteq> map_of b (ch_subject c)"
proof -
  have mem: "(s, v) \<in> set m \<longleftrightarrow> map_of m s = Some v" if "bt_wf m" for m :: ordered and s v
    using bt_wf_distinct [OF that] by simp
  have old: "c \<in> set (concat (map (kept_or_gone kind b) a)) \<longleftrightarrow>
      (\<exists>v. map_of a (ch_subject c) = Some v \<and> c = change_of kind (ch_subject c) (Some v) (map_of b (ch_subject c)) \<and>
         map_of b (ch_subject c) \<noteq> Some v)"
    (is "_ \<longleftrightarrow> ?r")
  proof -
    have "c \<in> set (concat (map (kept_or_gone kind b) a)) \<longleftrightarrow> (\<exists>s v. map_of a s = Some v \<and> c \<in> set (kept_or_gone kind b (s, v)))"
      by (auto simp flip: mem [OF assms(1)])
    also have "\<dots> \<longleftrightarrow> ?r" unfolding kept_or_gone_mem change_eq_iff by blast
    finally show ?thesis .
  qed
  have new: "c \<in> set (concat (map (added kind a) b)) \<longleftrightarrow>
      (\<exists>v. map_of b (ch_subject c) = Some v \<and> c = change_of kind (ch_subject c) None (Some v) \<and> map_of a (ch_subject c) = None)"
    (is "_ \<longleftrightarrow> ?r")
  proof -
    have "c \<in> set (concat (map (added kind a) b)) \<longleftrightarrow> (\<exists>s v. map_of b s = Some v \<and> c \<in> set (added kind a (s, v)))"
      by (auto simp flip: mem [OF assms(2)])
    also have "\<dots> \<longleftrightarrow> ?r" unfolding added_mem change_eq_iff by blast
    finally show ?thesis .
  qed
  show ?thesis
    unfolding compare_kind_def set_append Un_iff old new change_eq_iff
    by (cases "map_of a (ch_subject c)"; cases "map_of b (ch_subject c)") (simp_all, blast)
qed

lemma kept_or_gone_subjects: "subseq (map ch_subject (concat (map (kept_or_gone kind b) a))) (map fst a)"
  by (induction a) (auto simp: kept_or_gone_def split: option.splits)

lemma added_subjects: "subseq (map ch_subject (concat (map (added kind a) b))) (map fst b)"
  by (induction b) (auto simp: added_def)

lemma compare_kind_distinct:
  assumes "bt_wf a" and "bt_wf b"
  shows "distinct (map ch_subject (compare_kind kind a b))"
proof -
  let ?old = "concat (map (kept_or_gone kind b) a)" and ?new = "concat (map (added kind a) b)"
  have d: "distinct (map ch_subject ?old)" "distinct (map ch_subject ?new)"
    by (rule subseq_distinct, rule kept_or_gone_subjects, rule bt_wf_distinct, rule assms)
      (rule subseq_distinct, rule added_subjects, rule bt_wf_distinct, rule assms)
  have "map_of a (ch_subject c) \<noteq> None" if "c \<in> set ?old" for c
    using that by (auto simp: kept_or_gone_mem map_of_eq_None_iff intro: rev_image_eqI)
  moreover have "map_of a (ch_subject c) = None" if "c \<in> set ?new" for c
    using that by (auto simp: added_mem)
  ultimately have "ch_subject c \<noteq> ch_subject c'" if "c \<in> set ?old" "c' \<in> set ?new" for c c'
    using that by fastforce
  then have "set (map ch_subject ?old) \<inter> set (map ch_subject ?new) = {}"
    unfolding set_map by blast
  with d show ?thesis unfolding compare_kind_def map_append distinct_append by blast
qed

text \<open>Reading a list of changes: what it says about a subject, and otherwise what was known before.\<close>

definition apply_changes :: "Change list \<Rightarrow> (rstr \<Rightarrow> rstr \<Rightarrow> rstr option) \<Rightarrow> rstr \<Rightarrow> rstr \<Rightarrow> rstr option" where
  "apply_changes cs before kind subject =
     (case find (\<lambda>c. ch_kind c = kind \<and> ch_subject c = subject) cs of
        Some c \<Rightarrow> ch_current c
      | None \<Rightarrow> before kind subject)"

lemma diff_mem:
  "c \<in> set (diff a b) \<longleftrightarrow>
     ch_kind c \<in> set diff_kinds \<and>
       c = change_of (ch_kind c) (ch_subject c) (map_of (view (ch_kind c) a) (ch_subject c)) (map_of (view (ch_kind c) b) (ch_subject c)) \<and>
       map_of (view (ch_kind c) a) (ch_subject c) \<noteq> map_of (view (ch_kind c) b) (ch_subject c) \<or>
     c \<in> set (kernel_change a b)"
proof -
  have "c \<in> set (compare_kind k (view k a) (view k b)) \<Longrightarrow> ch_kind c = k" for k
    by (simp add: compare_kind_mem change_eq_iff)
  then have "c \<in> set (diff a b) \<longleftrightarrow>
      ch_kind c \<in> set diff_kinds \<and> c \<in> set (compare_kind (ch_kind c) (view (ch_kind c) a) (view (ch_kind c) b)) \<or>
      c \<in> set (kernel_change a b)"
    unfolding diff_eq by auto
  then show ?thesis by (simp only: compare_kind_mem view_wf)
qed

lemma kernel_change_kind: "c \<in> set (kernel_change a b) \<Longrightarrow> ch_kind c = ''kernel''"
  by (auto simp: kernel_change_def split: if_splits)

lemma kernel_not_kind: "''kernel'' \<notin> set diff_kinds"
  by (simp add: diff_kinds_def)

lemma apply_diff:
  assumes "kind \<in> set diff_kinds"
  shows "apply_changes (diff a b) (\<lambda>k. map_of (view k a)) kind subject = map_of (view kind b) subject"
proof (cases "find (\<lambda>c. ch_kind c = kind \<and> ch_subject c = subject) (diff a b)")
  case None
  let ?c = "change_of kind subject (map_of (view kind a) subject) (map_of (view kind b) subject)"
  have "?c \<notin> set (diff a b)" using None by (metis (mono_tags, lifting) change_of_sel(1,2) find_None_iff)
  then have "map_of (view kind a) subject = map_of (view kind b) subject" using assms by (simp add: diff_mem)
  with None show ?thesis by (simp add: apply_changes_def)
next
  case (Some c)
  then have "c \<in> set (diff a b)" "ch_kind c = kind" "ch_subject c = subject"
    by (auto simp: find_Some_iff)
  then have "ch_current c = map_of (view kind b) subject"
    using assms kernel_change_kind [of c a b] kernel_not_kind by (auto simp: diff_mem change_eq_iff)
  with Some show ?thesis by (simp add: apply_changes_def)
qed

lemma diff_distinct: "distinct (map (\<lambda>c. (ch_kind c, ch_subject c)) (diff a b))"
proof -
  have k: "ch_kind c = k" if "c \<in> set (compare_kind k (view k a) (view k b))" for k c
    using that by (simp add: compare_kind_mem change_eq_iff)
  have one: "distinct (map (\<lambda>c. (ch_kind c, ch_subject c)) (compare_kind k (view k a) (view k b)))" for k
    using compare_kind_distinct [of "view k a" "view k b" k] by (auto simp: distinct_map inj_on_def)
  have "distinct (map (\<lambda>c. (ch_kind c, ch_subject c)) (concat (map (\<lambda>k. compare_kind k (view k a) (view k b)) ks)))"
    if "distinct ks" for ks
    using that
  proof (induction ks)
    case (Cons x ks)
    then show ?case using one [of x] k by (fastforce simp: image_iff)
  qed simp
  moreover have "distinct diff_kinds" by (simp add: diff_kinds_def)
  moreover have "distinct (map (\<lambda>c. (ch_kind c, ch_subject c)) (kernel_change a b))" by (simp add: kernel_change_def)
  ultimately show ?thesis
    using kernel_change_kind kernel_not_kind k unfolding diff_eq map_append distinct_append
    by (intro conjI) (simp, simp, fastforce)
qed

section \<open>Lemmas on the repository\<close>

lemma create_snapshot_ok: "db_ok db \<Longrightarrow> db_ok (snd (create_snapshot codec fault refusal s db))"
  by (auto simp: create_snapshot_def db_ok_def known_ids_def list_ex_iff find_server_None
      intro!: snapshot_rows.ok_insert split: sum.split option.split)

lemma delete_snapshot_ok: "db_ok db \<Longrightarrow> db_ok (snd (delete_snapshot fault i db))"
  by (auto simp: delete_snapshot_def db_ok_def known_ids_def intro!: snapshot_rows.ok_filter split: option.split)

section \<open>Properties\<close>


text \<open>A snapshot that was stored is read back as it was, and no longer after it was deleted, provided the JSON library decodes what it encoded.\<close>

theorem snapshot_roundtrip:
  assumes "enc_document codec (ss_document s) = Inr payload" and "dec_document codec payload = Inr (ss_document s)"
    and "fst (create_snapshot codec None refusal s db) = Inr ()"
  shows "get_snapshot codec None (ss_id s) (snd (create_snapshot codec None refusal s db)) = Inr (Some s) \<and>
    get_snapshot codec None (ss_id s) (snd (delete_snapshot None (ss_id s) (snd (create_snapshot codec None refusal s db)))) = Inr None"
proof -
  let ?r = "\<lparr>sn_id = ss_id s, sn_server_id = ss_server_id s, sn_label = ss_label s, sn_payload_json = payload,
    sn_created_at = ss_created_at s\<rparr>"
  have fresh: "\<not> list_ex (\<lambda>r. sn_id r = ss_id s) (db_snapshots db)"
    and c: "snd (create_snapshot codec None refusal s db) = db\<lparr>db_snapshots := db_snapshots db @ [?r]\<rparr>"
    using assms(1,3) by (auto simp: create_snapshot_def split: if_splits)
  have miss: "\<not> list_ex P xs \<Longrightarrow> P y \<Longrightarrow> find P (xs @ [y]) = Some y" for P and y :: snapshot_row and xs
    by (induction xs) auto
  have "find (\<lambda>r. sn_id r = ss_id s) (db_snapshots db @ [?r]) = Some ?r" by (rule miss [OF fresh]) simp
  moreover have "find (\<lambda>r. sn_id r = ss_id s) (filter (\<lambda>r. sn_id r \<noteq> ss_id s) rows) = None" for rows :: "snapshot_row list"
    by (simp add: find_None_iff)
  ultimately show ?thesis
    unfolding c by (simp add: get_snapshot_def row_to_snapshot_def assms(2) delete_snapshot_def)
qed

definition demo_document :: "rstr \<Rightarrow> SnapshotDocument" where
  "demo_document k = \<lparr>sd_services = [], sd_ports = [], sd_packages = [], sd_containers = [], sd_users = [], sd_kernel = k\<rparr>"

definition demo_codec :: document_codec where
  "demo_codec = \<lparr>enc_document = (\<lambda>d. Inr (sd_kernel d)), dec_document = (\<lambda>s. Inr (demo_document s))\<rparr>"

definition demo_snapshot :: Snapshot where
  "demo_snapshot = \<lparr>ss_id = ''n1'', ss_server_id = ''s1'', ss_label = ''before'', ss_document = demo_document ''6.8.0'', ss_created_at = 5\<rparr>"

definition one_server :: Database where
  "one_server = db_empty\<lparr>db_store := store_empty\<lparr>st_servers := [new_row sample_columns 1 sample_profile]\<rparr>\<rparr>"

theorem snapshot_roundtrip_witness:
  "get_snapshot demo_codec None ''n1'' (snd (create_snapshot demo_codec None [] demo_snapshot one_server)) = Inr (Some demo_snapshot)"
proof -
  have "fst (create_snapshot demo_codec None [] demo_snapshot one_server) = Inr ()"
    by (simp add: create_snapshot_def demo_codec_def demo_snapshot_def one_server_def db_empty_def find_server_def store_empty_def
        sample_profile_def)
  from snapshot_roundtrip [OF _ _ this] show ?thesis
    by (simp add: demo_codec_def demo_snapshot_def demo_document_def)
qed

text \<open>
  Ports are keyed by number and protocol, not by address. A host on which a port that was open on the
  loopback address is opened on every interface as well shows no change when the socket list names the
  loopback one last.
\<close>

definition demo_port :: "rstr \<Rightarrow> Exposure \<Rightarrow> PortInfo" where
  "demo_port address e =
     \<lparr>pi_port = 8080, pi_protocol = ''tcp'', pi_address = address, pi_process = Some ''app'', pi_pid = None, pi_exposure = e\<rparr>"

theorem new_exposure_missed:
  "diff ((demo_document [])\<lparr>sd_ports := [demo_port ''127.0.0.1'' Loopback]\<rparr>)
     ((demo_document [])\<lparr>sd_ports := [demo_port ''0.0.0.0'' AllInterfaces, demo_port ''127.0.0.1'' Loopback]\<rparr>) = []"
proof -
  have "ports_of ((demo_document [])\<lparr>sd_ports := [demo_port ''127.0.0.1'' Loopback]\<rparr>) =
      ports_of ((demo_document [])\<lparr>sd_ports := [demo_port ''0.0.0.0'' AllInterfaces, demo_port ''127.0.0.1'' Loopback]\<rparr>)"
    by (simp add: ports_of_def demo_document_def demo_port_def bt_of_list_def)
  then have "view k ((demo_document [])\<lparr>sd_ports := [demo_port ''127.0.0.1'' Loopback]\<rparr>) =
      view k ((demo_document [])\<lparr>sd_ports := [demo_port ''0.0.0.0'' AllInterfaces, demo_port ''127.0.0.1'' Loopback]\<rparr>)" for k
    by (simp add: view_def services_of_def list_of_def demo_document_def)
  then have "c \<notin> set (diff ((demo_document [])\<lparr>sd_ports := [demo_port ''127.0.0.1'' Loopback]\<rparr>)
     ((demo_document [])\<lparr>sd_ports := [demo_port ''0.0.0.0'' AllInterfaces, demo_port ''127.0.0.1'' Loopback]\<rparr>))" for c
    unfolding diff_mem by (simp add: kernel_change_def demo_document_def)
  then show ?thesis by (metis list.set_intros(1) neq_Nil_conv)
qed

end
