(* ===== verification/Notebook.thy ===== *)
theory Notebook
  imports App_Database
begin

text \<open>
  crates/kyvon-storage/src/notes.rs and settings.rs: the operator's notebook and the typed settings.
  The JSON codec of a setting's type is an argument.
\<close>

section \<open>Notes\<close>

record Note =
  nt_id :: rstr
  nt_server_id :: rstr
  nt_section :: rstr
  nt_title :: rstr
  nt_body_md :: rstr
  nt_created_at :: TimestampMs
  nt_updated_at :: TimestampMs

definition SECTIONS :: "rstr list" where
  "SECTIONS = [''architecture'', ''deployment'', ''backup'', ''maintenance'', ''known-issues'', ''commands'',
     ''operational'', ''incidents'']"

definition note_row_of :: "TimestampMs \<Rightarrow> Note \<Rightarrow> note_row" where
  "note_row_of now n =
     \<lparr>no_id = nt_id n, no_server_id = nt_server_id n, no_section = nt_section n, no_title = nt_title n,
      no_body_md = nt_body_md n, no_created_at = (if nt_created_at n > 0 then nt_created_at n else now),
      no_updated_at = now\<rparr>"

text \<open>The conflict clause rewrites the section, the title, the body and the time, and nothing else.\<close>

definition merge_note :: "note_row \<Rightarrow> note_row \<Rightarrow> note_row" where
  "merge_note new old =
     old\<lparr>no_section := no_section new, no_title := no_title new, no_body_md := no_body_md new, no_updated_at := no_updated_at new\<rparr>"

definition upsert_note :: "db_fault \<Rightarrow> rstr \<Rightarrow> TimestampMs \<Rightarrow> Note \<Rightarrow> Database \<Rightarrow> unit result \<times> Database" where
  "upsert_note fault refusal now n db =
     (if trim (nt_title n) = [] then (Inl (Invalid ''a note needs a title''), db)
      else if nt_section n \<notin> set SECTIONS then
        (Inl (Invalid ([BQ] @ nt_section n @ [BQ] @ '' is not a notebook section; expected one of '' @ join '', '' SECTIONS)), db)
      else case fault of
        Some e \<Rightarrow> (Inl (Storage e), db)
      | None \<Rightarrow>
          if list_ex (\<lambda>r. no_id r = nt_id n) (db_notes db)
          then (Inr (), db\<lparr>db_notes := map (\<lambda>r. if no_id r = nt_id n then merge_note (note_row_of now n) r else r) (db_notes db)\<rparr>)
          else if find_server (nt_server_id n) (db_store db) = None then (Inl (Storage refusal), db)
          else (Inr (), db\<lparr>db_notes := db_notes db @ [note_row_of now n]\<rparr>))"

definition note_of_row :: "note_row \<Rightarrow> Note" where
  "note_of_row r =
     \<lparr>nt_id = no_id r, nt_server_id = no_server_id r, nt_section = no_section r, nt_title = no_title r,
      nt_body_md = no_body_md r, nt_created_at = no_created_at r, nt_updated_at = no_updated_at r\<rparr>"

definition list_notes :: "db_fault \<Rightarrow> rstr \<Rightarrow> Database \<Rightarrow> Note list result" where
  "list_notes fault server_id db =
     (case fault of
        Some e \<Rightarrow> Inl (Storage e)
      | None \<Rightarrow> Inr (map note_of_row
          (sort_key (\<lambda>r. (no_section r, - no_updated_at r)) (filter (\<lambda>r. no_server_id r = server_id) (db_notes db)))))"

definition delete_note :: "db_fault \<Rightarrow> rstr \<Rightarrow> Database \<Rightarrow> unit result \<times> Database" where
  "delete_note fault i db =
     (case fault of
        Some e \<Rightarrow> (Inl (Storage e), db)
      | None \<Rightarrow> (Inr (), db\<lparr>db_notes := filter (\<lambda>r. no_id r \<noteq> i) (db_notes db)\<rparr>))"

section \<open>Settings\<close>

record 't value_codec =
  enc_value :: "'t \<Rightarrow> rstr result"
  dec_value :: "rstr \<Rightarrow> 't option"

definition set_setting :: "'t value_codec \<Rightarrow> db_fault \<Rightarrow> TimestampMs \<Rightarrow> rstr \<Rightarrow> 't \<Rightarrow> Database \<Rightarrow> unit result \<times> Database" where
  "set_setting codec fault now key v db =
     (case enc_value codec v of
        Inl e \<Rightarrow> (Inl e, db)
      | Inr json \<Rightarrow>
          (case fault of
             Some e \<Rightarrow> (Inl (Storage e), db)
           | None \<Rightarrow>
               (let row = \<lparr>se_key = key, se_value_json = json, se_updated_at = now\<rparr> in
                (Inr (), db\<lparr>db_settings :=
                   (if list_ex (\<lambda>r. se_key r = key) (db_settings db)
                    then map (\<lambda>r. if se_key r = key then row else r) (db_settings db)
                    else db_settings db @ [row])\<rparr>))))"

definition get_setting :: "'t value_codec \<Rightarrow> db_fault \<Rightarrow> rstr \<Rightarrow> Database \<Rightarrow> 't option result" where
  "get_setting codec fault key db =
     (case fault of
        Some e \<Rightarrow> Inl (Storage e)
      | None \<Rightarrow>
          (case find (\<lambda>r. se_key r = key) (db_settings db) of
             None \<Rightarrow> Inr None
           | Some r \<Rightarrow> Inr (dec_value codec (se_value_json r))))"

definition get_setting_or :: "'t value_codec \<Rightarrow> db_fault \<Rightarrow> rstr \<Rightarrow> 't \<Rightarrow> Database \<Rightarrow> 't result" where
  "get_setting_or codec fault key dflt db =
     (case get_setting codec fault key db of
        Inl e \<Rightarrow> Inl e
      | Inr v \<Rightarrow> Inr (case v of Some x \<Rightarrow> x | None \<Rightarrow> dflt))"

section \<open>Lemmas\<close>

lemma merge_note_sel [simp]:
  "no_id (merge_note n r) = no_id r" "no_server_id (merge_note n r) = no_server_id r"
  by (simp_all add: merge_note_def)

lemma note_row_of_sel [simp]:
  "no_id (note_row_of now n) = nt_id n" "no_server_id (note_row_of now n) = nt_server_id n"
  by (simp_all add: note_row_of_def)

lemma upsert_note_ok: "db_ok db \<Longrightarrow> db_ok (snd (upsert_note fault refusal now n db))"
  by (auto simp: upsert_note_def db_ok_def known_ids_def list_ex_iff find_server_None
      intro!: note_rows.ok_insert note_rows.ok_rewrite split: option.split)

lemma delete_note_ok: "db_ok db \<Longrightarrow> db_ok (snd (delete_note fault i db))"
  by (auto simp: delete_note_def db_ok_def known_ids_def intro!: note_rows.ok_filter split: option.split)

lemma set_setting_ok: "db_ok db \<Longrightarrow> db_ok (snd (set_setting codec fault now key v db))"
proof -
  assume ok: "db_ok db"
  let ?row = "\<lambda>json. \<lparr>se_key = key, se_value_json = json, se_updated_at = now\<rparr>"
  have "map se_key (map (\<lambda>r. if se_key r = key then ?row json else r) rows) = map se_key rows" for json and rows :: "setting_row list"
    by simp
  then show ?thesis
    using ok by (auto simp: set_setting_def db_ok_def known_ids_def Let_def list_ex_iff simp del: map_map split: sum.split option.split)
qed

lemma find_after_set:
  assumes "enc_value codec v = Inr json" and "set_setting codec None now key v db = (Inr (), db')"
  shows "find (\<lambda>r. se_key r = k) (db_settings db') =
    (if k = key then Some \<lparr>se_key = key, se_value_json = json, se_updated_at = now\<rparr> else find (\<lambda>r. se_key r = k) (db_settings db))"
proof -
  let ?row = "\<lparr>se_key = key, se_value_json = json, se_updated_at = now\<rparr>"
  have other: "k \<noteq> key \<Longrightarrow> find (\<lambda>r. se_key r = k) (map (\<lambda>r. if se_key r = key then ?row else r) rows) = find (\<lambda>r. se_key r = k) rows" for rows
    by (induction rows) auto
  have hit: "list_ex (\<lambda>r. se_key r = key) rows \<Longrightarrow>
      find (\<lambda>r. se_key r = key) (map (\<lambda>r. if se_key r = key then ?row else r) rows) = Some ?row" for rows
    by (induction rows) auto
  have miss: "\<not> list_ex (\<lambda>r. se_key r = key) rows \<Longrightarrow> find (\<lambda>r. se_key r = k) (rows @ [?row]) =
      (if k = key then Some ?row else find (\<lambda>r. se_key r = k) rows)" for rows
    by (induction rows) auto
  show ?thesis using assms hit other miss by (auto simp: set_setting_def Let_def)
qed

section \<open>Properties\<close>

text \<open>Settings behave like a map: after a write the key reads as the written value, every other key as before, and a stored value that no longer decodes reads as absent, so that a caller with a default always gets a value and never an error.\<close>

theorem settings_read_back:
  assumes "set_setting codec None now key v db = (Inr (), db')"
    and "enc_value codec v = Inr json" and "dec_value codec json = Some v"
  shows "get_setting codec None k db' = (if k = key then Inr (Some v) else get_setting codec None k db) \<and>
    (\<exists>x. get_setting_or codec None k dflt db' = Inr x \<and>
       x = (case get_setting codec None k db' of Inr (Some y) \<Rightarrow> y | _ \<Rightarrow> dflt))"
proof -
  have "get_setting codec None k db' = (if k = key then Inr (Some v) else get_setting codec None k db)"
    using find_after_set [OF assms(2,1), of k] assms(3) by (simp add: get_setting_def)
  moreover have "\<exists>o'. get_setting codec None k db' = Inr o'" by (simp add: get_setting_def split: option.split)
  ultimately show ?thesis by (auto simp: get_setting_or_def split: option.split)
qed

theorem settings_read_back_witness:
  "get_setting \<lparr>enc_value = (\<lambda>s. Inr s), dec_value = (\<lambda>s. if s = [] then None else Some s)\<rparr> None ''theme''
     (snd (set_setting \<lparr>enc_value = (\<lambda>s. Inr s), dec_value = (\<lambda>s. if s = [] then None else Some s)\<rparr> None 3 ''theme'' ''dark'' db_empty)) =
   Inr (Some ''dark'')"
proof -
  let ?c = "\<lparr>enc_value = (\<lambda>s. Inr s), dec_value = (\<lambda>s. if s = [] then None else Some s)\<rparr> :: rstr value_codec"
  obtain db' where "set_setting ?c None 3 ''theme'' ''dark'' db_empty = (Inr (), db')"
    by (simp add: set_setting_def Let_def)
  with settings_read_back [OF this, of "''dark''" "''theme''" "[]"] show ?thesis by simp
qed

end
