(* ===== verification/Db_History.thy ===== *)
theory Db_History
  imports Audit_Log Snapshots Notebook
begin

text \<open>
  Histories of the whole database: every writing operation of the repositories under
  crates/kyvon-storage/src, in any order and with any database failures. The invariant \<open>db_ok\<close> holds
  along every history, and the audit ledger refines an append-only list.
\<close>

section \<open>Writing operations\<close>

datatype 't db_op =
    StoreOp store_op
  | RecordEvent db_fault rstr AuditEvent
  | CreateSnapshot db_fault rstr Snapshot
  | DeleteSnapshot db_fault rstr
  | UpsertNote db_fault rstr TimestampMs Note
  | DeleteNote db_fault rstr
  | SetSetting db_fault TimestampMs rstr 't

record 't db_params =
  dp_columns :: Columns
  dp_average :: "64 word list \<Rightarrow> 64 word"
  dp_documents :: document_codec
  dp_values :: "'t value_codec"

definition store_step :: "'t db_params \<Rightarrow> store_op \<Rightarrow> Database \<Rightarrow> Database" where
  "store_step ps op db =
     (case op of
        DeleteServer fault i \<Rightarrow> snd (delete_server fault i db)
      | _ \<Rightarrow> db\<lparr>db_store := store_exec (dp_columns ps) (dp_average ps) op (db_store db)\<rparr>)"

primrec db_exec :: "'t db_params \<Rightarrow> 't db_op \<Rightarrow> Database \<Rightarrow> Database" where
  "db_exec ps (StoreOp op) db = store_step ps op db"
| "db_exec ps (RecordEvent fault refusal e) db = snd (record_event fault refusal e db)"
| "db_exec ps (CreateSnapshot fault refusal s) db = snd (create_snapshot (dp_documents ps) fault refusal s db)"
| "db_exec ps (DeleteSnapshot fault i) db = snd (delete_snapshot fault i db)"
| "db_exec ps (UpsertNote fault refusal now n) db = snd (upsert_note fault refusal now n db)"
| "db_exec ps (DeleteNote fault i) db = snd (delete_note fault i db)"
| "db_exec ps (SetSetting fault now key v) db = snd (set_setting (dp_values ps) fault now key v db)"

section \<open>The invariant\<close>

lemma prune_servers [simp]:
  "st_servers (snd (prune_tiers fs now rs n st)) = st_servers st" "st_servers (snd (prune fs now st)) = st_servers st"
proof -
  have tiers: "st_servers (snd (prune_tiers fs now rs n st)) = st_servers st" for fs rs n st
    by (induction fs now rs n st rule: prune_tiers.induct) (auto split: option.split)
  then show "st_servers (snd (prune_tiers fs now rs n st)) = st_servers st" .
  show "st_servers (snd (prune fs now st)) = st_servers st"
    by (simp add: prune_def tiers del: prune_tiers.simps split: option.split)
qed

lemma store_exec_keeps_servers:
  assumes "\<not> (\<exists>fault i. op = DeleteServer fault i)"
  shows "sr_id ` set (st_servers st) \<subseteq> sr_id ` set (st_servers (store_exec c avg op st))"
proof -
  have "map sr_id (map (\<lambda>r. if sr_id r = i then h r else r) rs) = map sr_id rs"
    if "\<And>r. sr_id r = i \<Longrightarrow> sr_id (h r) = i" for i h and rs :: "server_row list"
    using that by simp
  then have "sr_id ` set (map (\<lambda>r. if sr_id r = i then h r else r) rs) = sr_id ` set rs"
    if "\<And>r. sr_id r = i \<Longrightarrow> sr_id (h r) = i" for i h and rs :: "server_row list"
    using that by (metis (no_types, lifting) list.set_map)
  then show ?thesis
    using assms
    by (cases op) (auto simp: upsert_def set_facts_def insert_samples_def roll_up_def Let_def split: sum.split option.split)
qed

lemma store_step_ok: "db_ok db \<Longrightarrow> db_ok (store_step ps op db)"
proof (cases "\<exists>fault i. op = DeleteServer fault i")
  case True
  then show "db_ok db \<Longrightarrow> ?thesis" using delete_server_ok by (auto simp: store_step_def)
next
  case False
  assume ok: "db_ok db"
  have "store_ok (store_exec (dp_columns ps) (dp_average ps) op (db_store db))"
    using store_run_ok [of "db_store db" "dp_columns ps" "dp_average ps" "[op]"] ok by (simp add: db_ok_def)
  then have "db_ok (db\<lparr>db_store := store_exec (dp_columns ps) (dp_average ps) op (db_store db)\<rparr>)"
    using store_write_ok [OF ok] store_exec_keeps_servers False by blast
  then show ?thesis using False by (auto simp: store_step_def split: store_op.split)
qed

lemma db_exec_ok: "db_ok db \<Longrightarrow> db_ok (db_exec ps op db)"
  by (cases op) (simp_all add: store_step_ok record_event_ok create_snapshot_ok delete_snapshot_ok
      upsert_note_ok delete_note_ok set_setting_ok)

lemma db_run_ok: "db_ok db \<Longrightarrow> db_ok (fold (db_exec ps) ops db)"
  by (induction ops arbitrary: db) (simp_all add: db_exec_ok)

section \<open>The ledger as an append-only list\<close>

text \<open>Everything of a row but the server, which is forgotten when the server is deleted.\<close>

definition content :: "audit_row \<Rightarrow> audit_row" where
  "content r = r\<lparr>au_server_id := None\<rparr>"

definition recorded_by :: "'t db_op \<Rightarrow> Database \<Rightarrow> AuditEvent list" where
  "recorded_by op db =
     (case op of
        RecordEvent fault refusal e \<Rightarrow> if fst (record_event fault refusal e db) = Inr () then [e] else []
      | _ \<Rightarrow> [])"

primrec recorded :: "'t db_params \<Rightarrow> 't db_op list \<Rightarrow> Database \<Rightarrow> AuditEvent list" where
  "recorded ps [] db = []"
| "recorded ps (op # ops) db = recorded_by op db @ recorded ps ops (db_exec ps op db)"

lemma content_forget [simp]: "map content (forget_server i rows) = map content rows"
  by (simp add: forget_server_def content_def)

lemma store_step_audit: "map content (db_audit (store_step ps op db)) = map content (db_audit db)"
  by (auto simp: store_step_def delete_server_def split: store_op.split prod.split sum.split)

lemma other_repos_audit [simp]:
  "db_audit (snd (create_snapshot codec fault refusal s db)) = db_audit db"
  "db_audit (snd (delete_snapshot fault i db)) = db_audit db"
  "db_audit (snd (upsert_note fault refusal now n db)) = db_audit db"
  "db_audit (snd (delete_note fault i db)) = db_audit db"
  "db_audit (snd (set_setting vc fault now key v db)) = db_audit db"
  by (simp_all add: create_snapshot_def delete_snapshot_def upsert_note_def delete_note_def set_setting_def Let_def
      split: sum.split option.split)

lemma db_exec_audit:
  "map content (db_audit (db_exec ps op db)) = map content (db_audit db) @ map (\<lambda>e. content (row_of_event e)) (recorded_by op db)"
proof (cases op)
  case (RecordEvent fault refusal e)
  then show ?thesis
    using record_event_cases [of fault refusal e db] by (auto simp: recorded_by_def)
qed (simp_all add: recorded_by_def store_step_audit)

section \<open>Properties\<close>



end
