(* ===== verification/Services.thy ===== *)
theory Services
  imports Audit_Log Telemetry_Commands Risk_Theorems
begin

text \<open>
  apps/desktop/src-tauri/src/commands/services.rs: listing systemd units and starting or stopping one,
  the write path validate, classify, execute, verify, audit. What a session does with a command is an
  argument: \<open>exec\<close> takes the session, the state of the remote world and the command, and returns the
  output and the next state of the world, so that a statement about that state says which commands ran
  and in which order. The identifiers, clocks and database failures of a call are the fields of \<open>audit_env\<close>.
\<close>

section \<open>Commands\<close>

type_synonym 'a message_result = "rstr + 'a"
type_synonym ('s, 'h) executor = "'s \<Rightarrow> 'h \<Rightarrow> Cmd \<Rightarrow> CommandOutput result \<times> 'h"

record audit_env =
  en_uuid :: rstr
  en_now :: TimestampMs
  en_elapsed :: u64
  en_fault :: db_fault
  en_refusal :: rstr

definition quoted :: "rstr \<Rightarrow> rstr" where
  "quoted s = [BQ] @ s @ [BQ]"

definition not_implemented :: "rstr \<Rightarrow> rstr \<Rightarrow> rstr" where
  "not_implemented operation needs =
     operation @ '' is not implemented in this build. It requires '' @ needs @
     '', which is not wired to the desktop backend yet. No change was made on the remote host.''"

definition session_for :: "'s hmap \<Rightarrow> rstr \<Rightarrow> rstr \<Rightarrow> 's message_result" where
  "session_for sessions i what =
     (case hm_get sessions i of
        Some s \<Rightarrow> Inr s
      | None \<Rightarrow> Inl (not_implemented what
          (''an established SSH session '' @ [CHR 0xE2, CHR 0x80, CHR 0x94] @ '' connect to the server first'')))"

definition systemctl :: Cmd where
  "systemctl = \<lparr>cmd_program = ''systemctl'', cmd_args = [], cmd_sudo = False\<rparr>"

definition list_units_args :: "rstr list" where
  "list_units_args = [''list-units'', ''--type=service'', ''--all'', ''--plain'', ''--no-legend'', ''--no-pager'']"

definition unit_files_args :: "rstr list" where
  "unit_files_args = [''list-unit-files'', ''--type=service'', ''--plain'', ''--no-legend'', ''--no-pager'']"

definition status_code :: "CommandOutput \<Rightarrow> rstr" where
  "status_code out = show_nat (unat (case co_exit_status out of Some s \<Rightarrow> s | None \<Rightarrow> 255))"

definition list_services :: "('s, 'h) executor \<Rightarrow> 's hmap \<Rightarrow> rstr \<Rightarrow> 'h \<Rightarrow> ServiceInfo list message_result \<times> 'h" where
  "list_services exec sessions i h =
     (case session_for sessions i (''Listing services on '' @ quoted i) of
        Inl e \<Rightarrow> (Inl e, h)
      | Inr s \<Rightarrow>
          (case exec s h (cmd_args_extend list_units_args systemctl) of
             (Inl e, h1) \<Rightarrow> (Inl (''Could not list services on '' @ quoted i @ '': '' @ display_error e), h1)
           | (Inr units, h1) \<Rightarrow>
               if \<not> success units then
                 (Inl (quoted ''systemctl'' @ '' failed on '' @ quoted i @ '' (status '' @ status_code units @ ''). '' @
                    redact (trim (co_stderr units)) @
                    '' This host may not use systemd, or the login may lack permission to query it.''), h1)
               else
                 (case parse_systemctl_units (co_stdout units) of
                    Inl e \<Rightarrow> (Inl (''Could not read the unit list from '' @ quoted i @ '': '' @ display_error e), h1)
                  | Inr services \<Rightarrow>
                      (case exec s h1 (cmd_args_extend unit_files_args systemctl) of
                         (Inl _, h2) \<Rightarrow> (Inr services, h2)
                       | (Inr files, h2) \<Rightarrow>
                           (Inr (if success files then merge_unit_enablement services (co_stdout files) else services), h2)))))"

definition unit_command :: "rstr \<Rightarrow> rstr \<Rightarrow> Cmd message_result" where
  "unit_command action service =
     (if action \<notin> {''start'', ''stop'', ''restart''} then
        Inl (quoted action @ '' is not a supported service action. Use start, stop or restart.'')
      else if trim service = [] then Inl ''A unit name is required.''
      else (case cmd_new ''systemctl'' of
              Inl e \<Rightarrow> Inl (display_error e)
            | Inr c \<Rightarrow> Inr (cmd_arg service (cmd_arg action (cmd_with_sudo c)))))"

definition assess_service_action :: "rstr \<Rightarrow> rstr \<Rightarrow> RiskAssessment message_result" where
  "assess_service_action action service =
     (case unit_command action service of Inl e \<Rightarrow> Inl e | Inr c \<Rightarrow> Inr (classify (render c)))"

definition verify_command :: "rstr \<Rightarrow> Cmd" where
  "verify_command service = cmd_arg service (cmd_args_extend list_units_args systemctl)"

definition verify :: "('s, 'h) executor \<Rightarrow> 's \<Rightarrow> rstr \<Rightarrow> 'h \<Rightarrow> ServiceInfo option \<times> 'h" where
  "verify exec s service h =
     (case exec s h (verify_command service) of
        (Inl _, h') \<Rightarrow> (None, h')
      | (Inr out, h') \<Rightarrow>
          (case parse_systemctl_units (co_stdout out) of
             Inl _ \<Rightarrow> (None, h')
           | Inr units \<Rightarrow> (find (\<lambda>u. sv_unit u = service \<or> sv_unit u = service @ ''.service'') units, h')))"

definition service_event ::
  "audit_env \<Rightarrow> rstr \<Rightarrow> rstr \<Rightarrow> rstr \<Rightarrow> RiskAssessment \<Rightarrow> Outcome \<Rightarrow> u32 option \<Rightarrow> rstr \<Rightarrow> AuditEvent" where
  "service_event env server_id summary command assessment outcome exit_status detail =
     with_result exit_status detail (en_elapsed env)
       (with_command command
         (audit_event_new (en_uuid env) (en_now env) (Some server_id) ''service_control'' summary (ra_tier assessment) outcome))"

text \<open>A ledger that cannot be written is logged and does not change the answer.\<close>

definition record_service ::
  "audit_env \<Rightarrow> rstr \<Rightarrow> rstr \<Rightarrow> rstr \<Rightarrow> RiskAssessment \<Rightarrow> Outcome \<Rightarrow> u32 option \<Rightarrow> rstr \<Rightarrow> Database \<Rightarrow> Database" where
  "record_service env server_id summary command assessment outcome exit_status detail db =
     snd (record_event (en_fault env) (en_refusal env)
       (service_event env server_id summary command assessment outcome exit_status detail) db)"

definition control ::
  "('s, 'h) executor \<Rightarrow> 's hmap \<Rightarrow> audit_env \<Rightarrow> rstr \<Rightarrow> rstr \<Rightarrow> rstr \<Rightarrow> 'h \<Rightarrow> Database \<Rightarrow>
     ServiceInfo message_result \<times> 'h \<times> Database" where
  "control exec sessions env i service action h db =
     (case session_for sessions i (action @ ''ing '' @ quoted service @ '' on '' @ quoted i) of
        Inl e \<Rightarrow> (Inl e, h, db)
      | Inr s \<Rightarrow>
     (case unit_command action service of
        Inl e \<Rightarrow> (Inl e, h, db)
      | Inr cmd \<Rightarrow>
     (let rendered = render cmd;
          assessment = classify rendered;
          summary = action @ '' '' @ service
      in case exec s h cmd of
           (Inl e, h1) \<Rightarrow>
             (Inl (''Could not '' @ action @ '' '' @ quoted service @ '' on '' @ quoted i @ '': '' @ display_error e), h1,
              record_service env i summary rendered assessment Failure None (display_error e) db)
         | (Inr out, h1) \<Rightarrow>
             if \<not> success out then
               (let detail = redact (trim (co_stderr out)) in
                (Inl (quoted (''systemctl '' @ action @ '' '' @ service) @ '' failed on '' @ quoted i @
                   '' (status '' @ status_code out @ ''). '' @ detail), h1,
                 record_service env i summary rendered assessment Failure (co_exit_status out) detail db))
             else
               (case verify exec s service h1 of (verified, h2) \<Rightarrow>
                 (let detail = (case verified of
                        Some u \<Rightarrow> sv_unit u @ '' is '' @ sv_active_state u @ ''/'' @ sv_sub_state u
                      | None \<Rightarrow> ''unit state could not be re-read after the change'');
                      outcome = (case verified of Some _ \<Rightarrow> Success | None \<Rightarrow> Unverified)
                  in ((case verified of
                         Some u \<Rightarrow> Inr u
                       | None \<Rightarrow> Inl (quoted (''systemctl '' @ action @ '' '' @ service) @ '' reported success on '' @ quoted i @
                           '', but the unit state could not be read back, so the change is unverified. Check the unit directly.'')),
                      h2, record_service env i summary rendered assessment outcome (co_exit_status out) detail db))))))"

definition start_service where
  "start_service exec sessions env i service h db = control exec sessions env i service ''start'' h db"

definition stop_service where
  "stop_service exec sessions env i service h db = control exec sessions env i service ''stop'' h db"

section \<open>Lemmas\<close>

lemma cmd_new_systemctl: "cmd_new ''systemctl'' = Inr systemctl"
  by (simp add: cmd_new_def systemctl_def program_byte_def byte_simps sublist_code)

definition unit_words :: "rstr \<Rightarrow> rstr \<Rightarrow> rstr list" where
  "unit_words action service = [''sudo'', ''-n'', ''systemctl'', action, service]"

lemma unit_command_ok:
  "unit_command action service = Inr c \<longleftrightarrow>
     action \<in> {''start'', ''stop'', ''restart''} \<and> trim service \<noteq> [] \<and>
     c = \<lparr>cmd_program = ''systemctl'', cmd_args = [action, service], cmd_sudo = True\<rparr>"
  by (auto simp: unit_command_def cmd_new_systemctl systemctl_def cmd_arg_def cmd_with_sudo_def split: if_splits)

lemma unit_command_built:
  assumes "unit_command action service = Inr c"
  shows "built c \<and> cmd_words c = unit_words action service"
proof -
  have c: "c = cmd_arg service (cmd_arg action (cmd_with_sudo systemctl))"
    using assms by (auto simp: unit_command_def cmd_new_systemctl split: if_splits)
  have "built c" unfolding c by (intro built_arg built_sudo built_new [OF cmd_new_systemctl])
  moreover have "cmd_words c = unit_words action service"
    by (simp add: c unit_words_def cmd_words_def cmd_arg_def cmd_with_sudo_def systemctl_def)
  ultimately show ?thesis ..
qed

lemma unit_words_stripped:
  "seg_words (build_segment (unit_words action service) False) = [''systemctl'', action, service]"
proof -
  have "strip_wrappers (Some ''sudo'') [''systemctl'', action, service] = (Some ''sudo'', [''systemctl'', action, service])"
    by (simp add: strip_wrappers.simps(2) is_assignment_def after_last_def WRAPPERS_def)
  moreover have "drop_sudo_options [''-n'', ''systemctl'', action, service] = [''systemctl'', action, service]"
    by simp
  ultimately show ?thesis
    by (simp add: build_segment_def unit_words_def strip_sudo)
qed

definition service_tier :: "rstr \<Rightarrow> rstr \<Rightarrow> RiskTier" where
  "service_tier action service =
     (if action \<in> {''stop'', ''restart''} \<and> starts_with service ''ssh'' then Critical
      else if action = ''stop'' then High else Medium)"

lemma systemctl_action_tier:
  "v_tier (systemctl_action ''start'' u v) = Medium" "v_tier (systemctl_action ''restart'' u v) = Medium"
  "v_tier (systemctl_action ''stop'' u v) = High"
  by (simp_all add: systemctl_action_def)

lemma classify_systemctl_tier:
  "v_tier (classify_systemctl seg v) =
     (if list_ex (\<lambda>u. starts_with u ''ssh'') (seg_operands seg) \<and> sub_or_empty seg \<in> {''restart'', ''stop'', ''disable'', ''mask''}
      then Critical else v_tier (systemctl_action (sub_or_empty seg) (join_units (seg_operands seg)) v))"
  by (simp add: classify_systemctl_def Let_def max_def del: insert_iff)

lemma systemctl_tier:
  assumes "seg_words seg = [''systemctl'', action, service]" and "action \<in> {''start'', ''stop'', ''restart''}"
  shows "v_tier (classify_segment seg) = service_tier action service"
proof -
  have p: "seg_program seg = Some ''systemctl''" using assms(1) by (simp add: seg_program_def after_last_def)
  have sub: "sub_or_empty seg = action"
    using assms by (auto simp: sub_or_empty_def seg_subcommand_def seg_args_def)
  have ops: "seg_operands seg = (if starts_with service ''-'' then [] else [service])"
    using assms by (auto simp: seg_operands_def non_flags_def seg_args_def)
  have ssh: "starts_with service ''ssh'' \<Longrightarrow> \<not> starts_with service ''-''"
    by (cases service) auto
  have "v_tier (classify_systemctl seg verdict_default) = service_tier action service"
  proof -
    consider "action = ''start''" | "action = ''stop''" | "action = ''restart''" using assms(2) by blast
    then show ?thesis
      by cases (cases "starts_with service ''ssh''",
          simp_all only: classify_systemctl_tier sub ops service_tier_def systemctl_action_tier,
          simp_all add: ssh)+
  qed
  moreover have "classify_program ''systemctl'' seg verdict_default = classify_systemctl seg verdict_default"
    by (simp add: classify_program_def)
  ultimately show ?thesis by (simp add: tier_segment p)
qed

lemma unit_command_tier:
  assumes "unit_command action service = Inr c"
  shows "ra_tier (classify (render c)) = service_tier action service"
proof -
  have "par_segments (parse (trim (render c))) = [build_segment (unit_words action service) False]"
    "ra_tier (classify (render c)) = v_tier (classify_segment (build_segment (unit_words action service) False))"
    using parse_render [of c] unit_command_built [OF assms] by (simp_all add: classify_sel tier_single_segment)
  then show ?thesis
    using systemctl_tier [OF unit_words_stripped] assms by (simp add: unit_command_ok)
qed

lemma record_service_row:
  assumes "en_fault env = None" and "en_uuid env \<notin> au_id ` set (db_audit db)" and "i \<in> known_ids db"
  shows "record_service env i summary command a outcome st detail db =
    db\<lparr>db_audit := db_audit db @ [row_of_event (service_event env i summary command a outcome st detail)]\<rparr>"
proof -
  have "ae_id (service_event env i summary command a outcome st detail) = en_uuid env"
    "ae_server_id (service_event env i summary command a outcome st detail) = Some i"
    by (simp_all add: service_event_def with_result_def with_command_def audit_event_new_def)
  moreover have "\<not> list_ex (\<lambda>r. au_id r = en_uuid env) (db_audit db)" "find_server i (db_store db) \<noteq> None"
    using assms(2,3) by (force simp: list_ex_iff find_server_None known_ids_def)+
  ultimately show ?thesis using assms(1) by (simp add: record_service_def record_event_def)
qed

lemma service_row_sel:
  "ae_server_id (service_event env i summary command a outcome st detail) = Some i"
  "au_command (row_of_event (service_event env i summary command a outcome st detail)) = Some (redact command)"
  "au_summary (row_of_event (service_event env i summary command a outcome st detail)) = redact summary"
  "au_risk_tier (row_of_event (service_event env i summary command a outcome st detail)) = tier_as_str (ra_tier a)"
  "au_outcome (row_of_event (service_event env i summary command a outcome st detail)) = outcome_as_str outcome"
  by (simp_all add: row_of_event_def service_event_def with_result_def with_command_def audit_event_new_def)

text \<open>What reaches the host: the unit command, and the query that re-reads the unit if that command reported success.\<close>

definition service_world :: "('s, 'h) executor \<Rightarrow> 's \<Rightarrow> rstr \<Rightarrow> Cmd \<Rightarrow> 'h \<Rightarrow> 'h" where
  "service_world exec s service c h =
     (case exec s h c of
        (Inl _, h1) \<Rightarrow> h1
      | (Inr out, h1) \<Rightarrow> if success out then snd (exec s h1 (verify_command service)) else h1)"

lemma verify_world: "snd (verify exec s service h) = snd (exec s h (verify_command service))"
  by (simp add: verify_def split: prod.split sum.split)

lemma verify_unit:
  "verify exec s service h = (Some u, h') \<Longrightarrow> sv_unit u = service \<or> sv_unit u = service @ ''.service''"
  by (auto simp: verify_def find_Some_iff split: prod.splits sum.splits)

lemma control_runs:
  assumes "hm_get sessions i = Some s" and "unit_command action service = Inr c"
    and "control exec sessions env i service action h db = (res, h', db')"
    and rc_def: "rc = record_service env i (action @ '' '' @ service) (render c) (classify (render c))"
  shows "h' = service_world exec s service c h \<and>
    (\<exists>outcome st detail. db' = rc outcome st detail db \<and>
       (outcome = Success \<longleftrightarrow> \<not> isl res) \<and>
       (\<forall>u. res = Inr u \<longrightarrow> sv_unit u = service \<or> sv_unit u = service @ ''.service''))"
proof -
  obtain r h1 where e: "exec s h c = (r, h1)" by fastforce
  obtain v h2 where v: "verify exec s service h1 = (v, h2)" by fastforce
  have h2: "snd (exec s h1 (verify_command service)) = h2" using verify_world [of exec s service h1] v by simp
  note run = assms(3) [unfolded control_def session_for_def assms(1,2) option.case sum.case Let_def e prod.case, folded rc_def]
  show ?thesis
  proof (cases r)
    case (Inl err)
    with run have "h' = h1" "isl res"
      "db' = rc Failure None (display_error err) db"
      by auto
    with Inl e show ?thesis by (fastforce simp: service_world_def)
  next
    case (Inr out)
    show ?thesis
    proof (cases "success out")
      case False
      with run Inr have "h' = h1" "isl res"
        "\<exists>st detail. db' = rc Failure st detail db"
        by auto
      with False Inr e show ?thesis by (fastforce simp: service_world_def)
    next
      case True
      show ?thesis
      proof (cases v)
        case None
        with run Inr True v have "h' = h2" "isl res" "\<exists>st detail. db' = rc Unverified st detail db" by auto
        with True Inr e h2 show ?thesis by (fastforce simp: service_world_def)
      next
        case (Some u)
        with run Inr True v have "h' = h2" "res = Inr u" "\<exists>st detail. db' = rc Success st detail db" by auto
        with True Inr e h2 Some v verify_unit [of exec s service h1 u h2] show ?thesis
          by (fastforce simp: service_world_def)
      qed
    qed
  qed
qed

lemma control_succeeds:
  assumes "hm_get sessions i = Some s" and "unit_command action service = Inr c"
    and "exec s h c = (Inr out, h1)" and "success out" and "verify exec s service h1 = (Some u, h2)"
  shows "\<exists>st detail. control exec sessions env i service action h db =
    (Inr u, h2, record_service env i (action @ '' '' @ service) (render c) (classify (render c)) Success st detail db)"
  using assms by (simp add: control_def session_for_def Let_def) blast

lemma control_refused:
  assumes "hm_get sessions i = None \<or> isl (unit_command action service)"
  shows "\<exists>e. control exec sessions env i service action h db = (Inl e, h, db)"
  using assms by (auto simp: control_def session_for_def isl_def split: option.split sum.split)

section \<open>Properties\<close>




definition demo_db :: Database where
  "demo_db = db_empty\<lparr>db_store := snd (upsert sample_columns None 7 sample_profile store_empty)\<rparr>"

definition demo_env :: audit_env where
  "demo_env = \<lparr>en_uuid = ''e1'', en_now = 9, en_elapsed = 412, en_fault = None, en_refusal = []\<rparr>"

text \<open>A host on which every command exits with status 0 and whose only unit has failed; its state is the list of commands it ran.\<close>

definition demo_exec :: "unit \<Rightarrow> Cmd list \<Rightarrow> Cmd \<Rightarrow> CommandOutput result \<times> Cmd list" where
  "demo_exec s h c =
     (Inr \<lparr>co_stdout = ''nginx.service loaded failed failed The web server'', co_stderr = [], co_exit_status = Some 0\<rparr>, h @ [c])"

definition nginx_start :: Cmd where
  "nginx_start = \<lparr>cmd_program = ''systemctl'', cmd_args = [''start'', ''nginx''], cmd_sudo = True\<rparr>"

lemma demo_db_known: "''s1'' \<in> known_ids demo_db" "db_audit demo_db = []"
proof -
  have "validate sample_profile = Inr ()" by code_simp
  then show "''s1'' \<in> known_ids demo_db" "db_audit demo_db = []"
    by (simp_all add: demo_db_def db_empty_def known_ids_def upsert_def store_empty_def find_server_def sample_profile_def new_row_def)
qed

lemma nginx_start_command: "unit_command ''start'' ''nginx'' = Inr nginx_start"
proof -
  have "trim ''nginx'' \<noteq> []" by code_simp
  then show ?thesis by (simp add: unit_command_ok nginx_start_def)
qed


text \<open>The unit is re-read, but its state is not compared with the one the action was meant to reach: a start after which the unit is failed is recorded and returned as a success.\<close>

theorem success_with_failed_unit:
  "\<exists>u row h'. control demo_exec [(''s1'', ())] demo_env ''s1'' ''nginx'' ''start'' [] demo_db =
     (Inr u, h', demo_db\<lparr>db_audit := [row]\<rparr>) \<and> sv_active_state u = ''failed'' \<and> au_outcome row = ''success''"
proof -
  let ?out = "\<lparr>co_stdout = ''nginx.service loaded failed failed The web server'', co_stderr = [], co_exit_status = Some 0\<rparr>"
  define found where "found = List.find (\<lambda>u. sv_unit u = ''nginx'' \<or> sv_unit u = ''nginx'' @ ''.service'')
    (List.map_filter unit_row (lines (co_stdout ?out)))"
  have "map_option sv_active_state found = Some ''failed''" unfolding found_def by code_simp
  then obtain u where u: "found = Some u" "sv_active_state u = ''failed''" by auto
  have v: "verify demo_exec () ''nginx'' h = (Some u, h @ [verify_command ''nginx''])" for h
    using u(1) by (simp add: verify_def demo_exec_def parse_systemctl_units_def found_def)
  have "demo_exec () [] nginx_start = (Inr ?out, [nginx_start])" "success ?out" "hm_get [(''s1'', ())] ''s1'' = Some ()"
    by (simp_all add: demo_exec_def success_def hm_get_def)
  from control_succeeds [OF this(3) nginx_start_command this(1,2) v]
  obtain st detail where "control demo_exec [(''s1'', ())] demo_env ''s1'' ''nginx'' ''start'' [] demo_db =
      (Inr u, [nginx_start] @ [verify_command ''nginx''],
       record_service demo_env ''s1'' (''start'' @ '' '' @ ''nginx'') (render nginx_start) (classify (render nginx_start)) Success st detail demo_db)"
    by blast
  moreover have "en_fault demo_env = None" by (simp add: demo_env_def)
  ultimately show ?thesis
    using u(2) record_service_row [of demo_env demo_db "''s1''"] demo_db_known
    by (auto simp: service_row_sel)
qed

end
