(* ===== verification/Ssh_Connect.thy ===== *)
theory Ssh_Connect
  imports Ssh_Session
begin

text \<open>
  crates/kyvon-ssh/src/session.rs, the part that opens a session: connecting, authenticating with a
  password, a key file or the identities of an agent, and the translation of failures; and the reader of
  an interactive terminal. The SSH library is an argument: \<open>transport\<close> has the calls the code makes, each
  threading the state of the remote world, so that a statement about that state says which credentials
  were offered and in which order. The signature hash that is asked for before a key is offered is part of
  the offer.
\<close>

section \<open>The library\<close>

datatype russh_error = IoTimedOut rstr | IoOther rstr | NoAuthMethod | UnknownKey | OtherError rstr

datatype dial_outcome = DialTimeout | DialFailed russh_error | DialOk

datatype 'i agent_identity = AgentKey 'i | AgentOther

record ('w, 'k, 'i) transport =
  tr_password :: "rstr \<Rightarrow> rstr \<Rightarrow> 'w \<Rightarrow> (rstr + bool) \<times> 'w"
  tr_load_key :: "rstr \<Rightarrow> rstr option \<Rightarrow> rstr + 'k"
  tr_publickey :: "rstr \<Rightarrow> 'k \<Rightarrow> 'w \<Rightarrow> (rstr + bool) \<times> 'w"
  tr_agent_connect :: "rstr option"
  tr_agent_list :: "rstr + 'i agent_identity list"
  tr_offer :: "rstr \<Rightarrow> 'i \<Rightarrow> 'w \<Rightarrow> (rstr + bool) \<times> 'w"

definition CONNECT_TIMEOUT_SECS :: u64 where
  "CONNECT_TIMEOUT_SECS = 15"

section \<open>Authentication\<close>

fun offer_identities :: "('w, 'k, 'i) transport \<Rightarrow> rstr \<Rightarrow> 'i agent_identity list \<Rightarrow> 'w \<Rightarrow> bool \<times> 'w" where
  "offer_identities tr user [] w = (False, w)"
| "offer_identities tr user (AgentOther # rest) w = offer_identities tr user rest w"
| "offer_identities tr user (AgentKey i # rest) w =
     (case tr_offer tr user i w of
        (Inr True, w') \<Rightarrow> (True, w')
      | (_, w') \<Rightarrow> offer_identities tr user rest w')"

definition authenticate_via_agent :: "('w, 'k, 'i) transport \<Rightarrow> ServerProfile \<Rightarrow> 'w \<Rightarrow> bool result \<times> 'w" where
  "authenticate_via_agent tr p w =
     (case tr_agent_connect tr of
        Some e \<Rightarrow> (Inl (Vault (''could not reach an ssh-agent (SSH_AUTH_SOCK): '' @ e @
          ''. Start one, or configure a key file instead.'')), w)
      | None \<Rightarrow>
          (case tr_agent_list tr of
             Inl e \<Rightarrow> (Inl (Vault (''ssh-agent refused to list identities: '' @ e)), w)
           | Inr [] \<Rightarrow> (Inl (Vault (''the ssh-agent is running but holds no identities '' @ [CHR 0xE2, CHR 0x80, CHR 0x94] @
               '' add one with `ssh-add`'')), w)
           | Inr identities \<Rightarrow>
               (case offer_identities tr (sp_username p) identities w of (ok, w') \<Rightarrow> (Inr ok, w'))))"

definition key_error :: "rstr \<Rightarrow> rstr \<Rightarrow> KyvonError" where
  "key_error path msg =
     (if contains msg ''passphrase'' \<or> contains msg ''decrypt''
      then Vault (''the key at '' @ path @ '' is encrypted and the stored passphrase did not open it'')
      else Invalid (''could not read the private key at '' @ path @ '': '' @ msg))"

definition transport_result :: "(rstr + bool) \<times> 'w \<Rightarrow> bool result \<times> 'w" where
  "transport_result r = (case r of (Inl e, w) \<Rightarrow> (Inl (Transport e), w) | (Inr b, w) \<Rightarrow> (Inr b, w))"

definition try_credentials :: "('w, 'k, 'i) transport \<Rightarrow> ServerProfile \<Rightarrow> rstr option \<Rightarrow> 'w \<Rightarrow> bool result \<times> 'w" where
  "try_credentials tr p secret w =
     (case sp_auth p of
        Password \<Rightarrow>
          (case secret of
             None \<Rightarrow> (Inl (Vault (''no password is stored for '' @ sp_alias p @ '' '' @ [CHR 0xE2, CHR 0x80, CHR 0x94] @
               '' open the server'' @ [SQ] @ ''s connection settings to set one'')), w)
           | Some pw \<Rightarrow> transport_result (tr_password tr (sp_username p) pw w))
      | PrivateKey path _ \<Rightarrow>
          (case tr_load_key tr path secret of
             Inl msg \<Rightarrow> (Inl (key_error path msg), w)
           | Inr k \<Rightarrow> transport_result (tr_publickey tr (sp_username p) k w))
      | Agent \<Rightarrow> authenticate_via_agent tr p w)"

definition authenticate :: "('w, 'k, 'i) transport \<Rightarrow> ServerProfile \<Rightarrow> rstr option \<Rightarrow> 'w \<Rightarrow> unit result \<times> 'w" where
  "authenticate tr p secret w =
     (case try_credentials tr p secret w of
        (Inl e, w') \<Rightarrow> (Inl e, w')
      | (Inr ok, w') \<Rightarrow>
          (if ok then Inr () else Inl (AuthFailed (sp_hostname p) (sp_username p) (auth_label (sp_auth p))), w'))"

section \<open>Connecting\<close>

definition map_connect_error :: "ServerProfile \<Rightarrow> russh_error \<Rightarrow> KyvonError" where
  "map_connect_error p e =
     (case e of
        IoTimedOut _ \<Rightarrow> ConnectTimeout (sp_hostname p) CONNECT_TIMEOUT_SECS
      | IoOther msg \<Rightarrow> Unreachable (sp_hostname p) (sp_port p) msg
      | NoAuthMethod \<Rightarrow> HostKeyUntrusted (sp_hostname p) []
      | UnknownKey \<Rightarrow> HostKeyUntrusted (sp_hostname p) []
      | OtherError msg \<Rightarrow> Transport msg)"

text \<open>The handshake is run only for a valid profile; the session is the profile it was opened with.\<close>

definition session_connect ::
  "('w, 'k, 'i) transport \<Rightarrow> dial_outcome \<Rightarrow> ServerProfile \<Rightarrow> rstr option \<Rightarrow> 'w \<Rightarrow> ServerProfile result \<times> 'w" where
  "session_connect tr dialled p secret w =
     (case validate p of
        Inl e \<Rightarrow> (Inl e, w)
      | Inr _ \<Rightarrow>
          (case dialled of
             DialTimeout \<Rightarrow> (Inl (ConnectTimeout (sp_hostname p) CONNECT_TIMEOUT_SECS), w)
           | DialFailed e \<Rightarrow> (Inl (map_connect_error p e), w)
           | DialOk \<Rightarrow>
               (case authenticate tr p secret w of
                  (Inl e, w') \<Rightarrow> (Inl e, w')
                | (Inr _, w') \<Rightarrow> (Inr p, w'))))"

section \<open>Terminals\<close>

datatype TerminalItem = Bytes rstr | TermExited "u32 option"

fun terminal_loop :: "ChannelMsg list \<Rightarrow> TerminalItem list" where
  "terminal_loop [] = [TermExited None]"
| "terminal_loop (Data d # ms) = Bytes d # terminal_loop ms"
| "terminal_loop (ExtendedData d ext # ms) = Bytes d # terminal_loop ms"
| "terminal_loop (ExitStatus s # ms) = TermExited (Some s) # terminal_loop ms"
| "terminal_loop (Eof # ms) = [TermExited None]"
| "terminal_loop (Close # ms) = [TermExited None]"
| "terminal_loop (OtherMsg # ms) = terminal_loop ms"

section \<open>Lemmas\<close>

text \<open>The public keys of an agent, in its order, up to the first that is accepted.\<close>

fun agent_keys :: "'i agent_identity list \<Rightarrow> 'i list" where
  "agent_keys [] = []"
| "agent_keys (AgentKey i # rest) = i # agent_keys rest"
| "agent_keys (AgentOther # rest) = agent_keys rest"

definition up_to_first :: "('a \<Rightarrow> bool) \<Rightarrow> 'a list \<Rightarrow> 'a list" where
  "up_to_first p xs = takeWhile (\<lambda>x. \<not> p x) xs @ take 1 (dropWhile (\<lambda>x. \<not> p x) xs)"

lemma up_to_first_simps [simp]:
  "up_to_first p [] = []" "up_to_first p (x # xs) = (if p x then [x] else x # up_to_first p xs)"
  by (simp_all add: up_to_first_def)

text \<open>A server whose answer to a key depends on the key only, and that keeps a log of the keys it was offered.\<close>

definition logs_offers :: "('i list, 'k, 'i) transport \<Rightarrow> ('i \<Rightarrow> rstr + bool) \<Rightarrow> bool" where
  "logs_offers tr answer \<longleftrightarrow> (\<forall>user i w. tr_offer tr user i w = (answer i, w @ [i]))"

lemma offer_identities_log:
  assumes "logs_offers tr answer"
  shows "offer_identities tr user ids w =
    (list_ex (\<lambda>i. answer i = Inr True) (agent_keys ids), w @ up_to_first (\<lambda>i. answer i = Inr True) (agent_keys ids))"
proof (induction ids arbitrary: w)
  case (Cons x rest)
  show ?case
  proof (cases x)
    case (AgentKey i)
    with Cons assms show ?thesis
      by (auto simp: logs_offers_def split: sum.split bool.split)
  qed (simp add: Cons)
qed simp

text \<open>No credential is offered unless the profile is valid and the handshake succeeded.\<close>

lemma session_connect_untouched: "dialled \<noteq> DialOk \<Longrightarrow> \<exists>e. session_connect tr dialled p secret w = (Inl e, w)"
  by (auto simp: session_connect_def split: sum.split dial_outcome.split)

lemma session_connect_okD:
  "session_connect tr dialled p secret w = (Inr s, w') \<Longrightarrow>
     s = p \<and> dialled = DialOk \<and> validate p = Inr () \<and> try_credentials tr p secret w = (Inr True, w')"
  by (auto simp: session_connect_def authenticate_def split: sum.splits dial_outcome.splits prod.splits if_splits)

fun data_before_end :: "ChannelMsg list \<Rightarrow> rstr" where
  "data_before_end [] = []"
| "data_before_end (m # ms) =
     (case m of Data d \<Rightarrow> d @ data_before_end ms | ExtendedData d _ \<Rightarrow> d @ data_before_end ms
      | Eof \<Rightarrow> [] | Close \<Rightarrow> [] | _ \<Rightarrow> data_before_end ms)"

fun item_bytes :: "TerminalItem \<Rightarrow> rstr" where
  "item_bytes (Bytes b) = b"
| "item_bytes (TermExited s) = []"

lemma terminal_bytes: "concat (map item_bytes (terminal_loop ms)) = data_before_end ms"
  by (induction ms rule: terminal_loop.induct) simp_all

lemma terminal_last: "terminal_loop ms \<noteq> [] \<and> last (terminal_loop ms) = TermExited None"
  by (induction ms rule: terminal_loop.induct) simp_all

section \<open>Properties\<close>


definition demo_transport :: "(nat list, unit, nat) transport" where
  "demo_transport = \<lparr>tr_password = (\<lambda>u pw w. (Inr False, w)), tr_load_key = (\<lambda>f s. Inr ()), tr_publickey = (\<lambda>u k w. (Inr False, w)),
     tr_agent_connect = None, tr_agent_list = Inr [AgentKey 1, AgentOther, AgentKey 2, AgentKey 3],
     tr_offer = (\<lambda>u i w. (Inr (i = 2), w @ [i]))\<rparr>"

definition agent_profile :: ServerProfile where
  "agent_profile = \<lparr>sp_id = ''s1'', sp_alias = ''web'', sp_hostname = ''10.0.0.5'', sp_port = 22, sp_username = ''deploy'',
     sp_auth = Agent, sp_tags = [], sp_facts = None, sp_created_at = 0, sp_updated_at = 0\<rparr>"


text \<open>
  The command reader stops at the end-of-file message, although that message only ends the data: an exit
  status that arrives after it is not seen, and a command that succeeded counts as failed.
\<close>

theorem eof_hides_exit_status:
  "co_exit_status (exec_output [Data ''ok'', ExitStatus 0, Eof, Close]) = Some 0 \<and>
   co_exit_status (exec_output [Data ''ok'', Eof, ExitStatus 0, Close]) = None \<and>
   \<not> success (exec_output [Data ''ok'', Eof, ExitStatus 0, Close])"
  by (simp add: exec_output_def exec_start_def append_capped_def MAX_EXEC_OUTPUT_def success_def Let_def)

text \<open>A host key that changed and one that was never seen end in the same error; the error for a changed key is not produced.\<close>

theorem mismatch_never_reported:
  "fst (session_connect tr (DialFailed e) p secret w) \<noteq> Inl (HostKeyMismatch h a b)"
  by (auto simp: session_connect_def map_connect_error_def validate_def split: russh_error.split AuthMethod.split)

end
