(* ===== verification/Keychain.thy ===== *)
theory Keychain
  imports Core_Types
begin

text \<open>
  crates/kyvon-ssh/src/vault.rs: secrets in the credential store of the platform. The store is a map
  from account names to secrets; what it reports, other than a missing entry, is an argument of each call.
\<close>

section \<open>The vault\<close>

datatype SecretKind = LoginPassword | KeyPassphrase

primrec suffix_of :: "SecretKind \<Rightarrow> rstr" where
  "suffix_of LoginPassword = ''password''"
| "suffix_of KeyPassphrase = ''key-passphrase''"

type_synonym keychain = "rstr hmap"
type_synonym vault_fault = "rstr option"

definition vault_entry :: "rstr \<Rightarrow> SecretKind \<Rightarrow> rstr" where
  "vault_entry server_id kind = server_id @ ''/'' @ suffix_of kind"

definition vault_store :: "vault_fault \<Rightarrow> rstr \<Rightarrow> SecretKind \<Rightarrow> rstr \<Rightarrow> keychain \<Rightarrow> unit result \<times> keychain" where
  "vault_store fault server_id kind secret k =
     (case fault of
        Some e \<Rightarrow> (Inl (Vault e), k)
      | None \<Rightarrow> (Inr (), hm_insert (vault_entry server_id kind) secret k))"

definition vault_get :: "vault_fault \<Rightarrow> rstr \<Rightarrow> SecretKind \<Rightarrow> keychain \<Rightarrow> rstr option result" where
  "vault_get fault server_id kind k =
     (case fault of Some e \<Rightarrow> Inl (Vault e) | None \<Rightarrow> Inr (hm_get k (vault_entry server_id kind)))"

definition vault_delete :: "vault_fault \<Rightarrow> rstr \<Rightarrow> SecretKind \<Rightarrow> keychain \<Rightarrow> unit result \<times> keychain" where
  "vault_delete fault server_id kind k =
     (case fault of
        Some e \<Rightarrow> (Inl (Vault e), k)
      | None \<Rightarrow> (Inr (), hm_remove (vault_entry server_id kind) k))"

definition vault_delete_all :: "vault_fault \<times> vault_fault \<Rightarrow> rstr \<Rightarrow> keychain \<Rightarrow> unit result \<times> keychain" where
  "vault_delete_all faults server_id k =
     (case vault_delete (fst faults) server_id LoginPassword k of
        (Inl e, k') \<Rightarrow> (Inl e, k')
      | (Inr _, k') \<Rightarrow> vault_delete (snd faults) server_id KeyPassphrase k')"

section \<open>Secrets of different servers are apart\<close>

lemma vault_entry_inj: "vault_entry i kind = vault_entry j kind' \<longleftrightarrow> i = j \<and> kind = kind'"
proof
  assume eq: "vault_entry i kind = vault_entry j kind'"
  have a: "after_last (CHR ''/'') (vault_entry x k) = suffix_of k" for x k
    by (cases k) (simp_all add: vault_entry_def after_last_def)
  from eq a have "suffix_of kind = suffix_of kind'" by metis
  then have "kind = kind'" by (cases kind; cases kind') simp_all
  with eq show "i = j \<and> kind = kind'" by (simp add: vault_entry_def)
qed simp

lemma vault_get_store:
  "vault_get None j kind' (snd (vault_store None i kind s k)) =
     (if j = i \<and> kind' = kind then Inr (Some s) else vault_get None j kind' k)"
  by (simp add: vault_get_def vault_store_def vault_entry_inj)

lemma vault_get_delete_all:
  "vault_get None j kind (snd (vault_delete_all (None, None) i k)) = (if j = i then Inr None else vault_get None j kind k)"
  by (cases kind) (simp_all add: vault_get_def vault_delete_all_def vault_delete_def vault_entry_inj)

end
