(* ===== verification/Discovery.thy ===== *)
theory Discovery
  imports Ssh_Session Rust_Text
begin

text \<open>
  crates/kyvon-ssh/src/discovery.rs: the probe of a new host. The script is modelled by the lines it
  prints: \<open>ProbeHost\<close> says what its commands find, \<open>probe_report\<close> which keys it writes and in which order,
  and \<open>probe_output\<close> the text. The interpretation of that text is \<open>parse_probe\<close>. The \<open>Debug\<close> form of a
  string, used for the evidence of a provider only, is an argument (it depends on a table of printable
  characters), and so is the clock.
\<close>

section \<open>The script\<close>

record ProbeHost =
  ph_os_id :: rstr
  ph_os_name :: rstr
  ph_os_version :: rstr
  ph_uname_m :: rstr
  ph_uname_r :: rstr
  ph_uname_n :: rstr
  ph_cores :: rstr
  ph_mem_total_kb :: rstr
  ph_uptime_secs :: rstr
  ph_command :: "rstr \<Rightarrow> bool"
  ph_proc :: bool
  ph_btf :: bool
  ph_sudo :: bool
  ph_version :: "rstr \<Rightarrow> rstr"
  ph_dmi_vendor :: rstr
  ph_dmi_product :: rstr

definition PACKAGE_MANAGERS :: "rstr list" where
  "PACKAGE_MANAGERS = [''apt-get'', ''dnf'', ''yum'', ''apk'', ''pacman'', ''zypper'']"

definition PROBED_COMMANDS :: "rstr list" where
  "PROBED_COMMANDS = [''systemctl'', ''journalctl'', ''docker'', ''ss'', ''ip'', ''ufw'', ''firewall-cmd'', ''nft'', ''iptables'',
     ''nginx'', ''httpd'', ''apache2'', ''psql'', ''mysql'', ''mariadb'', ''redis-cli'', ''node'', ''php'', ''python3'']"

definition VERSIONED :: "rstr list" where
  "VERSIONED = [''docker'', ''nginx'', ''node'', ''php'', ''psql'']"

definition bit_text :: "bool \<Rightarrow> rstr" where
  "bit_text b = (if b then ''1'' else ''0'')"

definition probe_report :: "ProbeHost \<Rightarrow> (rstr \<times> rstr) list" where
  "probe_report h =
     [(''os.id'', ph_os_id h), (''os.name'', ph_os_name h), (''os.version'', ph_os_version h),
      (''uname.m'', ph_uname_m h), (''uname.r'', ph_uname_r h), (''uname.n'', ph_uname_n h),
      (''cpu.cores'', ph_cores h), (''mem.total_kb'', ph_mem_total_kb h), (''uptime.secs'', ph_uptime_secs h)] @
     (case find (ph_command h) PACKAGE_MANAGERS of Some c \<Rightarrow> [(''pkg.manager'', c)] | None \<Rightarrow> []) @
     map (\<lambda>c. (''cap.'' @ c, bit_text (ph_command h c))) PROBED_COMMANDS @
     [(''cap.proc'', bit_text (ph_proc h)), (''cap.ebpf'', bit_text (ph_btf h)), (''cap.sudo_nopasswd'', bit_text (ph_sudo h))] @
     map (\<lambda>c. (''ver.'' @ c, ph_version h c)) (filter (ph_command h) VERSIONED) @
     [(''dmi.vendor'', ph_dmi_vendor h), (''dmi.product'', ph_dmi_product h)]"

definition probe_line :: "rstr \<times> rstr \<Rightarrow> rstr" where
  "probe_line kv = fst kv @ ''='' @ snd kv"

definition probe_output :: "ProbeHost \<Rightarrow> rstr" where
  "probe_output h = concat (map (\<lambda>l. l @ [NL]) (map probe_line (probe_report h)))"

section \<open>Reading the report\<close>

definition report_entry :: "rstr \<Rightarrow> (rstr \<times> rstr) option" where
  "report_entry line = map_option (\<lambda>(k, v). (trim k, trim v)) (split_once (CHR ''='') line)"

definition report_map :: "rstr \<Rightarrow> (rstr \<times> rstr) list" where
  "report_map output = bt_of_list (List.map_filter report_entry (lines output))"

definition kv_get :: "(rstr \<times> rstr) list \<Rightarrow> rstr \<Rightarrow> rstr" where
  "kv_get kv k = (case map_of kv k of Some v \<Rightarrow> v | None \<Rightarrow> [])"

definition kv_num :: "(rstr \<times> rstr) list \<Rightarrow> rstr \<Rightarrow> u64" where
  "kv_num kv k = (case Option.bind (map_of kv k) parse_u64 of Some n \<Rightarrow> n | None \<Rightarrow> 0)"

definition kv_flag :: "(rstr \<times> rstr) list \<Rightarrow> rstr \<Rightarrow> bool" where
  "kv_flag kv k = (case map_of kv k of Some v \<Rightarrow> v = ''1'' | None \<Rightarrow> False)"

definition CAPABILITY_MAP :: "(rstr \<times> rstr) list" where
  "CAPABILITY_MAP =
     [(''systemd'', ''systemctl''), (''journalctl'', ''journalctl''), (''docker'', ''docker''), (''ss'', ''ss''),
      (''ip'', ''ip''), (''ufw'', ''ufw''), (''firewalld'', ''firewall-cmd''), (''nftables'', ''nft''),
      (''iptables'', ''iptables''), (''nginx'', ''nginx''), (''postgres'', ''psql''), (''redis'', ''redis-cli''),
      (''node'', ''node''), (''php'', ''php''), (''python'', ''python3'')]"

definition normalise_package_manager :: "rstr \<Rightarrow> rstr" where
  "normalise_package_manager raw = (if raw = ''apt-get'' then ''apt'' else raw)"

definition cloud_provider :: "rstr \<Rightarrow> rstr \<Rightarrow> (rstr \<times> Confidence) option" where
  "cloud_provider vl pl =
     (if contains vl ''digitalocean'' then Some (''DigitalOcean'', ConfHigh)
      else if contains vl ''amazon'' \<or> contains pl ''amazon ec2'' then Some (''AWS'', ConfHigh)
      else if contains vl ''google'' then Some (''Google Cloud'', ConfHigh)
      else if contains vl ''hetzner'' then Some (''Hetzner'', ConfHigh)
      else if contains vl ''vultr'' then Some (''Vultr'', ConfHigh)
      else if contains vl ''oracle'' then Some (''Oracle Cloud'', ConfHigh)
      else if contains vl ''alibaba'' then Some (''Alibaba Cloud'', ConfHigh)
      else if contains vl ''microsoft'' \<and> contains pl ''virtual machine'' then Some (''Azure'', ConfMedium)
      else if contains vl ''openstack'' \<or> contains pl ''openstack'' then Some (''an OpenStack-based provider'', ConfLow)
      else None)"

definition detect_cloud :: "(rstr \<Rightarrow> rstr) \<Rightarrow> rstr \<Rightarrow> rstr \<Rightarrow> CloudHint option" where
  "detect_cloud dbg vendor product =
     (let v = trim vendor; p = trim product in
      if v = [] \<and> p = [] then None
      else map_option (\<lambda>(provider, confidence).
             \<lparr>ch_provider = provider, ch_confidence = confidence,
              ch_evidence = ''DMI sys_vendor='' @ dbg v @ '', product_name='' @ dbg p\<rparr>)
           (cloud_provider (to_ascii_lowercase v) (to_ascii_lowercase p)))"

definition probe_capabilities :: "(rstr \<times> rstr) list \<Rightarrow> Capabilities" where
  "probe_capabilities kv =
     (let c = fold (\<lambda>(key, name). caps_set key (kv_flag kv (''cap.'' @ name))) CAPABILITY_MAP caps_new;
          c = caps_set ''apache'' (kv_flag kv ''cap.httpd'' \<or> kv_flag kv ''cap.apache2'') c;
          c = caps_set ''mysql'' (kv_flag kv ''cap.mysql'' \<or> kv_flag kv ''cap.mariadb'') c;
          c = caps_set ''proc'' (kv_flag kv ''cap.proc'') c;
          c = caps_set ''ebpf'' (kv_flag kv ''cap.ebpf'') c
      in caps_set ''sudo_nopasswd'' (kv_flag kv ''cap.sudo_nopasswd'') c)"

definition parse_probe :: "(rstr \<Rightarrow> rstr) \<Rightarrow> TimestampMs \<Rightarrow> rstr \<Rightarrow> HostFacts" where
  "parse_probe dbg now output =
     (let kv = report_map output in
      \<lparr>hf_os_id = kv_get kv ''os.id'', hf_os_name = kv_get kv ''os.name'', hf_os_version = kv_get kv ''os.version'',
       hf_arch = kv_get kv ''uname.m'', hf_kernel = kv_get kv ''uname.r'', hf_hostname = kv_get kv ''uname.n'',
       hf_package_manager = normalise_package_manager (kv_get kv ''pkg.manager''),
       hf_cpu_cores = ucast (kv_num kv ''cpu.cores''), hf_memory_total_bytes = kv_num kv ''mem.total_kb'' * 1024,
       hf_uptime_secs = kv_num kv ''uptime.secs'',
       hf_cloud = detect_cloud dbg (kv_get kv ''dmi.vendor'') (kv_get kv ''dmi.product''),
       hf_capabilities = probe_capabilities kv, hf_probed_at = now\<rparr>)"

definition probe :: "(rstr \<Rightarrow> rstr) \<Rightarrow> TimestampMs \<Rightarrow> CommandOutput result \<Rightarrow> HostFacts result" where
  "probe dbg now exec_result = (case exec_result of Inl e \<Rightarrow> Inl e | Inr out \<Rightarrow> Inr (parse_probe dbg now (co_stdout out)))"

section \<open>The log of the checks\<close>

definition LOGGED :: "(rstr \<times> rstr) list" where
  "LOGGED =
     [(''systemd'', ''systemd''), (''docker'', ''Docker''), (''nginx'', ''Nginx''), (''apache'', ''Apache''),
      (''postgres'', ''PostgreSQL client''), (''mysql'', ''MySQL/MariaDB client''), (''redis'', ''Redis client''),
      (''ss'', ''ss (socket statistics)''), (''ufw'', ''ufw''), (''firewalld'', ''firewalld''), (''nftables'', ''nftables''),
      (''sudo_nopasswd'', ''passwordless sudo''), (''ebpf'', ''eBPF (BTF present)'')]"

definition log_entry :: "HostFacts \<Rightarrow> rstr \<times> rstr \<Rightarrow> CapabilityProbe" where
  "log_entry facts = (\<lambda>(key, label).
     (let present = caps_has (hf_capabilities facts) key in
      \<lparr>cp_key = key, cp_label = (if present then label @ '' available'' else label @ '' not present''),
       cp_present = present, cp_version = None\<rparr>))"

definition to_probe_log :: "HostFacts \<Rightarrow> CapabilityProbe list" where
  "to_probe_log facts =
     [\<lparr>cp_key = ''os'',
       cp_label = (if hf_os_name facts = [] then ''operating system could not be identified'' else hf_os_name facts @ '' detected''),
       cp_present = (hf_os_name facts \<noteq> []), cp_version = Some (hf_os_version facts)\<rparr>,
      \<lparr>cp_key = ''arch'', cp_label = hf_arch facts @ '' architecture'', cp_present = (hf_arch facts \<noteq> []), cp_version = None\<rparr>,
      \<lparr>cp_key = ''kernel'', cp_label = ''kernel '' @ hf_kernel facts, cp_present = (hf_kernel facts \<noteq> []),
       cp_version = Some (hf_kernel facts)\<rparr>] @
     map (log_entry facts) LOGGED"

section \<open>Lemmas\<close>

text \<open>The values a command substitution can hand to the report: one line, without surrounding white space.\<close>

definition clean_value :: "rstr \<Rightarrow> bool" where
  "clean_value v \<longleftrightarrow> NL \<notin> set v \<and> CR \<notin> set v \<and> trim v = v"

definition clean_key :: "rstr \<Rightarrow> bool" where
  "clean_key k \<longleftrightarrow> NL \<notin> set k \<and> CR \<notin> set k \<and> CHR ''='' \<notin> set k \<and> trim k = k"

definition ALL_KEYS :: "rstr list" where
  "ALL_KEYS =
     [''os.id'', ''os.name'', ''os.version'', ''uname.m'', ''uname.r'', ''uname.n'', ''cpu.cores'', ''mem.total_kb'', ''uptime.secs''] @
     [''pkg.manager''] @ map (\<lambda>c. ''cap.'' @ c) PROBED_COMMANDS @ [''cap.proc'', ''cap.ebpf'', ''cap.sudo_nopasswd''] @
     map (\<lambda>c. ''ver.'' @ c) VERSIONED @ [''dmi.vendor'', ''dmi.product'']"

lemma all_keys: "list_all clean_key ALL_KEYS" "distinct ALL_KEYS"
  by code_simp+

lemma report_keys: "subseq (map fst (probe_report h)) ALL_KEYS"
proof -
  have one: "subseq (map fst (case find p cs of Some c \<Rightarrow> [(k, c)] | None \<Rightarrow> [])) [k]" for p cs and k :: rstr
    by (simp split: option.split)
  have sel: "subseq (map f (filter p cs)) (map f cs)" for p cs and f :: "rstr \<Rightarrow> rstr"
    by (simp add: subseq_map)
  have caps: "map fst (map (\<lambda>c. (f c, g c)) cs) = map f cs" for cs and f g :: "rstr \<Rightarrow> rstr" by simp
  show ?thesis
    unfolding probe_report_def ALL_KEYS_def map_append caps list.map fst_conv
    by (intro list_emb_append_mono subseq_order.refl one sel)
qed

lemma report_entry_line:
  assumes "clean_key k" and "clean_value v"
  shows "report_entry (probe_line (k, v)) = Some (k, v)" and "plain_line (probe_line (k, v))"
proof -
  show "report_entry (probe_line (k, v)) = Some (k, v)"
    using assms by (simp add: report_entry_def probe_line_def split_once_append clean_key_def clean_value_def)
  have "\<not> suffix [CR] (k @ CHR ''='' # v)"
    using assms set_mono_suffix [of "[CR]" "k @ CHR ''='' # v"] by (auto simp: clean_key_def clean_value_def)
  then show "plain_line (probe_line (k, v))"
    using assms by (simp add: plain_line_def probe_line_def clean_key_def clean_value_def)
qed

definition clean_host :: "ProbeHost \<Rightarrow> bool" where
  "clean_host h \<longleftrightarrow> list_all (\<lambda>kv. clean_value (snd kv)) (probe_report h)"

lemma map_of_rev_distinct: "distinct (map fst xs) \<Longrightarrow> map_of (rev xs) = map_of xs"
proof -
  assume d: "distinct (map fst xs)"
  then have "distinct (map fst (rev xs))" by (simp add: rev_map [symmetric])
  with d show ?thesis by (intro map_of_inject_set [THEN iffD2]) simp_all
qed

lemma report_map_output:
  assumes "clean_host h"
  shows "map_of (report_map (probe_output h)) = map_of (probe_report h)"
proof -
  have keys: "distinct (map fst (probe_report h))"
    using all_keys(2) list_emb_set [OF report_keys] report_keys [of h] by (auto simp: subseq_conv_nths intro: distinct_nthsI)
  have clean: "clean_key (fst kv) \<and> clean_value (snd kv)" if "kv \<in> set (probe_report h)" for kv
  proof -
    have "fst kv \<in> set ALL_KEYS" using report_keys [of h] that by (auto simp: subseq_conv_nths dest!: arg_cong [of _ _ set] in_set_nthsD)
    then show ?thesis using all_keys(1) assms that by (auto simp: list_all_iff clean_host_def)
  qed
  have "lines (probe_output h) = map probe_line (probe_report h)"
    unfolding probe_output_def using clean report_entry_line(2) by (intro lines_concat) auto
  moreover have "List.map_filter report_entry (map probe_line kvs) = kvs"
    if "\<forall>kv \<in> set kvs. clean_key (fst kv) \<and> clean_value (snd kv)" for kvs
    using that by (induction kvs) (auto simp: map_filter_simps report_entry_line(1))
  ultimately have "List.map_filter report_entry (lines (probe_output h)) = probe_report h" using clean by simp
  then show ?thesis
    unfolding report_map_def map_of_bt_of_list using keys by (simp add: map_of_rev_distinct)
qed

lemma report_lookup:
  assumes "clean_host h" and "(k, v) \<in> set (probe_report h)"
  shows "map_of (report_map (probe_output h)) k = Some v"
proof -
  have "distinct (map fst (probe_report h))"
    using all_keys(2) report_keys [of h] by (auto simp: subseq_conv_nths intro: distinct_nthsI)
  then show ?thesis using assms by (simp add: report_map_output map_of_is_SomeI)
qed

lemma report_flags:
  assumes "clean_host h"
  shows "c \<in> set PROBED_COMMANDS \<Longrightarrow> kv_flag (report_map (probe_output h)) (''cap.'' @ c) = ph_command h c"
    and "kv_flag (report_map (probe_output h)) ''cap.proc'' = ph_proc h"
    and "kv_flag (report_map (probe_output h)) ''cap.ebpf'' = ph_btf h"
    and "kv_flag (report_map (probe_output h)) ''cap.sudo_nopasswd'' = ph_sudo h"
proof -
  have flag: "kv_flag (report_map (probe_output h)) k = b" if "(k, bit_text b) \<in> set (probe_report h)" for k b
    using report_lookup [OF assms that] by (simp add: kv_flag_def bit_text_def)
  show "c \<in> set PROBED_COMMANDS \<Longrightarrow> kv_flag (report_map (probe_output h)) (''cap.'' @ c) = ph_command h c"
    by (rule flag) (auto simp: probe_report_def)
  show "kv_flag (report_map (probe_output h)) ''cap.proc'' = ph_proc h" by (rule flag) (simp add: probe_report_def)
  show "kv_flag (report_map (probe_output h)) ''cap.ebpf'' = ph_btf h" by (rule flag) (simp add: probe_report_def)
  show "kv_flag (report_map (probe_output h)) ''cap.sudo_nopasswd'' = ph_sudo h" by (rule flag) (simp add: probe_report_def)
qed

text \<open>The programs whose presence is a capability.\<close>

definition programs_of :: "rstr \<Rightarrow> rstr list" where
  "programs_of key =
     (if key = ''apache'' then [''httpd'', ''apache2''] else if key = ''mysql'' then [''mysql'', ''mariadb'']
      else case map_of CAPABILITY_MAP key of Some c \<Rightarrow> [c] | None \<Rightarrow> [])"

definition host_has :: "ProbeHost \<Rightarrow> rstr \<Rightarrow> bool" where
  "host_has h key =
     (if key = ''sudo_nopasswd'' then ph_sudo h else if key = ''ebpf'' then ph_btf h else if key = ''proc'' then ph_proc h
      else list_ex (ph_command h) (programs_of key))"

lemma probe_capabilities_lookup:
  "caps_has (probe_capabilities kv) key =
     (if key = ''sudo_nopasswd'' then kv_flag kv ''cap.sudo_nopasswd''
      else if key = ''ebpf'' then kv_flag kv ''cap.ebpf''
      else if key = ''proc'' then kv_flag kv ''cap.proc''
      else list_ex (\<lambda>c. kv_flag kv (''cap.'' @ c)) (programs_of key))"
proof -
  have d: "map_of (rev CAPABILITY_MAP) = map_of CAPABILITY_MAP"
    by (rule map_of_rev_distinct) (simp add: CAPABILITY_MAP_def)
  define base where "base = fold (\<lambda>(key, name). caps_set key (kv_flag kv (''cap.'' @ name))) CAPABILITY_MAP caps_new"
  have "map_of base key = (case map_of CAPABILITY_MAP key of Some c \<Rightarrow> Some (kv_flag kv (''cap.'' @ c)) | None \<Rightarrow> None)"
    unfolding base_def by (simp add: caps_fold d caps_new_def split: option.split)
  then have b: "caps_has base key = (case map_of CAPABILITY_MAP key of Some c \<Rightarrow> kv_flag kv (''cap.'' @ c) | None \<Rightarrow> False)"
    by (simp add: caps_has_def split: option.split)
  show ?thesis
    unfolding probe_capabilities_def Let_def base_def [symmetric]
    by (simp add: caps_has_set programs_of_def b split: option.split)
qed

lemma programs_probed: "set (programs_of key) \<subseteq> set PROBED_COMMANDS"
proof -
  have "snd ` set CAPABILITY_MAP \<subseteq> set PROBED_COMMANDS" by code_simp
  moreover have "set [''httpd'', ''apache2'', ''mysql'', ''mariadb''] \<subseteq> set PROBED_COMMANDS" by code_simp
  moreover have "x \<in> snd ` set CAPABILITY_MAP" if "map_of CAPABILITY_MAP key = Some x" for x
    using map_of_SomeD [OF that] by force
  ultimately show ?thesis by (auto simp: programs_of_def split: option.split)
qed

lemma capabilities_exact:
  assumes "clean_host h"
  shows "caps_has (probe_capabilities (report_map (probe_output h))) key = host_has h key"
proof -
  have "kv_flag (report_map (probe_output h)) (''cap.'' @ c) = ph_command h c" if "c \<in> set (programs_of key)" for c
    using report_flags(1) [OF assms] programs_probed [of key] that by blast
  then have "list_ex (\<lambda>c. kv_flag (report_map (probe_output h)) (''cap.'' @ c)) (programs_of key) = list_ex (ph_command h) (programs_of key)"
    unfolding list_ex_iff by blast
  then show ?thesis unfolding probe_capabilities_lookup host_has_def report_flags(2-4) [OF assms] by auto
qed

definition number_or_zero :: "rstr \<Rightarrow> u64" where
  "number_or_zero v = (case parse_u64 v of Some n \<Rightarrow> n | None \<Rightarrow> 0)"

lemma report_values:
  assumes "clean_host h" and "(k, v) \<in> set (probe_report h)"
  shows "kv_get (report_map (probe_output h)) k = v" and "kv_num (report_map (probe_output h)) k = number_or_zero v"
  using report_lookup [OF assms] by (simp_all add: kv_get_def kv_num_def number_or_zero_def)

lemma report_package_manager:
  assumes "clean_host h"
  shows "kv_get (report_map (probe_output h)) ''pkg.manager'' =
    (case find (ph_command h) PACKAGE_MANAGERS of Some c \<Rightarrow> c | None \<Rightarrow> [])"
proof (cases "find (ph_command h) PACKAGE_MANAGERS")
  case None
  then have "''pkg.manager'' \<notin> fst ` set (probe_report h)" by (auto simp: probe_report_def)
  then have "map_of (probe_report h) ''pkg.manager'' = None" by (simp only: map_of_eq_None_iff not_False_eq_True)
  with None show ?thesis by (simp add: kv_get_def report_map_output [OF assms])
next
  case (Some c)
  then have "(''pkg.manager'', c) \<in> set (probe_report h)" by (simp add: probe_report_def)
  with Some show ?thesis using report_values(1) [OF assms] by simp
qed

section \<open>Properties\<close>

text \<open>C27. Discovery reports the host as it is: from the text the probe script prints, the interpretation recovers every identity field, the first package manager the host has (apt-get under the name apt), the numbers where they are numbers, and a capability map that says of each of the twenty capabilities exactly whether the host has it, Apache and MySQL under either of their names.\<close>

theorem discovery_exact:
  assumes "clean_host h" and "f = parse_probe dbg now (probe_output h)"
  shows "hf_os_id f = ph_os_id h \<and> hf_os_name f = ph_os_name h \<and> hf_os_version f = ph_os_version h \<and>
    hf_arch f = ph_uname_m h \<and> hf_kernel f = ph_uname_r h \<and> hf_hostname f = ph_uname_n h \<and>
    hf_package_manager f =
      (case find (ph_command h) PACKAGE_MANAGERS of Some c \<Rightarrow> if c = ''apt-get'' then ''apt'' else c | None \<Rightarrow> []) \<and>
    hf_cpu_cores f = ucast (number_or_zero (ph_cores h)) \<and>
    hf_memory_total_bytes f = number_or_zero (ph_mem_total_kb h) * 1024 \<and> hf_uptime_secs f = number_or_zero (ph_uptime_secs h) \<and>
    hf_cloud f = detect_cloud dbg (ph_dmi_vendor h) (ph_dmi_product h) \<and>
    list_all (\<lambda>key. caps_has (hf_capabilities f) key = host_has h key) caps_ALL"
proof -
  note vals = report_values [OF assms(1)]
  have "hf_os_id f = ph_os_id h" "hf_os_name f = ph_os_name h" "hf_os_version f = ph_os_version h"
    "hf_arch f = ph_uname_m h" "hf_kernel f = ph_uname_r h" "hf_hostname f = ph_uname_n h"
    unfolding assms(2) parse_probe_def Let_def HostFacts.select_convs by (rule vals(1), simp add: probe_report_def)+
  moreover have "hf_cpu_cores f = ucast (number_or_zero (ph_cores h))"
    "hf_memory_total_bytes f = number_or_zero (ph_mem_total_kb h) * 1024" "hf_uptime_secs f = number_or_zero (ph_uptime_secs h)"
    unfolding assms(2) parse_probe_def Let_def HostFacts.select_convs
    by (subst vals(2); simp add: probe_report_def)+
  moreover have "kv_get (report_map (probe_output h)) ''dmi.vendor'' = ph_dmi_vendor h"
    "kv_get (report_map (probe_output h)) ''dmi.product'' = ph_dmi_product h"
    by (rule vals(1), simp add: probe_report_def)+
  moreover have "hf_package_manager f =
      (case find (ph_command h) PACKAGE_MANAGERS of Some c \<Rightarrow> if c = ''apt-get'' then ''apt'' else c | None \<Rightarrow> [])"
    unfolding assms(2) parse_probe_def Let_def HostFacts.select_convs report_package_manager [OF assms(1)]
    by (simp add: normalise_package_manager_def split: option.split)
  moreover have "list_all (\<lambda>key. caps_has (hf_capabilities f) key = host_has h key) caps_ALL"
    unfolding assms(2) parse_probe_def Let_def HostFacts.select_convs capabilities_exact [OF assms(1)] by (simp add: list_all_iff)
  ultimately show ?thesis by (simp add: assms(2) parse_probe_def Let_def)
qed

definition demo_host :: ProbeHost where
  "demo_host = \<lparr>ph_os_id = ''debian'', ph_os_name = ''Debian 12'', ph_os_version = ''12'', ph_uname_m = ''x86_64'', ph_uname_r = ''6.1.0'',
     ph_uname_n = ''web-01'', ph_cores = ''4'', ph_mem_total_kb = ''2048'', ph_uptime_secs = ''9'',
     ph_command = (\<lambda>c. c \<in> {''apt-get'', ''systemctl'', ''apache2''}), ph_proc = True, ph_btf = False, ph_sudo = False,
     ph_version = (\<lambda>_. []), ph_dmi_vendor = ''QEMU'', ph_dmi_product = []\<rparr>"

theorem discovery_exact_witness:
  "hf_hostname (parse_probe (\<lambda>s. s) 0 (probe_output demo_host)) = ''web-01'' \<and>
   list_all (\<lambda>key. caps_has (hf_capabilities (parse_probe (\<lambda>s. s) 0 (probe_output demo_host))) key = host_has demo_host key) caps_ALL"
proof -
  have "clean_host demo_host" by code_simp
  from discovery_exact [OF this refl, of "\<lambda>s. s" 0] show ?thesis by (simp add: demo_host_def)
qed

end
