(* ===== verification/Desktop.thy ===== *)
theory Desktop
  imports Services Host_Key Ssh_Connect Keychain Notebook Json Discovery
begin

text \<open>
  The commands of the desktop application under apps/desktop/src-tauri/src: state.rs, commands/servers.rs,
  commands/connection.rs, commands/discovery.rs and the small ones over the local store (audit.rs,
  notes.rs, settings.rs, security.rs, files.rs), and the channels of crates/kyvon-core/src/event.rs. The state joins the database,
  the keychain, the table of live sessions, the trust store with its pending prompts, and the list of
  connection states reported to the window. A session is an opaque value with a server; whether its
  transport is closed is an argument.
\<close>

section \<open>Events (event.rs)\<close>

datatype 'f KyvonEvent =
    EvConnectionState rstr ConnectionState "rstr option"
  | EvHostKeyPrompt HostKeyPrompt
  | EvProbe rstr CapabilityProbe
  | EvTelemetry rstr 'f
  | EvTerminalOutput rstr rstr
  | EvTerminalClosed rstr "u32 option"
  | EvLogLine rstr rstr TimestampMs
  | EvLogClosed rstr "KyvonError option"
  | EvFault rstr rstr KyvonError
  | EvAudited rstr rstr

definition channel :: "'f KyvonEvent \<Rightarrow> rstr" where
  "channel e =
     (case e of
        EvTelemetry _ _ \<Rightarrow> ''kyvon://telemetry''
      | EvTerminalOutput _ _ \<Rightarrow> ''kyvon://terminal''
      | EvTerminalClosed _ _ \<Rightarrow> ''kyvon://terminal''
      | EvLogLine _ _ _ \<Rightarrow> ''kyvon://logs''
      | EvLogClosed _ _ \<Rightarrow> ''kyvon://logs''
      | _ \<Rightarrow> ''kyvon://core'')"

section \<open>State (state.rs)\<close>

record 's Desktop =
  ds_db :: Database
  ds_vault :: keychain
  ds_sessions :: "'s hmap"
  ds_hosts :: host_table
  ds_prompts :: PendingPrompts
  ds_emitted :: "(rstr \<times> rstr \<times> ConnectionState \<times> rstr option) list"

definition sessions_new :: "'s hmap" where
  "sessions_new = []"

definition is_connected :: "'s hmap \<Rightarrow> rstr \<Rightarrow> bool" where
  "is_connected sessions i \<longleftrightarrow> hm_get sessions i \<noteq> None"

definition connected_ids :: "('s \<Rightarrow> bool) \<Rightarrow> 's hmap \<Rightarrow> rstr list" where
  "connected_ids is_closed sessions = map fst (filter (\<lambda>(i, s). \<not> is_closed s) sessions)"

text \<open>\<open>emit_state\<close> of connection.rs and of hostkey.rs: both name the channel themselves.\<close>

definition emit_state :: "rstr \<Rightarrow> ConnectionState \<Rightarrow> rstr option \<Rightarrow> 's Desktop \<Rightarrow> 's Desktop" where
  "emit_state i st message d = d\<lparr>ds_emitted := ds_emitted d @ [(''kyvon-event'', i, st, message)]\<rparr>"

section \<open>Inventory commands (servers.rs)\<close>

record NewServer =
  ns_alias :: rstr
  ns_hostname :: rstr
  ns_port :: u16
  ns_username :: rstr
  ns_auth :: "AuthMethod option"
  ns_tags :: "rstr list"

definition usable_secret :: "rstr option \<Rightarrow> rstr option" where
  "usable_secret secret = Option.bind secret (\<lambda>s. if trim s = [] then None else Some (trim s))"

record desktop_env =
  de_uuid :: rstr
  de_now :: TimestampMs
  de_columns :: Columns
  de_db_fault :: db_fault
  de_vault_fault :: vault_fault

definition new_profile :: "desktop_env \<Rightarrow> NewServer \<Rightarrow> ServerProfile" where
  "new_profile env server =
     \<lparr>sp_id = ''srv_'' @ de_uuid env, sp_alias = trim (ns_alias server), sp_hostname = trim (ns_hostname server),
      sp_port = ns_port server, sp_username = trim (ns_username server),
      sp_auth = (case ns_auth server of Some a \<Rightarrow> a | None \<Rightarrow> Agent), sp_tags = ns_tags server, sp_facts = None,
      sp_created_at = de_now env, sp_updated_at = de_now env\<rparr>"

text \<open>The secret, if the method takes one, goes to the keychain.\<close>

definition keep_secret :: "desktop_env \<Rightarrow> ServerProfile \<Rightarrow> rstr option \<Rightarrow> keychain \<Rightarrow> unit message_result \<times> keychain" where
  "keep_secret env p secret k =
     (let put = (\<lambda>kind s. (case vault_store (de_vault_fault env) (sp_id p) kind s k of
                   (Inl e, k') \<Rightarrow> (Inl (display_error e), k') | (Inr _, k') \<Rightarrow> (Inr (), k')))
      in case sp_auth p of
           Password \<Rightarrow>
             (case usable_secret secret of
                None \<Rightarrow> (Inl ''Password authentication needs the password once so it can be stored in the OS keychain. KyvonOPS never writes it to the inventory database.'', k)
              | Some s \<Rightarrow> put LoginPassword s)
         | PrivateKey _ encrypted \<Rightarrow>
             if encrypted then (case usable_secret secret of None \<Rightarrow> (Inr (), k) | Some s \<Rightarrow> put KeyPassphrase s)
             else if (case secret of Some s \<Rightarrow> s \<noteq> [] | None \<Rightarrow> False)
             then (Inl ''This authentication method does not accept a password. Use the SSH agent or a key file.'', k)
             else (Inr (), k)
         | Agent \<Rightarrow>
             if (case secret of Some s \<Rightarrow> s \<noteq> [] | None \<Rightarrow> False)
             then (Inl ''This authentication method does not accept a password. Use the SSH agent or a key file.'', k)
             else (Inr (), k))"

definition add_server :: "desktop_env \<Rightarrow> NewServer \<Rightarrow> rstr option \<Rightarrow> 's Desktop \<Rightarrow> rstr message_result \<times> 's Desktop" where
  "add_server env server secret d =
     (if ns_port server = 0 then (Inl ''SSH port must be between 1 and 65535.'', d)
      else
        (let p = new_profile env server in
         case validate p of
           Inl e \<Rightarrow> (Inl (display_error e), d)
         | Inr _ \<Rightarrow>
             (case keep_secret env p secret (ds_vault d) of
                (Inl e, k) \<Rightarrow> (Inl e, d\<lparr>ds_vault := k\<rparr>)
              | (Inr _, k) \<Rightarrow>
                  (case upsert (de_columns env) (de_db_fault env) (de_now env) p (db_store (ds_db d)) of
                     (Inl e, _) \<Rightarrow> (Inl (display_error e), d\<lparr>ds_vault := k\<rparr>)
                   | (Inr _, st) \<Rightarrow> (Inr (sp_id p), d\<lparr>ds_vault := k, ds_db := (ds_db d)\<lparr>db_store := st\<rparr>\<rparr>)))))"

definition list_servers :: "desktop_env \<Rightarrow> 's Desktop \<Rightarrow> ServerProfile list message_result" where
  "list_servers env d =
     (case list_all_servers (de_columns env) (de_db_fault env) (db_store (ds_db d)) of
        Inl e \<Rightarrow> Inl (display_error e) | Inr ps \<Rightarrow> Inr ps)"

text \<open>A keychain that cannot be cleared is logged; the row is deleted all the same.\<close>

definition desktop_delete_server ::
  "desktop_env \<Rightarrow> vault_fault \<times> vault_fault \<Rightarrow> rstr \<Rightarrow> 's Desktop \<Rightarrow> unit message_result \<times> 's Desktop" where
  "desktop_delete_server env faults i d =
     (let k = snd (vault_delete_all faults i (ds_vault d));
          d' = d\<lparr>ds_sessions := hm_remove i (ds_sessions d), ds_vault := k\<rparr>
      in case delete_server (de_db_fault env) i (ds_db d) of
           (Inl e, _) \<Rightarrow> (Inl (display_error e), d')
         | (Inr _, db) \<Rightarrow> (Inr (), d'\<lparr>ds_db := db\<rparr>))"

section \<open>The local store (audit.rs, notes.rs, settings.rs, security.rs, files.rs)\<close>

definition message_of :: "'a result \<Rightarrow> 'a message_result" where
  "message_of r = (case r of Inl e \<Rightarrow> Inl (display_error e) | Inr x \<Rightarrow> Inr x)"

definition get_audit_logs :: "desktop_env \<Rightarrow> rstr option \<Rightarrow> u32 option \<Rightarrow> 's Desktop \<Rightarrow> AuditEvent list message_result" where
  "get_audit_logs env server_id limit d =
     message_of (recent (de_db_fault env) server_id (case limit of Some n \<Rightarrow> n | None \<Rightarrow> 200) (ds_db d))"

definition get_notes :: "desktop_env \<Rightarrow> rstr \<Rightarrow> 's Desktop \<Rightarrow> Note list message_result" where
  "get_notes env server_id d = message_of (list_notes (de_db_fault env) server_id (ds_db d))"

definition get_settings :: "Json value_codec \<Rightarrow> desktop_env \<Rightarrow> rstr \<Rightarrow> 's Desktop \<Rightarrow> Json message_result" where
  "get_settings codec env key d =
     message_of (case get_setting codec (de_db_fault env) key (ds_db d) of
                   Inl e \<Rightarrow> Inl e | Inr v \<Rightarrow> Inr (case v of Some j \<Rightarrow> j | None \<Rightarrow> JNull))"

definition assess_risk :: "rstr \<Rightarrow> RiskAssessment message_result" where
  "assess_risk command = Inr (classify command)"

definition refused_file_command :: "rstr \<Rightarrow> rstr \<Rightarrow> rstr \<Rightarrow> rstr \<Rightarrow> rstr" where
  "refused_file_command doing needs i path = not_implemented (doing @ '' '' @ quoted path @ '' on '' @ quoted i) needs"

definition list_files :: "rstr \<Rightarrow> rstr \<Rightarrow> rstr list message_result" where
  "list_files i path = Inl (refused_file_command ''Listing'' ''an established SSH session with an SFTP subsystem'' i path)"

definition read_file :: "rstr \<Rightarrow> rstr \<Rightarrow> rstr message_result" where
  "read_file i path = Inl (refused_file_command ''Reading'' ''an established SSH session with an SFTP subsystem'' i path)"

definition write_file :: "rstr \<Rightarrow> rstr \<Rightarrow> rstr \<Rightarrow> unit message_result" where
  "write_file i path content = Inl (refused_file_command ''Writing'' ''an established SSH session and the approval gate'' i path)"

definition delete_file :: "rstr \<Rightarrow> rstr \<Rightarrow> unit message_result" where
  "delete_file i path = Inl (refused_file_command ''Deleting'' ''an established SSH session and the approval gate'' i path)"

section \<open>Connections (connection.rs)\<close>

text \<open>
  The handshake runs the callback at most once. \<open>ce_presented\<close> is the key the host presents, if the
  handshake gets that far; \<open>ce_dial\<close> maps the answer of the callback (\<open>None\<close> when it was not called) to
  the outcome of the handshake.
\<close>

record ('w, 'k, 'i) connect_env =
  ce_env :: desktop_env
  ce_transport :: "('w, 'k, 'i) transport"
  ce_presented :: "PresentedKey result option"
  ce_dial :: "bool option \<Rightarrow> dial_outcome"
  ce_verify :: Verify_Env

datatype attempt = Answered "unit message_result" | Opened ServerProfile | Failed KyvonError

definition explain_connect :: "rstr \<Rightarrow> rstr" where
  "explain_connect raw =
     (let lower = to_ascii_lowercase raw in
      if contains lower ''host key'' \<and> (contains lower ''changed'' \<or> contains lower ''mismatch'') then
        ''Server identity changed. KyvonOPS stopped the connection to protect you. '' @ raw @
        '' Confirm the new fingerprint out of band before trusting it.''
      else if contains lower ''not trusted'' \<or> contains lower ''host key'' then
        ''This host key has not been trusted on this workstation. Verify the fingerprint, then choose Trust and continue. '' @ raw
      else if contains lower ''authentication failed'' \<or> contains lower ''auth failed'' then
        ''Authentication failed. The server rejected the supplied SSH credentials. Check the username, password or private key, and the server'' @
        [SQ] @ ''s authentication policy. '' @ raw
      else if contains lower ''timed out'' \<or> contains lower ''timeout'' then
        ''Connection timed out. Check that the host is up, the SSH port is reachable, and no firewall is dropping the packet. '' @ raw
      else if contains lower ''connection refused'' \<or> contains lower ''refused'' then
        ''SSH connection refused. The host may be reachable, but nothing is accepting connections on this port. '' @ raw
      else if contains lower ''network is unreachable'' \<or> contains lower ''offline'' then
        ''Your device appears to be offline, or the route to the host is missing. '' @ raw
      else if contains lower ''vault'' \<or> contains lower ''no entry'' \<or> contains lower ''keychain'' then
        ''No password is stored in the OS keychain for this host. Re-enter it with Remember securely, or use an SSH agent / key file. '' @ raw
      else raw)"

definition connect_secret :: "desktop_env \<Rightarrow> rstr \<Rightarrow> ServerProfile \<Rightarrow> rstr option \<Rightarrow> keychain \<Rightarrow> rstr option result" where
  "connect_secret env i p one_shot k =
     (case sp_auth p of
        Password \<Rightarrow> if one_shot \<noteq> None then Inr one_shot else vault_get (de_vault_fault env) i LoginPassword k
      | PrivateKey _ encrypted \<Rightarrow>
          if encrypted then (if one_shot \<noteq> None then Inr one_shot else vault_get (de_vault_fault env) i KeyPassphrase k)
          else Inr None
      | Agent \<Rightarrow> Inr None)"

definition verify_host :: "('w, 'k, 'i) connect_env \<Rightarrow> rstr \<Rightarrow> ServerProfile \<Rightarrow> 's Desktop \<Rightarrow> bool option \<times> 's Desktop" where
  "verify_host ce i p d =
     (case ce_presented ce of
        None \<Rightarrow> (None, d)
      | Some (Inl _) \<Rightarrow> (Some False, d)
      | Some (Inr key) \<Rightarrow>
          (let r = verify (ce_verify ce) i (sp_hostname p) (sp_port p) key (ds_hosts d) (ds_prompts d)
           in (Some (vr_verdict r = Trust),
               d\<lparr>ds_hosts := vr_hosts r, ds_prompts := vr_prompts r,
                 ds_emitted := ds_emitted d @ map (\<lambda>(st, m). (''kyvon-event'', i, st, m)) (vr_states r)\<rparr>)))"

definition connect_attempt ::
  "('w, 'k, 'i) connect_env \<Rightarrow> ('s \<Rightarrow> bool) \<Rightarrow> rstr \<Rightarrow> rstr option \<Rightarrow> 's Desktop \<Rightarrow> 'w \<Rightarrow> attempt \<times> 's Desktop \<times> 'w" where
  "connect_attempt ce is_closed i secret d w =
     (let env = ce_env ce in
      case require (de_columns env) (de_db_fault env) i (db_store (ds_db d)) of
        Inl e \<Rightarrow> (Answered (Inl (explain_connect (display_error e))), d, w)
      | Inr p \<Rightarrow>
          if (case hm_get (ds_sessions d) i of Some s \<Rightarrow> \<not> is_closed s | None \<Rightarrow> False) then (Answered (Inr ()), d, w)
          else
            (let d1 = emit_state i Connecting None d in
             case connect_secret env i p (usable_secret secret) (ds_vault d1) of
               Inl e \<Rightarrow> (Answered (Inl (explain_connect (display_error e))), d1, w)
             | Inr s \<Rightarrow>
                 (case validate p of
                    Inl e \<Rightarrow> (Failed e, d1, w)
                  | Inr _ \<Rightarrow>
                      (case verify_host ce i p d1 of (answer, d2) \<Rightarrow>
                        (case session_connect (ce_transport ce) (ce_dial ce answer) p s w of
                           (Inl e, w') \<Rightarrow> (Failed e, d2, w')
                         | (Inr _, w') \<Rightarrow> (Opened p, d2, w'))))))"

text \<open>After the wait: keep whichever session landed first. The third component is the session that is closed again.\<close>

definition connect_finish ::
  "('s \<Rightarrow> bool) \<Rightarrow> 's \<Rightarrow> rstr \<Rightarrow> attempt \<Rightarrow> 's Desktop \<Rightarrow> unit message_result \<times> 's Desktop \<times> 's option" where
  "connect_finish is_closed session i a d =
     (case a of
        Answered r \<Rightarrow> (r, d, None)
      | Opened _ \<Rightarrow>
          (if (case hm_get (ds_sessions d) i of Some s \<Rightarrow> \<not> is_closed s | None \<Rightarrow> False)
           then (Inr (), emit_state i Connected None d, Some session)
           else (Inr (), emit_state i Connected None (d\<lparr>ds_sessions := hm_insert i session (ds_sessions d)\<rparr>), None))
      | Failed e \<Rightarrow>
          (let message = explain_connect (display_error e) in
           (Inl message, emit_state i StError (Some message) d, None)))"

definition connect ::
  "('w, 'k, 'i) connect_env \<Rightarrow> ('s \<Rightarrow> bool) \<Rightarrow> 's \<Rightarrow> rstr \<Rightarrow> rstr option \<Rightarrow> 's Desktop \<Rightarrow> 'w \<Rightarrow>
     unit message_result \<times> 's Desktop \<times> 's option \<times> 'w" where
  "connect ce is_closed session i secret d w =
     (case connect_attempt ce is_closed i secret d w of (a, d', w') \<Rightarrow>
       (case connect_finish is_closed session i a d' of (r, d'', dropped) \<Rightarrow> (r, d'', dropped, w')))"

definition disconnect :: "rstr \<Rightarrow> 's Desktop \<Rightarrow> 's Desktop \<times> 's option" where
  "disconnect i d =
     (emit_state i Disconnected None (d\<lparr>ds_sessions := hm_remove i (ds_sessions d)\<rparr>), hm_get (ds_sessions d) i)"

definition connected_servers :: "('s \<Rightarrow> bool) \<Rightarrow> 's Desktop \<Rightarrow> rstr list message_result" where
  "connected_servers is_closed d = Inr (connected_ids is_closed (ds_sessions d))"

definition resolve_host_key :: "rstr \<Rightarrow> bool \<Rightarrow> 's Desktop \<Rightarrow> unit message_result \<times> 's Desktop" where
  "resolve_host_key prompt_id trust d =
     (case resolve prompt_id trust (ds_prompts d) of
        (True, p) \<Rightarrow> (Inr (), d\<lparr>ds_prompts := p\<rparr>)
      | (False, p) \<Rightarrow> (Inl ''Host-key prompt is expired or already answered.'', d\<lparr>ds_prompts := p\<rparr>))"

section \<open>Probing (discovery.rs)\<close>

text \<open>\<open>run\<close> is what the session answers to the probe script. The checks are reported after the facts were saved.\<close>

definition desktop_probe ::
  "(rstr \<Rightarrow> rstr) \<Rightarrow> desktop_env \<Rightarrow> ('s \<Rightarrow> CommandOutput result) \<Rightarrow> rstr \<Rightarrow> 's Desktop \<Rightarrow>
     HostFacts message_result \<times> 's Desktop \<times> 'f KyvonEvent list" where
  "desktop_probe dbg env run i d =
     (case session_for (ds_sessions d) i (''Probing capabilities of '' @ quoted i) of
        Inl e \<Rightarrow> (Inl e, d, [])
      | Inr s \<Rightarrow>
          (case probe dbg (de_now env) (run s) of
             Inl e \<Rightarrow> (Inl (''Probe of '' @ quoted i @ '' failed: '' @ display_error e), d, [])
           | Inr facts \<Rightarrow>
               (case set_facts (de_columns env) (de_db_fault env) (de_now env) i facts (db_store (ds_db d)) of
                  (Inl e, _) \<Rightarrow> (Inl (''Probed '' @ quoted i @ '' but could not save the result: '' @ display_error e), d, [])
                | (Inr _, st) \<Rightarrow>
                    (Inr facts, d\<lparr>ds_db := (ds_db d)\<lparr>db_store := st\<rparr>\<rparr>, map (EvProbe i) (to_probe_log facts)))))"

end
