(* ===== verification/Desktop_Theorems.thy ===== *)
theory Desktop_Theorems
  imports Desktop
begin

text \<open>
  Properties of the desktop commands: the connection states that \<open>connect\<close> reports follow the state
  machine of inventory.rs, and Connected is reported only for a trusted host that accepted the
  credentials; the inventory does not depend on secrets; and concurrent connection attempts leave no
  session open outside the table.
\<close>

section \<open>Reported states\<close>

definition reported :: "rstr \<Rightarrow> 's Desktop \<Rightarrow> ConnectionState list" where
  "reported i d = map (\<lambda>(_, _, st, _). st) (filter (\<lambda>(_, j, _, _). j = i) (ds_emitted d))"

lemma reported_emit [simp]: "reported i (emit_state j st m d) = reported i d @ (if j = i then [st] else [])"
  by (simp add: reported_def emit_state_def)

lemma reported_emitted_cong: "ds_emitted d' = ds_emitted d \<Longrightarrow> reported i d' = reported i d"
  by (simp add: reported_def)

lemma reported_verify_host:
  "verify_host ce i p d = (answer, d') \<Longrightarrow>
     reported i d' = reported i d @
       (case ce_presented ce of
          Some (Inr key) \<Rightarrow> map fst (vr_states (verify (ce_verify ce) i (sp_hostname p) (sp_port p) key (ds_hosts d) (ds_prompts d)))
        | _ \<Rightarrow> [])"
  by (auto simp: verify_host_def Let_def reported_def comp_def case_prod_beta split: option.splits sum.splits)

text \<open>What the code relies on from the SSH library: a handshake succeeds only after the callback accepted the key.\<close>

definition requires_trust :: "(bool option \<Rightarrow> dial_outcome) \<Rightarrow> bool" where
  "requires_trust dial \<longleftrightarrow> (\<forall>a. dial a = DialOk \<longrightarrow> a = Some True)"

lemma legal_path_append: "legal_path s (xs @ ys) \<longleftrightarrow> legal_path s xs \<and> legal_path (last (s # xs)) ys"
  by (induction xs arbitrary: s) auto

lemma error_reachable: "x \<in> {Connecting, VerifyingHost, Authenticating, StError} \<Longrightarrow> can_transition_to x StError"
  by (auto simp: can_transition_to_def)

lemma verify_states_kind:
  "set (map fst (vr_states (verify env server_id host port key t p))) \<subseteq> {VerifyingHost, Authenticating, StError}"
  by (auto simp: verify_def verify_unknown_def split: sum.splits HostKeyStatus.splits prod.splits Verdict.splits)

text \<open>The key of the host was presented and trusted, and the host accepted the credentials.\<close>

definition admitted :: "('w, 'k, 'i) connect_env \<Rightarrow> rstr \<Rightarrow> ServerProfile \<Rightarrow> 's Desktop \<Rightarrow> 'w \<Rightarrow> 'w \<Rightarrow> bool" where
  "admitted ce i p d w w' \<longleftrightarrow>
     (\<exists>key secret. ce_presented ce = Some (Inr key) \<and>
        vr_verdict (verify (ce_verify ce) i (sp_hostname p) (sp_port p) key (ds_hosts d) (ds_prompts d)) = Trust \<and>
        try_credentials (ce_transport ce) p secret w = (Inr True, w'))"

lemma verify_host_reports:
  assumes "verify_host ce i p d = (answer, d')"
  obtains vs where "reported i d' = reported i d @ vs" "legal_path Connecting vs" "set vs \<subseteq> {VerifyingHost, Authenticating, StError}"
    "answer = Some True \<Longrightarrow> vs \<noteq> [] \<and> last vs = Authenticating \<and> (\<exists>key. ce_presented ce = Some (Inr key) \<and>
       vr_verdict (verify (ce_verify ce) i (sp_hostname p) (sp_port p) key (ds_hosts d) (ds_prompts d)) = Trust)"
proof (cases "\<exists>key. ce_presented ce = Some (Inr key)")
  case True
  then obtain key where key: "ce_presented ce = Some (Inr key)" by blast
  let ?r = "verify (ce_verify ce) i (sp_hostname p) (sp_port p) key (ds_hosts d) (ds_prompts d)"
  let ?vs = "map fst (vr_states ?r)"
  have "answer = Some (vr_verdict ?r = Trust)" using assms key by (auto simp: verify_host_def Let_def)
  moreover have "reported i d' = reported i d @ ?vs" using reported_verify_host [OF assms] key by simp
  moreover have "vr_states ?r \<noteq> []"
    by (auto simp: verify_def verify_unknown_def split: sum.splits HostKeyStatus.splits prod.splits Verdict.splits)
  ultimately show thesis
    using that [of ?vs] verify_states_legal [of "ce_verify ce" i "sp_hostname p" "sp_port p" key "ds_hosts d" "ds_prompts d"]
      verify_states_kind [of "ce_verify ce" i "sp_hostname p" "sp_port p" key "ds_hosts d" "ds_prompts d"] key
    by auto
next
  case False
  then have "answer \<noteq> Some True" "reported i d' = reported i d"
    using assms by (auto simp: verify_host_def split: option.splits sum.splits)
  then show thesis using that [of "[]"] by simp
qed

lemma connect_attempt_reports:
  assumes "connect_attempt ce is_closed i secret d w = (a, d', w')" and "requires_trust (ce_dial ce)"
  shows "(\<exists>r. a = Answered r \<and> (reported i d' = reported i d \<or> reported i d' = reported i d @ [Connecting])) \<or>
    (\<exists>vs. reported i d' = reported i d @ Connecting # vs \<and> legal_path Connecting vs \<and> set vs \<subseteq> {VerifyingHost, Authenticating, StError} \<and>
       ((\<exists>e. a = Failed e) \<or>
        (\<exists>p. a = Opened p \<and> vs \<noteq> [] \<and> last vs = Authenticating \<and> admitted ce i p (emit_state i Connecting None d) w w')))"
proof -
  let ?d1 = "emit_state i Connecting None d"
  consider (answered) r where "a = Answered r" "d' = d \<or> d' = ?d1"
    | (invalid) e where "a = Failed e" "d' = ?d1"
    | (dialled) p sec answer where "verify_host ce i p ?d1 = (answer, d')"
        "(\<exists>e. a = Failed e) \<or> a = Opened p \<and> session_connect (ce_transport ce) (ce_dial ce answer) p sec w = (Inr p, w')"
  proof (cases "require (de_columns (ce_env ce)) (de_db_fault (ce_env ce)) i (db_store (ds_db d))")
    case (Inl e)
    then have "a = Answered (Inl (explain_connect (display_error e)))" "d' = d"
      using assms(1) by (simp_all add: connect_attempt_def)
    then show thesis by (intro answered) simp_all
  next
    case p: (Inr p)
    note run = assms(1) [unfolded connect_attempt_def Let_def p sum.case]
    show thesis
    proof (cases "case hm_get (ds_sessions d) i of Some s \<Rightarrow> \<not> is_closed s | None \<Rightarrow> False")
      case True
      with run have "a = Answered (Inr ())" "d' = d" by simp_all
      then show thesis by (intro answered) simp_all
    next
      case False
      note run = run [unfolded if_not_P [OF False]]
      show thesis
      proof (cases "connect_secret (ce_env ce) i p (usable_secret secret) (ds_vault ?d1)")
        case (Inl e)
        with run have "a = Answered (Inl (explain_connect (display_error e)))" "d' = ?d1" by simp_all
        then show thesis by (intro answered) simp_all
      next
        case sec: (Inr sec)
        show thesis
        proof (cases "validate p")
          case (Inl e)
          with run sec have "a = Failed e" "d' = ?d1" by simp_all
          then show thesis by (rule invalid)
        next
          case (Inr u)
          obtain answer d2 where v: "verify_host ce i p ?d1 = (answer, d2)" by fastforce
          obtain r w2 where c: "session_connect (ce_transport ce) (ce_dial ce answer) p sec w = (r, w2)" by fastforce
          have "q = p" if "r = Inr q" for q
            using session_connect_okD [of "ce_transport ce" "ce_dial ce answer" p sec w q w2] c that by simp
          then have "d' = d2" "(\<exists>e. a = Failed e) \<or> a = Opened p \<and> r = Inr p \<and> w' = w2"
            using run by (auto simp: sec Inr v c split: sum.splits)
          moreover from this(2) c have "(\<exists>e. a = Failed e) \<or> a = Opened p \<and> session_connect (ce_transport ce) (ce_dial ce answer) p sec w = (Inr p, w')"
            by blast
          ultimately show thesis using v by (intro dialled) simp_all
        qed
      qed
    qed
  qed
  then show ?thesis
  proof cases
    case answered
    then show ?thesis by auto
  next
    case invalid
    then show ?thesis by auto
  next
    case (dialled p sec answer)
    obtain vs where vs: "reported i d' = reported i ?d1 @ vs" "legal_path Connecting vs" "set vs \<subseteq> {VerifyingHost, Authenticating, StError}"
      "answer = Some True \<Longrightarrow> vs \<noteq> [] \<and> last vs = Authenticating \<and> (\<exists>key. ce_presented ce = Some (Inr key) \<and>
         vr_verdict (verify (ce_verify ce) i (sp_hostname p) (sp_port p) key (ds_hosts ?d1) (ds_prompts ?d1)) = Trust)"
      using verify_host_reports [OF dialled(1)] by blast
    have opened: "vs \<noteq> [] \<and> last vs = Authenticating \<and> admitted ce i p ?d1 w w'"
      if s: "session_connect (ce_transport ce) (ce_dial ce answer) p sec w = (Inr p, w')"
    proof -
      have "ce_dial ce answer = DialOk" "try_credentials (ce_transport ce) p sec w = (Inr True, w')"
        using session_connect_okD [OF s] by blast+
      moreover from this(1) have "answer = Some True" using assms(2) by (simp add: requires_trust_def)
      ultimately show ?thesis using vs(4) unfolding admitted_def by blast
    qed
    have "reported i d' = reported i d @ Connecting # vs" using vs(1) by simp
    with vs(2,3) opened dialled(2) show ?thesis by blast
  qed
qed

section \<open>Properties\<close>


definition demo_desktop :: "unit Desktop" where
  "demo_desktop = \<lparr>ds_db = demo_db, ds_vault = [], ds_sessions = sessions_new, ds_hosts = [], ds_prompts = prompts_default, ds_emitted = []\<rparr>"

definition demo_connect_env :: "(nat list, unit, nat) connect_env" where
  "demo_connect_env =
     \<lparr>ce_env = \<lparr>de_uuid = ''u'', de_now = 9, de_columns = sample_columns, de_db_fault = None, de_vault_fault = None\<rparr>,
      ce_transport = demo_transport, ce_presented = Some (Inr sample_key),
      ce_dial = (\<lambda>a. if a = Some True then DialOk else DialFailed UnknownKey),
      ce_verify = sample_env [(''hk_1'', True)]\<rparr>"

lemma demo_connect_states:
  "reported ''s1'' (fst (snd (connect demo_connect_env (\<lambda>_. False) () ''s1'' None demo_desktop []))) =
     [Connecting, VerifyingHost, Authenticating, Connected]"
  by code_simp


section \<open>Secrets stay out of the inventory\<close>


definition demo_server :: NewServer where
  "demo_server = \<lparr>ns_alias = ''db'', ns_hostname = ''10.0.0.9'', ns_port = 22, ns_username = ''root'', ns_auth = Some Password, ns_tags = []\<rparr>"

lemma demo_added:
  "fst (add_server (ce_env demo_connect_env) demo_server (Some ''hunter2'') demo_desktop) = Inr ''srv_u''"
  "fst (add_server (ce_env demo_connect_env) demo_server (Some ''swordfish'') demo_desktop) = Inr ''srv_u''"
  by code_simp+


text \<open>The secret is stored before the row is written: when the name is taken the server is not added, and its secret stays in the keychain under an identifier that no server has.\<close>

theorem orphan_secret:
  "isl (fst (add_server (ce_env demo_connect_env) (demo_server\<lparr>ns_alias := ''web''\<rparr>) (Some ''hunter2'') demo_desktop)) \<and>
   ds_vault (snd (add_server (ce_env demo_connect_env) (demo_server\<lparr>ns_alias := ''web''\<rparr>) (Some ''hunter2'') demo_desktop)) =
     [(''srv_u/password'', ''hunter2'')]"
  by code_simp

text \<open>A keychain that cannot be read ends the attempt after Connecting was reported, and no further state is.\<close>

theorem vault_failure_leaves_connecting:
  assumes "require (de_columns (ce_env ce)) (de_db_fault (ce_env ce)) i (db_store (ds_db d)) = Inr p"
    and "hm_get (ds_sessions d) i = None" and "sp_auth p = Password" and "usable_secret secret = None"
    and "de_vault_fault (ce_env ce) = Some e"
  shows "isl (fst (connect ce is_closed session i secret d w)) \<and>
    reported i (fst (snd (connect ce is_closed session i secret d w))) = reported i d @ [Connecting]"
  using assms by (simp add: connect_def connect_attempt_def connect_finish_def Let_def connect_secret_def vault_get_def)

section \<open>Concurrent attempts\<close>

text \<open>
  A state of the application with the set of sessions whose transport is open. Steps are the moments at
  which a command holds the lock on the table: the end of a connection attempt that opened a new session,
  a disconnect, the deletion of a server, any command that leaves the table alone; and a transport may
  die at any time. Dropping a session closes it unless another task, a collector or a terminal, holds it.
\<close>

inductive session_step :: "('s \<Rightarrow> rstr) \<Rightarrow> 's set \<Rightarrow> 's Desktop \<times> 's set \<Rightarrow> 's Desktop \<times> 's set \<Rightarrow> bool"
  for server_of held where
  opened: "s \<notin> live \<Longrightarrow> server_of s = i \<Longrightarrow> connect_finish (\<lambda>x. x \<notin> live) s i (Opened p) d = (r, d', dropped) \<Longrightarrow>
     session_step server_of held (d, live) (d', insert s live - set_option dropped)"
| closed: "disconnect i d = (d', s) \<Longrightarrow> session_step server_of held (d, live) (d', live - set_option s)"
| deleted: "desktop_delete_server env faults i d = (r, d') \<Longrightarrow>
     session_step server_of held (d, live) (d', live - (set_option (hm_get (ds_sessions d) i) - held))"
| other: "ds_sessions d' = ds_sessions d \<Longrightarrow> session_step server_of held (d, live) (d', live)"
| died: "session_step server_of held (d, live) (d, live - {s})"

inductive session_reach :: "('s \<Rightarrow> rstr) \<Rightarrow> 's set \<Rightarrow> 's Desktop \<times> 's set \<Rightarrow> bool" for server_of held where
  start: "ds_sessions d = sessions_new \<Longrightarrow> session_reach server_of held (d, {})"
| step: "session_reach server_of held x \<Longrightarrow> session_step server_of held x y \<Longrightarrow> session_reach server_of held y"

definition all_listed :: "('s \<Rightarrow> rstr) \<Rightarrow> 's set \<Rightarrow> 's Desktop \<times> 's set \<Rightarrow> bool" where
  "all_listed server_of held x \<longleftrightarrow> (\<forall>s \<in> snd x - held. hm_get (ds_sessions (fst x)) (server_of s) = Some s)"

lemma emit_state_sessions [simp]: "ds_sessions (emit_state i st m d) = ds_sessions d"
  by (simp add: emit_state_def)

lemma verify_host_sessions: "verify_host ce i p d = (answer, d') \<Longrightarrow> ds_sessions d' = ds_sessions d"
  by (auto simp: verify_host_def Let_def split: option.splits sum.splits)

text \<open>A connection attempt leaves the table alone until it ends, so that it is a step of the kind \<open>other\<close>.\<close>

lemma connect_attempt_sessions: "connect_attempt ce is_closed i secret d w = (a, d', w') \<Longrightarrow> ds_sessions d' = ds_sessions d"
  by (auto simp: connect_attempt_def Let_def split: sum.splits if_splits prod.splits dest!: verify_host_sessions)

lemma session_step_listed:
  assumes "session_step server_of held x y" and "all_listed server_of held x"
  shows "all_listed server_of held y"
  using assms
proof cases
  case (opened s live i p d r d' dropped)
  show ?thesis
  proof (cases "case hm_get (ds_sessions d) i of Some e \<Rightarrow> e \<in> live | None \<Rightarrow> False")
    case True
    then have "ds_sessions d' = ds_sessions d" "dropped = Some s"
      using opened(5) by (auto simp: connect_finish_def split: option.splits)
    then show ?thesis using opened assms(2) by (simp add: all_listed_def)
  next
    case False
    then have "hm_get (ds_sessions d') = (hm_get (ds_sessions d))(i \<mapsto> s)" "dropped = None"
      using opened(5) by (auto simp: connect_finish_def split: option.splits)
    moreover have "server_of e \<noteq> i" if "e \<in> live - held" for e
      using that False assms(2) opened(1) by (auto simp: all_listed_def)
    ultimately show ?thesis using opened assms(2) by (auto simp: all_listed_def)
  qed
next
  case (closed i d d' s live)
  then have "hm_get (ds_sessions d') = (hm_get (ds_sessions d))(i := None)" "s = hm_get (ds_sessions d) i"
    by (auto simp: disconnect_def)
  then show ?thesis using closed assms(2) by (force simp: all_listed_def)
next
  case (deleted env faults i d r d' live)
  then have "hm_get (ds_sessions d') = (hm_get (ds_sessions d))(i := None)"
    by (auto simp: desktop_delete_server_def Let_def split: prod.splits sum.splits)
  then show ?thesis using deleted assms(2) by (auto simp: all_listed_def)
qed (use assms(2) in \<open>auto simp: all_listed_def\<close>)

text \<open>C19. No connection is lost: whatever connection attempts for the same server overlap, and however they interleave with disconnects, deletions and failing transports, every session that is open and not held by another task is the table's entry for its server, so that it can be used and closed; in particular no server has two of them.\<close>

theorem no_connection_leaks:
  assumes "session_reach server_of held (d, live)" and "s \<in> live - held"
  shows "hm_get (ds_sessions d) (server_of s) = Some s"
proof -
  have "all_listed server_of held x" if "session_reach server_of held x" for x
    using that
  proof induction
    case (step x y)
    from step.hyps(2) step.IH show ?case by (rule session_step_listed)
  qed (simp add: all_listed_def)
  with assms show ?thesis by (auto simp: all_listed_def)
qed

theorem no_connection_leaks_witness:
  "hm_get (ds_sessions (fst (snd (connect_finish (\<lambda>x. x \<notin> {}) (1 :: nat) ''s1'' (Opened sample_profile)
     \<lparr>ds_db = db_empty, ds_vault = [], ds_sessions = sessions_new, ds_hosts = [], ds_prompts = prompts_default, ds_emitted = []\<rparr>)))) ''s1'' = Some 1"
proof -
  let ?d = "\<lparr>ds_db = db_empty, ds_vault = [], ds_sessions = sessions_new, ds_hosts = [], ds_prompts = prompts_default, ds_emitted = []\<rparr> :: nat Desktop"
  obtain r d' dropped where f: "connect_finish (\<lambda>x. x \<notin> {}) (1 :: nat) ''s1'' (Opened sample_profile) ?d = (r, d', dropped)"
    by (metis prod_cases3)
  then have "dropped = None" by (auto simp: connect_finish_def sessions_new_def)
  with f have "session_step (\<lambda>_. ''s1'') {} (?d, {}) (d', {1})"
    using session_step.opened [of 1 "{}" "\<lambda>_. ''s1''" "''s1''" sample_profile ?d r d' dropped "{}"] by simp
  moreover have "session_reach (\<lambda>_. ''s1'') {} (?d, {})" by (rule session_reach.start) simp
  ultimately have "session_reach (\<lambda>_. ''s1'') {} (d', {1})" by (rule session_reach.step [rotated])
  from no_connection_leaks [OF this, of 1] show ?thesis using f by simp
qed

end
