(* ===== verification/Terminals.thy ===== *)
theory Terminals
  imports Desktop
begin

text \<open>
  apps/desktop/src-tauri/src/commands/terminal.rs: interactive shells. The table of open terminals is a
  map from identifiers to handles; what a handle does with input, a new size or a close is an argument.
  The task that forwards the output of a terminal to the window is \<open>pump\<close>; Base64 is an argument, as it
  comes from another crate.
\<close>

section \<open>Commands\<close>

definition no_such_session :: "rstr \<Rightarrow> rstr \<Rightarrow> rstr" where
  "no_such_session session_id action =
     ''Cannot '' @ action @ '': terminal session '' @ quoted session_id @
     '' is not open. It may have been closed, or the remote shell may have exited. Open a new terminal on the server.''"

fun pump :: "(rstr \<Rightarrow> rstr) \<Rightarrow> rstr \<Rightarrow> TerminalItem list \<Rightarrow> 'f KyvonEvent list" where
  "pump b64 sid [] = [EvTerminalClosed sid None]"
| "pump b64 sid (Bytes b # items) = EvTerminalOutput sid (b64 b) # pump b64 sid items"
| "pump b64 sid (TermExited status # items) = [EvTerminalClosed sid status]"

text \<open>\<open>open_pty\<close> is what the session answers to a request for a terminal of the given size.\<close>

definition open_terminal ::
  "rstr \<Rightarrow> ('s \<Rightarrow> u16 \<Rightarrow> u16 \<Rightarrow> 'h result) \<Rightarrow> 's hmap \<Rightarrow> rstr \<Rightarrow> u16 option \<Rightarrow> u16 option \<Rightarrow> 'h hmap \<Rightarrow> rstr message_result \<times> 'h hmap" where
  "open_terminal uuid open_pty sessions i cols rows terminals =
     (case session_for sessions i (''Opening a terminal on '' @ quoted i) of
        Inl e \<Rightarrow> (Inl e, terminals)
      | Inr s \<Rightarrow>
          (case open_pty s (case cols of Some c \<Rightarrow> c | None \<Rightarrow> 80) (case rows of Some r \<Rightarrow> r | None \<Rightarrow> 24) of
             Inl e \<Rightarrow> (Inl (''Could not open a terminal on '' @ quoted i @ '': '' @ display_error e), terminals)
           | Inr h \<Rightarrow> (Inr (''term_'' @ uuid), hm_insert (''term_'' @ uuid) h terminals)))"

definition write_terminal :: "('h \<Rightarrow> rstr \<Rightarrow> unit result) \<Rightarrow> 'h hmap \<Rightarrow> rstr \<Rightarrow> rstr \<Rightarrow> unit message_result" where
  "write_terminal write terminals sid data =
     (case hm_get terminals sid of
        None \<Rightarrow> Inl (no_such_session sid ''send input'')
      | Some h \<Rightarrow> (case write h data of Inl e \<Rightarrow> Inl (''Could not send input to '' @ quoted sid @ '': '' @ display_error e) | Inr _ \<Rightarrow> Inr ()))"

definition resize_terminal :: "('h \<Rightarrow> u16 \<Rightarrow> u16 \<Rightarrow> unit result) \<Rightarrow> 'h hmap \<Rightarrow> rstr \<Rightarrow> u16 \<Rightarrow> u16 \<Rightarrow> unit message_result" where
  "resize_terminal resize terminals sid cols rows =
     (case hm_get terminals sid of
        None \<Rightarrow> Inl (no_such_session sid ''resize the terminal'')
      | Some h \<Rightarrow> (case resize h cols rows of Inl e \<Rightarrow> Inl (''Could not resize '' @ quoted sid @ '': '' @ display_error e) | Inr _ \<Rightarrow> Inr ()))"

text \<open>The second component is the handle that is closed.\<close>

definition close_terminal :: "rstr \<Rightarrow> 'h hmap \<Rightarrow> 'h option \<times> 'h hmap" where
  "close_terminal sid terminals = (hm_get terminals sid, hm_remove sid terminals)"

text \<open>When the pump ends it removes its entry.\<close>

definition pump_done :: "rstr \<Rightarrow> 'h hmap \<Rightarrow> 'h hmap" where
  "pump_done sid terminals = hm_remove sid terminals"

section \<open>What the window receives\<close>

fun ends_terminal :: "ChannelMsg \<Rightarrow> bool" where
  "ends_terminal (ExitStatus s) = True"
| "ends_terminal Eof = True"
| "ends_terminal Close = True"
| "ends_terminal (Data d) = False"
| "ends_terminal (ExtendedData d x) = False"
| "ends_terminal OtherMsg = False"

fun chunk_of :: "ChannelMsg \<Rightarrow> rstr option" where
  "chunk_of (Data d) = Some d"
| "chunk_of (ExtendedData d x) = Some d"
| "chunk_of m = None"

definition terminal_chunks :: "ChannelMsg list \<Rightarrow> rstr list" where
  "terminal_chunks ms = List.map_filter chunk_of (takeWhile (\<lambda>m. \<not> ends_terminal m) ms)"

definition terminal_status :: "ChannelMsg list \<Rightarrow> u32 option" where
  "terminal_status ms = (case dropWhile (\<lambda>m. \<not> ends_terminal m) ms of ExitStatus s # _ \<Rightarrow> Some s | _ \<Rightarrow> None)"

lemma terminal_chunks_simps [simp]:
  "terminal_chunks [] = []"
  "terminal_chunks (m # ms) = (if ends_terminal m then [] else (case chunk_of m of Some d \<Rightarrow> [d] | None \<Rightarrow> []) @ terminal_chunks ms)"
  by (simp_all add: terminal_chunks_def map_filter_simps split: option.split)

lemma terminal_status_simps [simp]:
  "terminal_status [] = None"
  "terminal_status (m # ms) = (if ends_terminal m then (case m of ExitStatus s \<Rightarrow> Some s | _ \<Rightarrow> None) else terminal_status ms)"
  by (cases m; simp add: terminal_status_def)+

text \<open>C34. A terminal never hangs and never invents output: the window receives the bytes of the shell, packet by packet, unmodified and in order, up to the packet that reports the exit status or the end of the channel, and then exactly one message that the terminal is closed, with the exit status if that is what ended it.\<close>

theorem terminal_stream_exact:
  "pump b64 sid (terminal_loop ms) =
     map (\<lambda>d. EvTerminalOutput sid (b64 d)) (terminal_chunks ms) @ [EvTerminalClosed sid (terminal_status ms)]"
  by (induction ms rule: terminal_loop.induct) simp_all

text \<open>Output that arrives behind the exit status, which the session still forwards, is not shown.\<close>

theorem output_after_exit_is_dropped:
  "terminal_loop [Data ''a'', ExitStatus 0, Data ''b'', Eof] = [Bytes ''a'', TermExited (Some 0), Bytes ''b'', TermExited None] \<and>
   pump b64 sid (terminal_loop [Data ''a'', ExitStatus 0, Data ''b'', Eof]) =
     [EvTerminalOutput sid (b64 ''a''), EvTerminalClosed sid (Some 0)]"
  by simp

section \<open>The table\<close>

text \<open>An identifier answers commands exactly between its opening and its closing, and closing one leaves the others.\<close>

lemma close_terminal_get: "hm_get (snd (close_terminal sid terminals)) k = (if k = sid then None else hm_get terminals k)"
  by (simp add: close_terminal_def)

lemma closed_terminal_refuses:
  "isl (write_terminal write (snd (close_terminal sid terminals)) sid data)"
  "isl (resize_terminal resize (snd (close_terminal sid terminals)) sid c r)"
  by (simp_all add: write_terminal_def resize_terminal_def close_terminal_get)

end
