(* ===== verification/Sftp.thy ===== *)
theory Sftp
  imports Ssh_Session Path_Check Json Rust_Text "HOL-Library.Multiset" "HOL-Library.Product_Lexorder"
begin

unbundle bit_operations_syntax

text \<open>
  crates/kyvon-ssh/src/sftp.rs: the remote file browser. The SFTP client is an argument (\<open>sftp_client\<close>):
  each of its calls gets a path and the state of the remote file system. \<open>lower\<close> is Unicode lower-casing,
  used for the order of names only. A file is text when decoding it replaces nothing.
\<close>

section \<open>The client\<close>

record sftp_meta =
  me_permissions :: "u32 option"
  me_size :: "u64 option"
  me_uid :: "u32 option"
  me_gid :: "u32 option"
  me_mtime :: "u32 option"
  me_is_dir :: bool
  me_is_symlink :: bool
  me_is_regular :: bool

record 'w sftp_client =
  sc_read_dir :: "rstr \<Rightarrow> 'w \<Rightarrow> rstr + (rstr \<times> sftp_meta) list"
  sc_metadata :: "rstr \<Rightarrow> 'w \<Rightarrow> rstr + sftp_meta"
  sc_open :: "rstr \<Rightarrow> 'w \<Rightarrow> rstr + (KyvonError + rstr)"
  sc_create :: "rstr \<Rightarrow> 'w \<Rightarrow> (rstr + unit) \<times> 'w"
  sc_write_all :: "rstr \<Rightarrow> rstr \<Rightarrow> 'w \<Rightarrow> (KyvonError + unit) \<times> 'w"
  sc_flush :: "rstr \<Rightarrow> 'w \<Rightarrow> (KyvonError + unit) \<times> 'w"

definition MAX_EDITABLE_BYTES :: u64 where
  "MAX_EDITABLE_BYTES = 4 * 1024 * 1024"

datatype EntryKind = File | Directory | Symlink | OtherEntry

record DirEntry =
  di_name :: rstr
  di_path :: rstr
  di_kind :: EntryKind
  di_size_bytes :: u64
  di_permissions :: rstr
  di_mode :: rstr
  di_uid :: u32
  di_gid :: u32
  di_modified_ms :: TimestampMs
  di_likely_sensitive :: bool

definition SENSITIVE_NAMES :: "rstr list" where
  "SENSITIVE_NAMES = [''.env'', ''id_rsa'', ''id_ed25519'', ''id_ecdsa'', ''.pem'', ''.key'', ''.p12'', ''.pfx'',
     ''credentials'', ''.netrc'', ''.pgpass'', ''shadow'', ''.htpasswd'']"

definition looks_sensitive :: "rstr \<Rightarrow> bool" where
  "looks_sensitive name =
     (let lower = to_ascii_lowercase name in
      list_ex (\<lambda>n. lower = n \<or> ends_with lower n \<or> starts_with lower n) SENSITIVE_NAMES)"

definition permission_bit :: "u32 \<Rightarrow> nat \<Rightarrow> char \<Rightarrow> char" where
  "permission_bit mode n c = (if drop_bit n mode AND 1 = 1 then c else CHR ''-'')"

definition permissions_string :: "u32 \<Rightarrow> rstr" where
  "permissions_string mode =
     [permission_bit mode 8 (CHR ''r''), permission_bit mode 7 (CHR ''w''), permission_bit mode 6 (CHR ''x''),
      permission_bit mode 5 (CHR ''r''), permission_bit mode 4 (CHR ''w''), permission_bit mode 3 (CHR ''x''),
      permission_bit mode 2 (CHR ''r''), permission_bit mode 1 (CHR ''w''), permission_bit mode 0 (CHR ''x'')]"

definition octal3 :: "u32 \<Rightarrow> rstr" where
  "octal3 mode =
     (let n = unat (mode AND 0x1FF) in
      show_nat (n div 64) @ show_nat (n div 8 mod 8) @ show_nat (n mod 8))"

definition map_sftp_error :: "rstr \<Rightarrow> KyvonError" where
  "map_sftp_error msg = (if contains (to_lowercase msg) ''permission'' then PermissionDenied msg else KyvonError.Sftp msg)"

section \<open>Operations\<close>

definition entry_kind :: "sftp_meta \<Rightarrow> EntryKind" where
  "entry_kind m = (if me_is_dir m then Directory else if me_is_symlink m then Symlink else if me_is_regular m then File else OtherEntry)"

definition or_zero :: "'a::zero option \<Rightarrow> 'a" where
  "or_zero x = (case x of Some v \<Rightarrow> v | None \<Rightarrow> 0)"

definition dir_entry :: "rstr \<Rightarrow> rstr \<times> sftp_meta \<Rightarrow> DirEntry" where
  "dir_entry path e =
     (case e of (name, m) \<Rightarrow>
       (let mode = or_zero (me_permissions m) in
        \<lparr>di_name = name, di_path = (if path = ''/'' then ''/'' @ name else path @ ''/'' @ name), di_kind = entry_kind m,
         di_size_bytes = or_zero (me_size m), di_permissions = permissions_string mode, di_mode = octal3 mode,
         di_uid = or_zero (me_uid m), di_gid = or_zero (me_gid m), di_modified_ms = uint (or_zero (me_mtime m)) * 1000,
         di_likely_sensitive = looks_sensitive name\<rparr>))"

definition entry_order :: "(rstr \<Rightarrow> rstr) \<Rightarrow> DirEntry \<Rightarrow> bool \<times> rstr" where
  "entry_order lower e = (di_kind e \<noteq> Directory, lower (di_name e))"

definition list_dir :: "'w sftp_client \<Rightarrow> (rstr \<Rightarrow> rstr) \<Rightarrow> rstr \<Rightarrow> 'w \<Rightarrow> DirEntry list result" where
  "list_dir sftp lower path w =
     (case validate_remote_path path of
        Inl e \<Rightarrow> Inl e
      | Inr p \<Rightarrow>
          (case sc_read_dir sftp p w of
             Inl msg \<Rightarrow> Inl (map_sftp_error msg)
           | Inr entries \<Rightarrow>
               Inr (sort_key (entry_order lower)
                 (map (dir_entry p) (filter (\<lambda>(name, _). name \<noteq> ''.'' \<and> name \<noteq> ''..'') entries)))))"

definition is_text :: "rstr \<Rightarrow> bool" where
  "is_text buf \<longleftrightarrow> from_utf8_lossy buf = buf"

definition too_large :: "sftp_meta \<Rightarrow> u64 option" where
  "too_large m = (case me_size m of Some n \<Rightarrow> if n > MAX_EDITABLE_BYTES then Some n else None | None \<Rightarrow> None)"

definition read_text_file :: "'w sftp_client \<Rightarrow> rstr \<Rightarrow> 'w \<Rightarrow> rstr result" where
  "read_text_file sftp path w =
     (case validate_remote_path path of
        Inl e \<Rightarrow> Inl e
      | Inr p \<Rightarrow>
          (case sc_metadata sftp p w of
             Inl msg \<Rightarrow> Inl (map_sftp_error msg)
           | Inr m \<Rightarrow>
               (case too_large m of
                  Some n \<Rightarrow>
                    Inl (Invalid (p @ '' is '' @ show_nat (unat n) @ '' bytes; KyvonOPS opens files up to '' @
                      show_nat (unat MAX_EDITABLE_BYTES) @ '' bytes in the editor''))
                | None \<Rightarrow>
                    (case sc_open sftp p w of
                       Inl msg \<Rightarrow> Inl (map_sftp_error msg)
                     | Inr (Inl e) \<Rightarrow> Inl e
                     | Inr (Inr buf) \<Rightarrow>
                         if is_text buf then Inr buf
                         else Inl (Invalid (p @ '' is not valid UTF-8 text and cannot be edited safely''))))))"

definition write_text_file :: "'w sftp_client \<Rightarrow> rstr \<Rightarrow> rstr \<Rightarrow> 'w \<Rightarrow> unit result \<times> 'w" where
  "write_text_file sftp path contents w =
     (case validate_remote_path path of
        Inl e \<Rightarrow> (Inl e, w)
      | Inr p \<Rightarrow>
          (case sc_create sftp p w of
             (Inl msg, w1) \<Rightarrow> (Inl (map_sftp_error msg), w1)
           | (Inr _, w1) \<Rightarrow>
               (case sc_write_all sftp p contents w1 of
                  (Inl e, w2) \<Rightarrow> (Inl e, w2)
                | (Inr _, w2) \<Rightarrow> sc_flush sftp p w2)))"

definition preview :: "'w sftp_client \<Rightarrow> rstr \<Rightarrow> nat \<Rightarrow> 'w \<Rightarrow> rstr result" where
  "preview sftp path max_lines w =
     (case read_text_file sftp path w of
        Inl e \<Rightarrow> Inl e
      | Inr text \<Rightarrow> Inr (redact (join [NL] (take max_lines (lines text)))))"

definition deletion_requires_typed_confirmation :: "rstr \<Rightarrow> bool" where
  "deletion_requires_typed_confirmation path \<longleftrightarrow> classify_path path \<noteq> Ordinary"

section \<open>Lemmas\<close>

lemma validated_not_root: "validate_remote_path path = Inr p \<Longrightarrow> p \<noteq> ''/''"
proof
  assume v: "validate_remote_path path = Inr p" and root: "p = ''/''"
  from v obtain stack where st: "norm_parts path [] (split_on SLASH path) = Inr stack" "stack \<noteq> []" "p = SLASH # join ''/'' stack"
    by (auto simp: validate_remote_path_def split: if_splits sum.splits)
  have keep: "[] \<notin> set s" if "norm_parts path s0 parts = Inr s" "[] \<notin> set s0" for s0 parts s
    using that by (induction parts arbitrary: s0) (auto split: if_splits dest: in_set_butlastD)
  from st(2,3) root keep [OF st(1)] show False by (cases stack) (auto simp: join_Cons split: if_splits)
qed

text \<open>The permission string shows exactly the nine low bits.\<close>

fun bits_value :: "rstr \<Rightarrow> nat" where
  "bits_value [] = 0"
| "bits_value (c # s) = (if c = CHR ''-'' then 0 else 2 ^ length s) + bits_value s"

lemma permission_bit_set: "c \<noteq> CHR ''-'' \<Longrightarrow> permission_bit mode n c = CHR ''-'' \<longleftrightarrow> \<not> bit mode n"
  by (auto simp: permission_bit_def bit_iff_odd_drop_bit and_one_eq odd_iff_mod_2_eq_one)

lemma low_bits_value: "unat (mode AND (0x1FF :: u32)) = (\<Sum>n < 9. of_bool (bit mode n) * 2 ^ n)"
proof -
  have m: "(0x1FF :: u32) = mask 9" by (simp add: mask_eq_exp_minus_1)
  have "unat (mode AND mask 9) = take_bit 9 (unat mode)"
    by (simp only: take_bit_eq_mask [symmetric] unsigned_take_bit_eq)
  also have "\<dots> = horner_sum of_bool 2 (map (bit (unat mode)) [0..<9])" by (simp add: horner_sum_bit_eq_take_bit)
  also have "\<dots> = (\<Sum>n < 9. of_bool (bit mode n) * 2 ^ n)"
    unfolding horner_sum_eq_sum length_map length_upt atLeast0LessThan diff_zero
    by (rule sum.cong) (simp_all add: bit_unsigned_iff)
  finally show ?thesis unfolding m .
qed

theorem permissions_show_the_mode: "bits_value (permissions_string mode) = unat (mode AND 0x1FF)"
  by (simp add: low_bits_value permissions_string_def permission_bit_set eval_nat_numeral sum.lessThan_Suc)

section \<open>Properties\<close>

definition agree_at :: "rstr \<Rightarrow> 'w sftp_client \<Rightarrow> 'w sftp_client \<Rightarrow> bool" where
  "agree_at p a b \<longleftrightarrow>
     sc_read_dir a p = sc_read_dir b p \<and> sc_metadata a p = sc_metadata b p \<and> sc_open a p = sc_open b p \<and>
     sc_create a p = sc_create b p \<and> sc_write_all a p = sc_write_all b p \<and> sc_flush a p = sc_flush b p"

lemma agree_ops:
  assumes "validate_remote_path path = Inr p" and "agree_at p a b"
  shows "list_dir a lower path w = list_dir b lower path w" and "read_text_file a path w = read_text_file b path w"
    and "write_text_file a path contents w = write_text_file b path contents w"
proof -
  note eq = assms(2) [unfolded agree_at_def]
  show "list_dir a lower path w = list_dir b lower path w" unfolding list_dir_def assms(1) sum.case by (simp only: eq)
  show "read_text_file a path w = read_text_file b path w" unfolding read_text_file_def assms(1) sum.case by (simp only: eq)
  show "write_text_file a path contents w = write_text_file b path contents w"
    unfolding write_text_file_def assms(1) sum.case by (simp only: eq)
qed


definition demo_client :: "rstr \<Rightarrow> rstr list sftp_client" where
  "demo_client other =
     \<lparr>sc_read_dir = (\<lambda>p w. Inr []), sc_metadata = (\<lambda>p w. Inl ''No such file''),
      sc_open = (\<lambda>p w. Inr (Inr (if p = ''/srv/app.conf'' then ''on'' else other))),
      sc_create = (\<lambda>p w. (Inr (), w @ [p])), sc_write_all = (\<lambda>p c w. (Inr (), w @ [c])), sc_flush = (\<lambda>p w. (Inr (), w))\<rparr>"


text \<open>A listing holds each entry but the two dot entries once, directories first and then by lower-case name, each under its directory.\<close>

theorem list_dir_exact:
  assumes "validate_remote_path path = Inr p" and "sc_read_dir sftp p w = Inr entries"
  shows "\<exists>out. list_dir sftp lower path w = Inr out \<and>
    mset out = mset (map (dir_entry p) (filter (\<lambda>(name, _). name \<noteq> ''.'' \<and> name \<noteq> ''..'') entries)) \<and>
    sorted (map (entry_order lower) out) \<and> list_all (\<lambda>e. di_path e = p @ ''/'' @ di_name e) out"
proof -
  let ?l = "map (dir_entry p) (filter (\<lambda>(name, _). name \<noteq> ''.'' \<and> name \<noteq> ''..'') entries)"
  have "list_all (\<lambda>e. di_path e = p @ ''/'' @ di_name e) (sort_key (entry_order lower) ?l)"
    using validated_not_root [OF assms(1)] by (auto simp: list_all_iff dir_entry_def Let_def)
  then show ?thesis
    by (intro exI [of _ "sort_key (entry_order lower) ?l"]) (simp add: list_dir_def assms)
qed

end
