(* ===== verification/Ssh_Channels.thy ===== *)
theory Ssh_Channels
  imports Ssh_Connect Shell
begin

text \<open>
  crates/kyvon-ssh/src/session.rs, the channels of a session: commands, streams, terminals and the SFTP
  subsystem. The SSH library is an argument: \<open>ssh_handle\<close> says whether the transport is closed, opens a channel and sends one
  request on it, each in the state of the connection; an error of the library is its text.
\<close>

section \<open>Requests\<close>

datatype channel_request =
    ReqExec rstr
  | ReqData rstr
  | ReqEof
  | ReqPty rstr u32 u32
  | ReqShell
  | ReqSubsystem rstr
  | ReqSftpInit
  | ReqWindowChange u32 u32
  | ReqClose

record 'w ssh_handle =
  sh_is_closed :: "'w \<Rightarrow> bool"
  sh_open :: "'w \<Rightarrow> (rstr + nat) \<times> 'w"
  sh_request :: "nat \<Rightarrow> channel_request \<Rightarrow> 'w \<Rightarrow> (rstr + unit) \<times> 'w"
  sh_wait :: "nat \<Rightarrow> 'w \<Rightarrow> ChannelMsg list"

text \<open>Several requests with the question mark operator: the first error ends them.\<close>

primrec send_all :: "(rstr \<Rightarrow> KyvonError) \<Rightarrow> 'w ssh_handle \<Rightarrow> nat \<Rightarrow> channel_request list \<Rightarrow> 'w \<Rightarrow> unit result \<times> 'w" where
  "send_all wrap h ch [] w = (Inr (), w)"
| "send_all wrap h ch (r # rs) w =
     (case sh_request h ch r w of
        (Inl e, w') \<Rightarrow> (Inl (wrap e), w')
      | (Inr _, w') \<Rightarrow> send_all wrap h ch rs w')"

definition open_channel :: "'w ssh_handle \<Rightarrow> rstr \<Rightarrow> 'w \<Rightarrow> nat result \<times> 'w" where
  "open_channel h profile_id w =
     (if sh_is_closed h w then (Inl (NotConnected profile_id), w)
      else case sh_open h w of (Inl e, w') \<Rightarrow> (Inl (Transport e), w') | (Inr ch, w') \<Rightarrow> (Inr ch, w'))"

definition on_channel ::
    "'w ssh_handle \<Rightarrow> rstr \<Rightarrow> (rstr \<Rightarrow> KyvonError) \<Rightarrow> channel_request list \<Rightarrow> 'w \<Rightarrow> nat result \<times> 'w" where
  "on_channel h profile_id wrap rs w =
     (case open_channel h profile_id w of
        (Inl e, w1) \<Rightarrow> (Inl e, w1)
      | (Inr ch, w1) \<Rightarrow> (case send_all wrap h ch rs w1 of (Inl e, w2) \<Rightarrow> (Inl e, w2) | (Inr _, w2) \<Rightarrow> (Inr ch, w2)))"

section \<open>Operations\<close>

definition session_exec_raw :: "'w ssh_handle \<Rightarrow> rstr \<Rightarrow> rstr \<Rightarrow> 'w \<Rightarrow> CommandOutput result \<times> 'w" where
  "session_exec_raw h profile_id command w =
     (case on_channel h profile_id Transport [ReqExec command] w of
        (Inl e, w') \<Rightarrow> (Inl e, w')
      | (Inr ch, w') \<Rightarrow> (Inr (exec_output (sh_wait h ch w')), w'))"

definition session_exec :: "'w ssh_handle \<Rightarrow> rstr \<Rightarrow> Cmd \<Rightarrow> 'w \<Rightarrow> CommandOutput result \<times> 'w" where
  "session_exec h profile_id cmd w = session_exec_raw h profile_id (render cmd) w"

definition session_stream :: "'w ssh_handle \<Rightarrow> rstr \<Rightarrow> rstr \<Rightarrow> rstr option \<Rightarrow> 'w \<Rightarrow> nat result \<times> 'w" where
  "session_stream h profile_id command stdin w =
     on_channel h profile_id Transport
       (ReqExec command # (case stdin of Some bytes \<Rightarrow> [ReqData bytes, ReqEof] | None \<Rightarrow> [])) w"

definition session_open_terminal :: "'w ssh_handle \<Rightarrow> rstr \<Rightarrow> u16 \<Rightarrow> u16 \<Rightarrow> 'w \<Rightarrow> nat result \<times> 'w" where
  "session_open_terminal h profile_id cols rows w =
     on_channel h profile_id Transport [ReqPty ''xterm-256color'' (ucast cols) (ucast rows), ReqShell] w"

definition session_open_sftp :: "'w ssh_handle \<Rightarrow> rstr \<Rightarrow> 'w \<Rightarrow> nat result \<times> 'w" where
  "session_open_sftp h profile_id w = on_channel h profile_id KyvonError.Sftp [ReqSubsystem ''sftp'', ReqSftpInit] w"

definition terminal_write :: "'w ssh_handle \<Rightarrow> nat \<Rightarrow> rstr \<Rightarrow> 'w \<Rightarrow> unit result \<times> 'w" where
  "terminal_write h ch bytes w = send_all Transport h ch [ReqData bytes] w"

definition terminal_resize :: "'w ssh_handle \<Rightarrow> nat \<Rightarrow> u16 \<Rightarrow> u16 \<Rightarrow> 'w \<Rightarrow> unit result \<times> 'w" where
  "terminal_resize h ch cols rows w = send_all Transport h ch [ReqWindowChange (ucast cols) (ucast rows)] w"

definition terminal_close :: "'w ssh_handle \<Rightarrow> nat \<Rightarrow> 'w \<Rightarrow> 'w" where
  "terminal_close h ch w = snd (sh_request h ch ReqClose (snd (sh_request h ch ReqEof w)))"

section \<open>What is sent\<close>

text \<open>A handle that keeps a log of what it sent, and fails at the requests it is told to.\<close>

definition logging :: "bool \<Rightarrow> (channel_request \<Rightarrow> rstr option) \<Rightarrow> (nat \<Rightarrow> ChannelMsg list) \<Rightarrow> (nat \<times> channel_request) list ssh_handle" where
  "logging closed failing reply =
     \<lparr>sh_is_closed = (\<lambda>w. closed), sh_open = (\<lambda>w. (Inr (length w), w)),
      sh_request = (\<lambda>ch r w. (case failing r of Some e \<Rightarrow> Inl e | None \<Rightarrow> Inr (), w @ [(ch, r)])),
      sh_wait = (\<lambda>ch w. reply ch)\<rparr>"

lemma closed_session_sends_nothing:
  assumes "sh_is_closed h w"
  shows "session_exec h i cmd w = (Inl (NotConnected i), w)" "session_stream h i c s w = (Inl (NotConnected i), w)"
    "session_open_terminal h i x y w = (Inl (NotConnected i), w)" "session_open_sftp h i w = (Inl (NotConnected i), w)"
  using assms by (simp_all add: session_exec_def session_exec_raw_def session_stream_def session_open_terminal_def
      session_open_sftp_def on_channel_def open_channel_def)

lemma send_all_logging:
  assumes "\<forall>r \<in> set rs. failing r = None"
  shows "send_all wrap (logging closed failing reply) ch rs w = (Inr (), w @ map (Pair ch) rs)"
  using assms by (induction rs arbitrary: w) (simp_all add: logging_def)

text \<open>
  A command reaches the host as one request, whose text the shell of the host reads as the program and the
  arguments of the command, whatever they contain.
\<close>

theorem exec_sends_the_command:
  assumes "failing (ReqExec (render cmd)) = None" and "built cmd" and "\<forall>a \<in> set (cmd_args cmd). NUL \<notin> set a"
  shows "session_exec (logging False failing reply) i cmd w =
           (Inr (exec_output (reply (length w))), w @ [(length w, ReqExec (render cmd))]) \<and>
         sh_words (render cmd) = Some (cmd_words cmd)"
proof
  have one: "send_all Transport (logging False failing reply) ch [ReqExec (render cmd)] v = (Inr (), v @ [(ch, ReqExec (render cmd))])" for ch v
    using send_all_logging [of "[ReqExec (render cmd)]" failing Transport False reply ch v] assms(1) by simp
  show "session_exec (logging False failing reply) i cmd w =
      (Inr (exec_output (reply (length w))), w @ [(length w, ReqExec (render cmd))])"
    unfolding session_exec_def session_exec_raw_def on_channel_def open_channel_def
    by (simp del: send_all.simps add: one) (simp add: logging_def one [unfolded logging_def] del: send_all.simps)
  show "sh_words (render cmd) = Some (cmd_words cmd)" using sh_words_render [OF assms(2,3)] .
qed

text \<open>Standard input is sent after the command and then closed, so that a script fed to \<open>sh -s\<close> ends where it ends.\<close>

theorem stream_feeds_stdin:
  assumes "failing = (\<lambda>r. None)"
  shows "session_stream (logging False failing reply) i command (Some bytes) w =
    (Inr (length w), w @ map (Pair (length w)) [ReqExec command, ReqData bytes, ReqEof])"
  using send_all_logging [of "[ReqExec command, ReqData bytes, ReqEof]" failing Transport False reply "length w" w] assms
  by (simp add: session_stream_def on_channel_def open_channel_def logging_def)

end
