(* ===== verification/Collector_Start.thy ===== *)
theory Collector_Start
  imports Services Collectors Ssh_Channels
begin

text \<open>
  apps/desktop/src-tauri/src/commands/telemetry.rs: starting a collector. The script is fed to \<open>sh -s\<close> over a
  channel of the session, then a task is spawned that reads the stream (\<open>Pipeline\<close>) and its handle is put in the table.
  The text of the script is an argument; \<open>Collector\<close> models what it prints.
\<close>

definition start_collector ::
    "rstr \<Rightarrow> 'w ssh_handle hmap \<Rightarrow> rstr \<Rightarrow> Collectors \<Rightarrow> 'w \<Rightarrow> (nat message_result \<times> Collectors) \<times> 'w" where
  "start_collector script sessions i c w =
     (case session_for sessions i (''Starting the telemetry collector on '' @ quoted i) of
        Inl message \<Rightarrow> ((Inl message, c), w)
      | Inr h \<Rightarrow>
          (case session_stream h i ''sh -s'' (Some script) w of
             (Inl e, w') \<Rightarrow> ((Inl (display_error e), c), w')
           | (Inr stream, w') \<Rightarrow> ((Inr stream, replace i (co_next c) (spawn i c)), w')))"

text \<open>
  A collector that could not be started leaves the table as it was. One that was started sent the host exactly the
  command, the script and the end of input, so that nothing is written to the disk of the host and nothing is left for
  the shell to read; and the table holds its task.
\<close>

theorem start_collector_feeds_script:
  assumes "hm_get sessions i = Some (logging shut (\<lambda>r. None) reply)" and "hm_wf (co_tasks c)"
  shows "if shut then start_collector script sessions i c w = ((Inl (display_error (NotConnected i)), c), w)
         else snd (start_collector script sessions i c w) = w @ map (Pair (length w)) [ReqExec ''sh -s'', ReqData script, ReqEof] \<and>
              hm_get (co_tasks (snd (fst (start_collector script sessions i c w)))) i = Some (co_next c)"
proof (cases shut)
  case True
  then have "session_stream (logging shut (\<lambda>r. None) reply) i ''sh -s'' (Some script) w = (Inl (NotConnected i), w)"
    by (intro closed_session_sends_nothing) (simp add: logging_def)
  with True assms show ?thesis by (simp add: start_collector_def session_for_def)
next
  case False
  have "session_stream (logging False (\<lambda>r. None) reply) i ''sh -s'' (Some script) w =
      (Inr (length w), w @ map (Pair (length w)) [ReqExec ''sh -s'', ReqData script, ReqEof])"
    by (rule stream_feeds_stdin) simp
  with False assms show ?thesis
    by (simp add: start_collector_def session_for_def collectors_defs Let_def split: option.splits)
qed

end
