(* ===== verification/Nginx.thy ===== *)
theory Nginx
  imports Rust_Text Core_Types
begin

text \<open>
  crates/kyvon-topology/src/nginx.rs: the reader of an nginx configuration. Its loop is a fold of
  \<open>nginx_line\<close> over the lines; the mutable variables are the record \<open>nginx_state\<close>. The nesting depth is a
  \<open>usize\<close>; the subtraction wraps, as it does in a build without overflow checks (one with checks stops there).
\<close>

section \<open>Words separated by any white space\<close>

function split_at_space :: "rstr \<Rightarrow> rstr list" where
  "split_at_space s =
     (case s of
        [] \<Rightarrow> [[]]
      | c # t \<Rightarrow>
          (case strip_any utf8_whitespace s of
             Some rest \<Rightarrow> [] # split_at_space rest
           | None \<Rightarrow> (case split_at_space t of [] \<Rightarrow> [[c]] | w # ws \<Rightarrow> (c # w) # ws)))"
  by pat_completeness auto
termination
  by (relation "measure length") (auto dest: strip_any_shorter)

declare split_at_space.simps [simp del]

definition split_whitespace :: "rstr \<Rightarrow> rstr list" where
  "split_whitespace s = filter (\<lambda>w. w \<noteq> []) (split_at_space s)"

text \<open>\<open>trim_start_matches\<close> with a string removes every copy at the front.\<close>

function trim_start_matches :: "rstr \<Rightarrow> rstr \<Rightarrow> rstr" where
  "trim_start_matches pat s =
     (if pat = [] then s
      else case strip_prefix pat s of Some t \<Rightarrow> trim_start_matches pat t | None \<Rightarrow> s)"
  by pat_completeness auto
termination
  by (relation "measure (\<lambda>(pat, s). length s)") (auto simp: strip_prefix_Some)

declare trim_start_matches.simps [simp del]

section \<open>The configuration\<close>

record NginxServerBlock =
  nb_server_names :: "rstr list"
  nb_listen_ports :: "u16 list"
  nb_is_ssl :: bool
  nb_ssl_certificate :: "rstr option"
  nb_ssl_certificate_key :: "rstr option"
  nb_proxy_passes :: "rstr list"
  nb_root_path :: "rstr option"
  nb_access_log :: "rstr option"
  nb_error_log :: "rstr option"

record NginxUpstream =
  nu_name :: rstr
  nu_servers :: "rstr list"

record NginxConfigDump =
  nd_version :: "rstr option"
  nd_server_blocks :: "NginxServerBlock list"
  nd_upstreams :: "NginxUpstream list"

definition dump_default :: NginxConfigDump where
  "dump_default = \<lparr>nd_version = None, nd_server_blocks = [], nd_upstreams = []\<rparr>"

definition block_new :: NginxServerBlock where
  "block_new = \<lparr>nb_server_names = [], nb_listen_ports = [], nb_is_ssl = False, nb_ssl_certificate = None,
     nb_ssl_certificate_key = None, nb_proxy_passes = [], nb_root_path = None, nb_access_log = None, nb_error_log = None\<rparr>"

section \<open>Directives of a server block\<close>

definition listen_step :: "rstr \<Rightarrow> bool \<times> u16 \<Rightarrow> bool \<times> u16" where
  "listen_step part st =
     (case st of (ssl, port) \<Rightarrow>
       if part = ''ssl'' then (True, port)
       else (case parse_u16 part of
               Some p \<Rightarrow> (ssl, p)
             | None \<Rightarrow>
                 (case rsplit_once (CHR '':'') part of
                    Some (_, p_str) \<Rightarrow> (case parse_u16 p_str of Some p \<Rightarrow> (ssl, p) | None \<Rightarrow> (ssl, port))
                  | None \<Rightarrow> (ssl, port))))"

definition apply_directive :: "rstr \<Rightarrow> rstr list \<Rightarrow> NginxServerBlock \<Rightarrow> NginxServerBlock" where
  "apply_directive directive parts b =
     (let first = (case parts of [] \<Rightarrow> None | p # _ \<Rightarrow> Some p) in
      if directive = ''server_name'' then
        b\<lparr>nb_server_names := nb_server_names b @ filter (\<lambda>n. n \<noteq> [] \<and> n \<noteq> ''_'') (map trim parts)\<rparr>
      else if directive = ''listen'' then
        (case fold listen_step parts (False, 80) of (ssl, port) \<Rightarrow>
          b\<lparr>nb_listen_ports := nb_listen_ports b @ [port], nb_is_ssl := (if ssl then True else nb_is_ssl b)\<rparr>)
      else if directive = ''ssl_certificate'' then
        (case first of Some p \<Rightarrow> b\<lparr>nb_ssl_certificate := Some p, nb_is_ssl := True\<rparr> | None \<Rightarrow> b)
      else if directive = ''ssl_certificate_key'' then
        (case first of Some p \<Rightarrow> b\<lparr>nb_ssl_certificate_key := Some p\<rparr> | None \<Rightarrow> b)
      else if directive = ''proxy_pass'' then
        (case first of Some p \<Rightarrow> b\<lparr>nb_proxy_passes := nb_proxy_passes b @ [p]\<rparr> | None \<Rightarrow> b)
      else if directive = ''root'' then
        (case first of Some p \<Rightarrow> b\<lparr>nb_root_path := Some p\<rparr> | None \<Rightarrow> b)
      else if directive = ''access_log'' then
        (case first of Some p \<Rightarrow> if p \<noteq> ''off'' then b\<lparr>nb_access_log := Some p\<rparr> else b | None \<Rightarrow> b)
      else if directive = ''error_log'' then
        (case first of Some p \<Rightarrow> b\<lparr>nb_error_log := Some p\<rparr> | None \<Rightarrow> b)
      else b)"

definition block_line :: "rstr \<Rightarrow> NginxServerBlock \<Rightarrow> NginxServerBlock" where
  "block_line line b =
     (case split_whitespace (trim (trim_end_char (CHR '';'') line)) of
        [] \<Rightarrow> apply_directive [] [] b
      | directive # parts \<Rightarrow> apply_directive directive parts b)"

section \<open>The loop\<close>

record nginx_state =
  nx_dump :: NginxConfigDump
  nx_block :: "NginxServerBlock option"
  nx_upstream :: "NginxUpstream option"
  nx_in_server :: bool
  nx_in_upstream :: bool
  nx_depth :: u64

definition nx_start :: nginx_state where
  "nx_start = \<lparr>nx_dump = dump_default, nx_block = None, nx_upstream = None, nx_in_server = False, nx_in_upstream = False, nx_depth = 0\<rparr>"

definition upstream_line :: "rstr \<Rightarrow> nginx_state \<Rightarrow> nginx_state" where
  "upstream_line line st =
     (if line = ''}'' then
        (case nx_upstream st of
           Some up \<Rightarrow> st\<lparr>nx_dump := (nx_dump st)\<lparr>nd_upstreams := nd_upstreams (nx_dump st) @ [up]\<rparr>, nx_upstream := None, nx_in_upstream := False\<rparr>
         | None \<Rightarrow> st\<lparr>nx_in_upstream := False\<rparr>)
      else if starts_with line ''server '' then
        (let tgt = (case split_whitespace (trim_end_char (CHR '';'') (trim_start_matches ''server '' line)) of [] \<Rightarrow> [] | w # _ \<Rightarrow> w) in
         if tgt = [] then st
         else st\<lparr>nx_upstream := map_option (\<lambda>up. up\<lparr>nu_servers := nu_servers up @ [tgt]\<rparr>) (nx_upstream st)\<rparr>)
      else st)"

definition server_line :: "rstr \<Rightarrow> nginx_state \<Rightarrow> nginx_state" where
  "server_line line st =
     (let depth = nx_depth st + of_nat (count_list line (CHR ''{'')) - of_nat (count_list line (CHR ''}''));
          st = st\<lparr>nx_depth := depth\<rparr>
      in if depth = 0 then
           (case nx_block st of
              Some b \<Rightarrow> st\<lparr>nx_dump := (nx_dump st)\<lparr>nd_server_blocks := nd_server_blocks (nx_dump st) @ [b]\<rparr>, nx_block := None, nx_in_server := False\<rparr>
            | None \<Rightarrow> st\<lparr>nx_in_server := False\<rparr>)
         else st\<lparr>nx_block := map_option (block_line line) (nx_block st)\<rparr>)"

definition nginx_item :: "rstr \<Rightarrow> nginx_state \<Rightarrow> nginx_state" where
  "nginx_item line st =
     (if starts_with line ''upstream '' \<and> ends_with line ''{'' then
        st\<lparr>nx_upstream := Some \<lparr>nu_name = trim (trim_end_char (CHR ''{'') (trim_start_matches ''upstream '' line)), nu_servers = []\<rparr>,
           nx_in_upstream := True\<rparr>
      else if nx_in_upstream st then upstream_line line st
      else if (starts_with line ''server {'' \<or> line = ''server'') \<and> \<not> nx_in_server st then
        st\<lparr>nx_in_server := True, nx_depth := 1, nx_block := Some block_new\<rparr>
      else if nx_in_server st then server_line line st
      else st)"

definition nginx_line :: "rstr \<Rightarrow> nginx_state \<Rightarrow> nginx_state" where
  "nginx_line raw_line st =
     (let line = trim raw_line in
      if line = [] \<or> starts_with line ''#'' then st else nginx_item line st)"

definition parse_nginx_config :: "rstr \<Rightarrow> NginxConfigDump" where
  "parse_nginx_config config_text = nx_dump (fold nginx_line (lines config_text) nx_start)"

section \<open>Printed configurations\<close>

text \<open>
  The specification: a configuration printed one directive to a line, with each proxied location in a nested
  block. \<open>conf_lines\<close> is a text without its indentation, comments and blank lines.
\<close>

definition conf_lines :: "rstr \<Rightarrow> rstr list" where
  "conf_lines text = filter (\<lambda>l. \<not> (l = [] \<or> starts_with l ''#'')) (map trim (lines text))"

definition statement :: "rstr list \<Rightarrow> rstr" where
  "statement ws = join [SP] ws @ '';''"

definition opt_statement :: "rstr \<Rightarrow> rstr option \<Rightarrow> rstr list" where
  "opt_statement d v = (case v of Some p \<Rightarrow> [statement [d, p]] | None \<Rightarrow> [])"

definition listen_statement :: "bool \<Rightarrow> u16 \<Rightarrow> rstr" where
  "listen_statement ssl p = statement ([''listen'', show_nat (unat p)] @ (if ssl then [''ssl''] else []))"

definition proxy_location :: "rstr \<Rightarrow> rstr list" where
  "proxy_location p = [''location / {'', statement [''proxy_pass'', p], ''}'']"

definition block_body :: "NginxServerBlock \<Rightarrow> rstr list" where
  "block_body b =
     (if nb_server_names b = [] then [] else [statement (''server_name'' # nb_server_names b)]) @
     map (listen_statement (nb_is_ssl b)) (nb_listen_ports b) @
     opt_statement ''ssl_certificate'' (nb_ssl_certificate b) @
     opt_statement ''ssl_certificate_key'' (nb_ssl_certificate_key b) @
     concat (map proxy_location (nb_proxy_passes b)) @
     opt_statement ''root'' (nb_root_path b) @
     opt_statement ''access_log'' (nb_access_log b) @
     opt_statement ''error_log'' (nb_error_log b)"

definition print_upstream :: "NginxUpstream \<Rightarrow> rstr list" where
  "print_upstream u = (''upstream '' @ nu_name u @ '' {'') # map (\<lambda>t. statement [''server'', t]) (nu_servers u) @ [''}'']"

definition print_block :: "NginxServerBlock \<Rightarrow> rstr list" where
  "print_block b = ''server {'' # block_body b @ [''}'']"

definition print_config :: "NginxConfigDump \<Rightarrow> rstr list" where
  "print_config d = concat (map print_upstream (nd_upstreams d)) @ concat (map print_block (nd_server_blocks d))"

text \<open>Words that can be printed: no white space and none of the characters the syntax uses.\<close>

definition conf_word :: "rstr \<Rightarrow> bool" where
  "conf_word w \<longleftrightarrow> is_name w \<and> list_all (\<lambda>c. c \<notin> {CHR '';'', CHR ''{'', CHR ''}''}) w"

definition wf_upstream :: "NginxUpstream \<Rightarrow> bool" where
  "wf_upstream u \<longleftrightarrow> conf_word (nu_name u) \<and> nu_name u \<noteq> ''upstream'' \<and> list_all conf_word (nu_servers u)"

definition wf_block :: "NginxServerBlock \<Rightarrow> bool" where
  "wf_block b \<longleftrightarrow>
     list_all (\<lambda>n. conf_word n \<and> n \<noteq> ''_'') (nb_server_names b) \<and> list_all conf_word (nb_proxy_passes b) \<and>
     pred_option conf_word (nb_ssl_certificate b) \<and> pred_option conf_word (nb_ssl_certificate_key b) \<and>
     pred_option conf_word (nb_root_path b) \<and> pred_option conf_word (nb_error_log b) \<and>
     pred_option (\<lambda>p. conf_word p \<and> p \<noteq> ''off'') (nb_access_log b) \<and>
     (nb_is_ssl b \<longleftrightarrow> nb_ssl_certificate b \<noteq> None \<or> nb_is_ssl b \<and> nb_listen_ports b \<noteq> [])"

definition wf_dump :: "NginxConfigDump \<Rightarrow> bool" where
  "wf_dump d \<longleftrightarrow> nd_version d = None \<and> list_all wf_upstream (nd_upstreams d) \<and> list_all wf_block (nd_server_blocks d)"

section \<open>Reading a statement back\<close>

lemma split_at_space_printable:
  assumes "list_all printable w"
  shows "split_at_space w = [w]" "split_at_space (w @ SP # s) = w # split_at_space s"
  using assms
proof (induction w)
  case Nil
  { case 1 show ?case by (simp add: split_at_space.simps) }
  { case 2
    have "strip_any utf8_whitespace (SP # s) = Some s" by (simp add: utf8_whitespace_def)
    then show ?case by (simp add: split_at_space.simps [of "SP # s"]) }
next
  case (Cons c w)
  have c: "strip_any utf8_whitespace (c # t) = None" if "printable c" for t
    using that printable_not_white(1) by (simp add: printable_def)
  { case 1 with Cons c show ?case by (simp add: split_at_space.simps [of "c # w"]) }
  { case 2 with Cons c show ?case by (simp add: split_at_space.simps [of "c # w @ SP # s"]) }
qed

lemma split_whitespace_join: "list_all is_name ws \<Longrightarrow> split_whitespace (join [SP] ws) = ws"
proof (induction "[SP]" ws rule: join.induct)
  case 1
  then show ?case by (simp add: split_whitespace_def split_at_space.simps)
next
  case (2 w)
  then show ?case by (simp add: split_whitespace_def split_at_space_printable is_name_def)
next
  case (3 w v ws)
  then show ?case by (simp add: split_whitespace_def split_at_space_printable is_name_def)
qed

lemma join_ends:
  assumes "list_all is_name ws" "ws \<noteq> []"
  shows "\<exists>a t u z. join [SP] ws = a # t \<and> join [SP] ws = u @ [z] \<and> printable a \<and> printable z \<and> z \<in> set (last ws)"
  using assms
proof (induction "[SP]" ws rule: join.induct)
  case (2 w)
  then have "is_name w" by simp
  then obtain a t u z where "w = a # t" "w = u @ [z]" "printable a" "printable z" by (rule is_name_ends)
  moreover from \<open>w = u @ [z]\<close> have "z \<in> set w" by simp
  ultimately show ?case by (metis join.simps(2) last.simps)
next
  case (3 w v ws)
  then obtain u z where z: "join [SP] (v # ws) = u @ [z]" "printable z" "z \<in> set (last (v # ws))" by auto
  from 3 have "is_name w" by simp
  then obtain a t u' z' where a: "w = a # t" "printable a" by (rule is_name_ends)
  have "join [SP] (w # v # ws) = a # (t @ SP # u @ [z])" "join [SP] (w # v # ws) = (w @ SP # u) @ [z]"
    using a z by simp_all
  with a z show ?case by fastforce
qed simp

lemma conf_word_name: "conf_word w \<Longrightarrow> is_name w"
  by (simp add: conf_word_def)

lemma conf_words_names: "list_all conf_word ws \<Longrightarrow> list_all is_name ws"
  by (auto simp: list_all_iff conf_word_def)

lemma join_no_syntax:
  assumes "list_all conf_word ws" and "c \<in> {CHR '';'', CHR ''{'', CHR ''}''}"
  shows "c \<notin> set (join [SP] ws)"
  using assms set_join [of "[SP]" ws] by (fastforce simp: list_all_iff conf_word_def)

lemma trim_end_char_other: "c \<noteq> z \<Longrightarrow> trim_end_char c (u @ [z]) = u @ [z]"
  by (simp add: trim_end_char_def)

lemma trim_end_char_snoc [simp]: "trim_end_char c (s @ [c]) = trim_end_char c s"
  by (simp add: trim_end_char_def)

lemma statement_words:
  assumes "list_all conf_word ws" "ws \<noteq> []"
  shows "split_whitespace (trim (trim_end_char (CHR '';'') (statement ws))) = ws"
    and "split_whitespace (trim_end_char (CHR '';'') (join [SP] ws @ '';'')) = ws"
proof -
  obtain a t u z where j: "join [SP] ws = a # t" "join [SP] ws = u @ [z]" "printable a" "printable z"
    using join_ends [OF conf_words_names [OF assms(1)] assms(2)] by blast
  have "CHR '';'' \<notin> set (join [SP] ws)" using join_no_syntax [OF assms(1)] by simp
  with j(2) have z: "CHR '';'' \<noteq> z" by auto
  have "trim_end_char (CHR '';'') (join [SP] ws @ '';'') = join [SP] ws"
    unfolding trim_end_char_snoc j(2) by (rule trim_end_char_other [OF z])
  moreover have "trim (join [SP] ws) = join [SP] ws"
    using trim_bounded(1) [OF _ _ _ _ j(1,2)] j(3,4) by (simp add: printable_def)
  ultimately show "split_whitespace (trim (trim_end_char (CHR '';'') (statement ws))) = ws"
      "split_whitespace (trim_end_char (CHR '';'') (join [SP] ws @ '';'')) = ws"
    using split_whitespace_join [OF conf_words_names [OF assms(1)]] by (simp_all add: statement_def)
qed

lemma statement_braces:
  assumes "list_all conf_word ws"
  shows "count_list (statement ws) (CHR ''{'') = 0" "count_list (statement ws) (CHR ''}'') = 0"
    "\<not> ends_with (statement ws) ''{''" "statement ws \<noteq> ''}''"
  using join_no_syntax [OF assms] by (auto simp: statement_def count_list_0_iff)

section \<open>The steps of a printed configuration\<close>

definition idle :: "NginxConfigDump \<Rightarrow> nginx_state" where
  "idle d = \<lparr>nx_dump = d, nx_block = None, nx_upstream = None, nx_in_server = False, nx_in_upstream = False, nx_depth = 0\<rparr>"

definition in_block :: "NginxConfigDump \<Rightarrow> NginxServerBlock \<Rightarrow> u64 \<Rightarrow> nginx_state" where
  "in_block d b k = \<lparr>nx_dump = d, nx_block = Some b, nx_upstream = None, nx_in_server = True, nx_in_upstream = False, nx_depth = k\<rparr>"

definition in_up :: "NginxConfigDump \<Rightarrow> NginxUpstream \<Rightarrow> nginx_state" where
  "in_up d u = \<lparr>nx_dump = d, nx_block = None, nx_upstream = Some u, nx_in_server = False, nx_in_upstream = True, nx_depth = 0\<rparr>"

lemma item_statement:
  assumes "list_all conf_word (w # ws)" "k \<noteq> 0"
  shows "nginx_item (statement (w # ws)) (in_block d b k) = in_block d (apply_directive w ws b) k"
  using assms(2) statement_braces [OF assms(1)] statement_words(1) [OF assms(1)]
  by (simp add: nginx_item_def server_line_def block_line_def in_block_def)

lemma item_location: "nginx_item ''location / {'' (in_block d b 1) = in_block d b 2"
proof -
  have "split_whitespace (join [SP] [''location'', ''/'', ''{'']) = [''location'', ''/'', ''{'']"
    by (rule split_whitespace_join) (simp add: is_name_def printable_def byte_def)
  moreover have "trim (trim_end_char (CHR '';'') ''location / {'') = ''location / {''"
    by (simp add: trim_end_char_def trim_bounded(1) [of "CHR ''l''" "CHR ''{''" _ "''ocation / {''" "''location / ''"] byte_def)
  ultimately have "block_line ''location / {'' b = b"
    by (simp add: block_line_def apply_directive_def)
  then show ?thesis by (simp add: nginx_item_def server_line_def in_block_def)
qed

lemma item_close:
  "nginx_item ''}'' (in_block d b 2) = in_block d b 1"
  "nginx_item ''}'' (in_block d b 1) = idle (d\<lparr>nd_server_blocks := nd_server_blocks d @ [b]\<rparr>)"
proof -
  have "split_whitespace (join [SP] [''}'']) = [''}'']"
    by (rule split_whitespace_join) (simp add: is_name_def printable_def byte_def)
  moreover have "trim (trim_end_char (CHR '';'') ''}'') = ''}''"
    by (simp add: trim_end_char_def trim_bounded(1) [of "CHR ''}''" "CHR ''}''" _ "[]" "[]"] byte_def)
  ultimately have "block_line ''}'' b = b" by (simp add: block_line_def apply_directive_def)
  then show "nginx_item ''}'' (in_block d b 2) = in_block d b 1"
    by (simp add: nginx_item_def server_line_def in_block_def)
  show "nginx_item ''}'' (in_block d b 1) = idle (d\<lparr>nd_server_blocks := nd_server_blocks d @ [b]\<rparr>)"
    by (simp add: nginx_item_def server_line_def in_block_def idle_def)
qed

lemma item_server: "nginx_item ''server {'' (idle d) = in_block d block_new 1"
  by (simp add: nginx_item_def in_block_def idle_def)

lemma name_prefix_space:
  assumes "is_name n" "is_name w"
  shows "prefix (w @ [SP]) (n @ SP # s) \<longleftrightarrow> n = w"
proof -
  have no: "SP \<notin> set v" if "is_name v" for v
    using that white_not_printable [of SP] by (auto simp: is_name_def list_all_iff is_ascii_whitespace_def)
  show ?thesis
    using no [OF assms(1)] no [OF assms(2)]
  proof (induction w arbitrary: n)
    case Nil
    then show ?case by (cases n) auto
  next
    case (Cons c w)
    then show ?case by (cases n) auto
  qed
qed

lemma item_upstream:
  assumes "conf_word n" "n \<noteq> ''upstream''"
  shows "nginx_item (''upstream '' @ n @ '' {'') (idle d) = in_up d \<lparr>nu_name = n, nu_servers = []\<rparr>"
proof -
  have name: "is_name n" and brace: "CHR ''{'' \<notin> set n"
    using assms(1) by (auto simp: conf_word_def list_all_iff)
  have up: "is_name ''upstream''" by (simp add: is_name_def printable_def byte_def)
  have "strip_prefix (''upstream'' @ [SP]) (n @ SP # ''{'') = None"
    using name_prefix_space [OF name up] assms(2) by (simp only: strip_prefix_None) blast
  then have "trim_start_matches ''upstream '' (n @ '' {'') = n @ '' {''"
    by (simp add: trim_start_matches.simps)
  then have strip: "trim_start_matches ''upstream '' (''upstream '' @ n @ '' {'') = n @ '' {''"
    by (subst trim_start_matches.simps) (simp del: append_Cons)
  have "trim_end_char (CHR ''{'') ((n @ [SP]) @ ''{'') = n @ [SP]"
    unfolding trim_end_char_snoc by (rule trim_end_char_other) simp
  moreover have "trim (n @ [SP]) = n" using trim_name_space [OF name] .
  ultimately show ?thesis unfolding nginx_item_def strip
    by (simp add: in_up_def idle_def suffix_def)
qed

lemma item_upstream_server:
  assumes "conf_word t"
  shows "nginx_item (statement [''server'', t]) (in_up d u) = in_up d (u\<lparr>nu_servers := nu_servers u @ [t]\<rparr>)"
proof -
  have ws: "list_all conf_word [''server'', t]"
    using assms by (simp add: conf_word_def is_name_def printable_def byte_def)
  have txt_eq: "statement [''server'', t] = ''server '' @ t @ '';''" by (simp add: statement_def)
  have name: "is_name (t @ '';'')" "is_name ''server''" and t: "t \<noteq> []"
    using assms by (auto simp: conf_word_def is_name_def printable_def byte_def)
  have "SP \<notin> set (t @ '';'')" using name(1) white_not_printable [of SP]
    by (auto simp: is_name_def list_all_iff is_ascii_whitespace_def)
  then have "strip_prefix ''server '' (t @ '';'') = None"
    using set_mono_prefix [of "''server ''" "t @ '';''"] unfolding strip_prefix_None by auto
  then have "trim_start_matches ''server '' (t @ '';'') = t @ '';''" by (simp add: trim_start_matches.simps)
  then have "trim_start_matches ''server '' (statement [''server'', t]) = t @ '';''"
    unfolding txt_eq by (subst trim_start_matches.simps) (simp del: append_Cons)
  moreover have "split_whitespace (trim_end_char (CHR '';'') (t @ '';'')) = [t]"
    using statement_words(2) [of "[t]"] assms by simp
  ultimately have "upstream_line (statement [''server'', t]) (in_up d u) = in_up d (u\<lparr>nu_servers := nu_servers u @ [t]\<rparr>)"
    using statement_braces(4) [OF ws] t by (simp add: upstream_line_def in_up_def) (simp add: txt_eq)
  then show ?thesis using statement_braces(3) [OF ws] by (simp add: nginx_item_def in_up_def)
qed

lemma item_upstream_close:
  "nginx_item ''}'' (in_up d u) = idle (d\<lparr>nd_upstreams := nd_upstreams d @ [u]\<rparr>)"
  by (simp add: nginx_item_def upstream_line_def in_up_def idle_def)

section \<open>The parser inverts the printer\<close>

lemma fold_opt_statement:
  assumes "pred_option conf_word v" "conf_word w" "k \<noteq> 0"
  shows "fold nginx_item (opt_statement w v) (in_block d b k) =
         in_block d (case v of Some p \<Rightarrow> apply_directive w [p] b | None \<Rightarrow> b) k"
  using assms by (cases v) (auto simp: opt_statement_def item_statement)

lemma directive_words [simp]:
  "conf_word ''server_name''" "conf_word ''listen''" "conf_word ''ssl''" "conf_word ''ssl_certificate''"
  "conf_word ''ssl_certificate_key''" "conf_word ''proxy_pass''" "conf_word ''root''" "conf_word ''access_log''"
  "conf_word ''error_log''"
  by (simp_all add: conf_word_def is_name_def printable_def byte_def)

lemma conf_word_show_nat: "conf_word (show_nat n)"
proof -
  have "conf_word w" if "is_digits w" for w
    using that by (auto simp: conf_word_def is_name_def is_digits_def list_all_iff printable_def byte_class_defs byte_def)
  then show ?thesis using show_nat_digits by blast
qed

lemma show_nat_not_ssl: "show_nat n \<noteq> ''ssl''"
  using show_nat_digits [of n] by (auto simp: is_digits_def byte_class_defs byte_def)

lemma fold_listen:
  "fold nginx_item (map (listen_statement ssl) ps) (in_block d b 1) =
   in_block d (b\<lparr>nb_listen_ports := nb_listen_ports b @ ps, nb_is_ssl := nb_is_ssl b \<or> ssl \<and> ps \<noteq> []\<rparr>) 1"
proof (induction ps arbitrary: b)
  case (Cons p ps)
  have "list_all conf_word (''listen'' # show_nat (unat p) # (if ssl then [''ssl''] else []))"
    using conf_word_show_nat by simp
  then have "nginx_item (listen_statement ssl p) (in_block d b 1) =
      in_block d (b\<lparr>nb_listen_ports := nb_listen_ports b @ [p], nb_is_ssl := nb_is_ssl b \<or> ssl\<rparr>) 1"
    by (simp add: listen_statement_def item_statement apply_directive_def listen_step_def parse_u16_show show_nat_not_ssl)
  with Cons show ?case by (cases ssl) simp_all
qed simp

lemma fold_proxies:
  assumes "list_all conf_word ps"
  shows "fold nginx_item (concat (map proxy_location ps)) (in_block d b 1) =
         in_block d (b\<lparr>nb_proxy_passes := nb_proxy_passes b @ ps\<rparr>) 1"
  using assms
proof (induction ps arbitrary: b)
  case (Cons p ps)
  then show ?case
    by (simp add: proxy_location_def item_location item_close item_statement apply_directive_def)
qed simp

lemma fold_names:
  assumes "list_all (\<lambda>n. conf_word n \<and> n \<noteq> ''_'') ns"
  shows "fold nginx_item (if ns = [] then [] else [statement (''server_name'' # ns)]) (in_block d b 1) =
         in_block d (b\<lparr>nb_server_names := nb_server_names b @ ns\<rparr>) 1"
proof -
  have words: "list_all conf_word ns" using assms by (auto simp: list_all_iff)
  have "map trim ns = ns" using assms trim_name conf_word_name by (auto simp: list_all_iff intro: map_idI)
  moreover have "filter (\<lambda>n. n \<noteq> [] \<and> n \<noteq> ''_'') ns = ns"
    using assms by (intro filter_True) (auto simp: list_all_iff conf_word_def is_name_def)
  ultimately have "apply_directive ''server_name'' ns b = b\<lparr>nb_server_names := nb_server_names b @ ns\<rparr>"
    by (simp add: apply_directive_def)
  with words show ?thesis by (simp add: item_statement)
qed

lemma apply_value_directive:
  "apply_directive ''ssl_certificate'' [p] b = b\<lparr>nb_ssl_certificate := Some p, nb_is_ssl := True\<rparr>"
  "apply_directive ''ssl_certificate_key'' [p] b = b\<lparr>nb_ssl_certificate_key := Some p\<rparr>"
  "apply_directive ''root'' [p] b = b\<lparr>nb_root_path := Some p\<rparr>"
  "apply_directive ''access_log'' [p] b = (if p \<noteq> ''off'' then b\<lparr>nb_access_log := Some p\<rparr> else b)"
  "apply_directive ''error_log'' [p] b = b\<lparr>nb_error_log := Some p\<rparr>"
  by (simp_all add: apply_directive_def)

lemma fold_body:
  assumes "wf_block b"
  shows "fold nginx_item (block_body b) (in_block d block_new 1) = in_block d b 1"
proof -
  have wf: "list_all (\<lambda>n. conf_word n \<and> n \<noteq> ''_'') (nb_server_names b)" "list_all conf_word (nb_proxy_passes b)"
    "pred_option conf_word (nb_ssl_certificate b)" "pred_option conf_word (nb_ssl_certificate_key b)"
    "pred_option conf_word (nb_root_path b)" "pred_option conf_word (nb_error_log b)"
    "pred_option (\<lambda>p. conf_word p \<and> p \<noteq> ''off'') (nb_access_log b)"
    "nb_is_ssl b \<longleftrightarrow> nb_ssl_certificate b \<noteq> None \<or> nb_is_ssl b \<and> nb_listen_ports b \<noteq> []"
    using assms by (simp_all only: wf_block_def)
  have acc: "pred_option conf_word (nb_access_log b)" using wf(7) by (cases "nb_access_log b") auto
  show ?thesis
    unfolding block_body_def fold_append o_apply fold_names [OF wf(1)] fold_listen fold_proxies [OF wf(2)]
      fold_opt_statement [OF wf(3) directive_words(4) one_neq_zero] fold_opt_statement [OF wf(4) directive_words(5) one_neq_zero]
      fold_opt_statement [OF wf(5) directive_words(7) one_neq_zero] fold_opt_statement [OF acc directive_words(8) one_neq_zero]
      fold_opt_statement [OF wf(6) directive_words(9) one_neq_zero]
    apply_value_directive
    using wf(7,8)
    by (cases b) (auto simp: in_block_def block_new_def split: option.splits)
qed

lemma fold_print_block:
  assumes "wf_block b"
  shows "fold nginx_item (print_block b) (idle d) = idle (d\<lparr>nd_server_blocks := nd_server_blocks d @ [b]\<rparr>)"
  using fold_body [OF assms] by (simp add: print_block_def item_server item_close)

lemma fold_servers:
  assumes "list_all conf_word ts"
  shows "fold nginx_item (map (\<lambda>t. statement [''server'', t]) ts) (in_up d u) = in_up d (u\<lparr>nu_servers := nu_servers u @ ts\<rparr>)"
  using assms by (induction ts arbitrary: u) (simp_all add: item_upstream_server)

lemma fold_print_upstream:
  assumes "wf_upstream u"
  shows "fold nginx_item (print_upstream u) (idle d) = idle (d\<lparr>nd_upstreams := nd_upstreams d @ [u]\<rparr>)"
proof -
  have "conf_word (nu_name u)" "nu_name u \<noteq> ''upstream''" "list_all conf_word (nu_servers u)"
    using assms unfolding wf_upstream_def by blast+
  then show ?thesis
    unfolding print_upstream_def fold_simps o_apply fold_append item_upstream [OF \<open>conf_word (nu_name u)\<close> \<open>nu_name u \<noteq> ''upstream''\<close>]
    by (cases u) (simp add: fold_servers item_upstream_close)
qed

lemma fold_print_config:
  assumes "list_all wf_upstream us" "list_all wf_block bs"
  shows "fold nginx_item (concat (map print_upstream us) @ concat (map print_block bs)) (idle d) =
         idle (d\<lparr>nd_upstreams := nd_upstreams d @ us, nd_server_blocks := nd_server_blocks d @ bs\<rparr>)"
proof -
  have "fold nginx_item (concat (map print_upstream us)) (idle d) = idle (d\<lparr>nd_upstreams := nd_upstreams d @ us\<rparr>)" for d
    using assms(1) by (induction us arbitrary: d) (simp_all add: fold_print_upstream)
  moreover have "fold nginx_item (concat (map print_block bs)) (idle d) = idle (d\<lparr>nd_server_blocks := nd_server_blocks d @ bs\<rparr>)" for d
    using assms(2) by (induction bs arbitrary: d) (simp_all add: fold_print_block)
  ultimately show ?thesis by simp
qed

lemma fold_nginx_line:
  "fold nginx_line ls st = fold nginx_item (filter (\<lambda>l. \<not> (l = [] \<or> starts_with l ''#'')) (map trim ls)) st"
  by (induction ls arbitrary: st) (auto simp: nginx_line_def Let_def)

text \<open>C36. A configuration that is printed one directive to a line, whatever its indentation, comments and blank lines,
  is read back exactly: every upstream with its servers, every server block with its names, ports, certificates,
  proxied targets, root and logs, in order, the nested location blocks included.\<close>

theorem nginx_roundtrip:
  assumes "wf_dump d" and "conf_lines config_text = print_config d"
  shows "parse_nginx_config config_text = d"
proof -
  have wf: "list_all wf_upstream (nd_upstreams d)" "list_all wf_block (nd_server_blocks d)" "nd_version d = None"
    using assms(1) by (simp_all add: wf_dump_def)
  have start: "nx_start = idle dump_default" by (simp add: nx_start_def idle_def)
  have "fold nginx_item (print_config d) nx_start = idle d"
    unfolding print_config_def start fold_print_config [OF wf(1,2)]
    using wf(3) by (cases d) (simp add: dump_default_def)
  moreover have "fold nginx_line (lines config_text) nx_start = fold nginx_item (print_config d) nx_start"
    unfolding fold_nginx_line using assms(2) by (simp add: conf_lines_def)
  ultimately show ?thesis by (simp add: parse_nginx_config_def idle_def)
qed

definition demo_dump :: NginxConfigDump where
  "demo_dump = \<lparr>nd_version = None,
     nd_server_blocks = [\<lparr>nb_server_names = [''example.com''], nb_listen_ports = [80, 443], nb_is_ssl = True,
       nb_ssl_certificate = Some ''/etc/full.pem'', nb_ssl_certificate_key = None, nb_proxy_passes = [''http://pool''],
       nb_root_path = None, nb_access_log = None, nb_error_log = Some ''/var/e.log''\<rparr>],
     nd_upstreams = [\<lparr>nu_name = ''pool'', nu_servers = [''127.0.0.1:3000'', ''127.0.0.1:3001'']\<rparr>]\<rparr>"

definition demo_conf :: rstr where
  "demo_conf = concat (map (\<lambda>l. l @ [NL])
     [''# the shop'', ''upstream pool {'', ''  server 127.0.0.1:3000;'', ''  server 127.0.0.1:3001;'', ''}'', '' '',
      ''server {'', ''  server_name example.com;'', ''  listen 80 ssl;'', ''  listen 443 ssl;'',
      ''  ssl_certificate /etc/full.pem;'', ''  location / {'', ''    proxy_pass http://pool;'', ''  }'',
      ''  error_log /var/e.log;'', ''}''])"

lemma demo_conf_lines: "conf_lines demo_conf = print_config demo_dump"
  by code_simp

lemma demo_dump_wf: "wf_dump demo_dump"
  by (simp add: demo_dump_def wf_dump_def wf_upstream_def wf_block_def conf_word_def is_name_def printable_def byte_def)

theorem nginx_roundtrip_witness:
  "wf_dump demo_dump \<and> conf_lines demo_conf = print_config demo_dump \<and> parse_nginx_config demo_conf = demo_dump"
  using nginx_roundtrip [OF demo_dump_wf demo_conf_lines] demo_dump_wf demo_conf_lines by blast

text \<open>
  Two layouts nginx accepts are read wrongly: with the brace of \<open>server\<close> on a line of its own the depth never
  returns to zero, so that the block and every later one is lost, and a block on one line has the same effect.
\<close>

theorem server_layouts_lost:
  "nd_server_blocks (parse_nginx_config (concat (map (\<lambda>l. l @ [NL])
     [''server'', ''{'', ''  root /a;'', ''}'', ''server {'', ''  root /b;'', ''}'']))) = []"
  "nd_server_blocks (parse_nginx_config (concat (map (\<lambda>l. l @ [NL])
     [''server { root /a; }'', ''server {'', ''  root /b;'', ''}'']))) = []"
  by code_simp+

end
