(* ===== verification/Docker.thy ===== *)
theory Docker
  imports Json Ieee
begin

text \<open>
  crates/kyvon-topology/src/docker.rs: the reader of \<open>docker ps\<close> in JSON lines. The JSON parser is not part of
  the sources; it is the argument \<open>from_str\<close>, whose \<open>None\<close> is a parse error.
\<close>

section \<open>Containers\<close>

record ContainerPortMapping =
  pm_host_ip :: rstr
  pm_host_port :: u16
  pm_container_port :: u16
  pm_protocol :: rstr

record DockerContainerInfo =
  dc_id :: rstr
  dc_names :: "rstr list"
  dc_image :: rstr
  dc_command :: rstr
  dc_state :: rstr
  dc_status :: rstr
  dc_compose_project :: "rstr option"
  dc_compose_service :: "rstr option"
  dc_port_mappings :: "ContainerPortMapping list"
  dc_pid :: "u32 option"
  dc_cpu_pct :: "flt option"
  dc_memory_bytes :: "u64 option"

section \<open>The port field\<close>

definition parse_port_part :: "rstr \<Rightarrow> ContainerPortMapping option" where
  "parse_port_part part =
     (case split_once_str ''->'' (trim part) of
        None \<Rightarrow> None
      | Some (host_side, container_side) \<Rightarrow>
          (case (case rsplit_once (CHR '':'') host_side of Some x \<Rightarrow> x | None \<Rightarrow> (''0.0.0.0'', host_side)) of
             (host_ip, host_port_str) \<Rightarrow>
               (case (case split_once (CHR ''/'') container_side of Some x \<Rightarrow> x | None \<Rightarrow> (container_side, ''tcp'')) of
                  (container_port_str, proto) \<Rightarrow>
                    (case (parse_u16 host_port_str, parse_u16 container_port_str) of
                       (Some h_port, Some c_port) \<Rightarrow>
                         Some \<lparr>pm_host_ip = host_ip, pm_host_port = h_port, pm_container_port = c_port, pm_protocol = proto\<rparr>
                     | _ \<Rightarrow> None))))"

definition parse_ports_field :: "rstr \<Rightarrow> ContainerPortMapping list" where
  "parse_ports_field ports_str = List.map_filter parse_port_part (split_on (CHR '','') ports_str)"

section \<open>One line of output\<close>

definition get_str :: "rstr \<Rightarrow> Json \<Rightarrow> rstr option" where
  "get_str k val = Option.bind (json_get k val) as_str"

definition trim_start_char :: "char \<Rightarrow> rstr \<Rightarrow> rstr" where
  "trim_start_char c s = dropWhile (\<lambda>x. x = c) s"

definition str_or :: "rstr \<Rightarrow> rstr option \<Rightarrow> rstr" where
  "str_or d v = (case v of Some s \<Rightarrow> s | None \<Rightarrow> d)"

definition container_names :: "Json \<Rightarrow> rstr list" where
  "container_names val =
     (let names_str = str_or [] (get_str ''Names'' val) in
      if names_str \<noteq> [] then map (\<lambda>s. trim_start_char (CHR ''/'') (trim s)) (split_on (CHR '','') names_str)
      else case Option.bind (json_get ''Names'' val) as_array of
             Some arr \<Rightarrow> List.map_filter (\<lambda>v. map_option (trim_start_char (CHR ''/'')) (as_str v)) arr
           | None \<Rightarrow> [])"

definition container_of :: "Json \<Rightarrow> DockerContainerInfo option" where
  "container_of val =
     (let id = str_or [] (Option.bind (case json_get ''ID'' val of Some v \<Rightarrow> Some v | None \<Rightarrow> json_get ''Id'' val) as_str);
          labels = json_get ''Labels'' val
      in if id = [] then None
         else Some \<lparr>dc_id = id, dc_names = container_names val, dc_image = str_or [] (get_str ''Image'' val),
                dc_command = str_or [] (get_str ''Command'' val), dc_state = str_or ''running'' (get_str ''State'' val),
                dc_status = str_or [] (get_str ''Status'' val),
                dc_compose_project = Option.bind labels (get_str ''com.docker.compose.project''),
                dc_compose_service = Option.bind labels (get_str ''com.docker.compose.service''),
                dc_port_mappings = parse_ports_field (str_or [] (get_str ''Ports'' val)),
                dc_pid = None, dc_cpu_pct = None, dc_memory_bytes = None\<rparr>)"

definition parse_docker_ps_json :: "(rstr \<Rightarrow> Json option) \<Rightarrow> rstr \<Rightarrow> DockerContainerInfo list" where
  "parse_docker_ps_json from_str ndjson =
     List.map_filter (\<lambda>line. let trimmed = trim line in if trimmed = [] then None else Option.bind (from_str trimmed) container_of)
       (lines ndjson)"

section \<open>Printed ports are read back\<close>

text \<open>The form \<open>docker ps\<close> prints: address, port, arrow, port, slash, protocol, separated by commas and spaces.\<close>

definition show_mapping :: "ContainerPortMapping \<Rightarrow> rstr" where
  "show_mapping m = pm_host_ip m @ '':'' @ show_nat (unat (pm_host_port m)) @ ''->'' @
     show_nat (unat (pm_container_port m)) @ ''/'' @ pm_protocol m"

definition wf_mapping :: "ContainerPortMapping \<Rightarrow> bool" where
  "wf_mapping m \<longleftrightarrow> is_name (pm_host_ip m) \<and> is_name (pm_protocol m) \<and>
     CHR '','' \<notin> set (pm_host_ip m @ pm_protocol m) \<and> CHR ''-'' \<notin> set (pm_host_ip m)"

lemma show_nat_char: "c \<in> set (show_nat n) \<Longrightarrow> 48 \<le> byte c \<and> byte c \<le> 57"
  using show_nat_digits [of n] by (auto simp: is_digits_def list_all_iff is_ascii_digit_def)

lemma show_nat_no:
  "CHR '':'' \<notin> set (show_nat n)" "CHR ''-'' \<notin> set (show_nat n)" "CHR '','' \<notin> set (show_nat n)" "CHR ''/'' \<notin> set (show_nat n)"
  using show_nat_char [of _ n] by (fastforce simp: byte_def)+

lemma find_str_append:
  assumes "CHR ''-'' \<notin> set a"
  shows "find_str ''->'' (a @ ''->'' @ b) = Some (length a)"
  using assms
proof (induction a)
  case (Cons x a)
  then have "x \<noteq> CHR ''-''" by auto
  with Cons show ?case by simp
qed simp

lemma split_arrow:
  assumes "CHR ''-'' \<notin> set a"
  shows "split_once_str ''->'' (a @ ''->'' @ b) = Some (a, b)"
  unfolding split_once_str_def find_str_append [OF assms] by simp

lemma after_last_append: "c \<notin> set b \<Longrightarrow> after_last c (a @ c # b) = b"
proof -
  assume "c \<notin> set b"
  then have "takeWhile (\<lambda>x. x \<noteq> c) (rev b @ c # rev a) = rev b"
    by (subst takeWhile_append2) auto
  then show ?thesis by (simp add: after_last_def)
qed

lemma rsplit_append: "c \<notin> set b \<Longrightarrow> rsplit_once c (a @ c # b) = Some (a, b)"
  by (simp add: rsplit_once_def after_last_append)

lemma show_mapping_bounded:
  assumes "wf_mapping m"
  shows "trim (show_mapping m) = show_mapping m" "trim (SP # show_mapping m) = show_mapping m"
proof -
  have names: "is_name (pm_host_ip m)" "is_name (pm_protocol m)" using assms by (simp_all add: wf_mapping_def)
  obtain a t where a: "pm_host_ip m = a # t" "printable a" using is_name_ends [OF names(1)] by metis
  obtain u z where z: "pm_protocol m = u @ [z]" "printable z" using is_name_ends [OF names(2)] by metis
  let ?mid = "'':'' @ show_nat (unat (pm_host_port m)) @ ''->'' @ show_nat (unat (pm_container_port m)) @ ''/''"
  have "show_mapping m = a # (t @ ?mid @ pm_protocol m)" "show_mapping m = (pm_host_ip m @ ?mid @ u) @ [z]"
    using a(1) z(1) by (simp_all add: show_mapping_def)
  with a(2) z(2) show "trim (show_mapping m) = show_mapping m" "trim (SP # show_mapping m) = show_mapping m"
    using trim_bounded [of a z "show_mapping m"] unfolding printable_def by blast+
qed

lemma parse_show_mapping:
  assumes "wf_mapping m" "trim part = show_mapping m"
  shows "parse_port_part part = Some m"
proof -
  let ?h = "pm_host_ip m @ '':'' @ show_nat (unat (pm_host_port m))"
  let ?c = "show_nat (unat (pm_container_port m)) @ ''/'' @ pm_protocol m"
  have "CHR ''-'' \<notin> set ?h" using assms(1) show_nat_no by (simp add: wf_mapping_def)
  then have "split_once_str ''->'' (show_mapping m) = Some (?h, ?c)"
    using split_arrow [of ?h ?c] by (simp add: show_mapping_def)
  moreover have "rsplit_once (CHR '':'') ?h = Some (pm_host_ip m, show_nat (unat (pm_host_port m)))"
    using rsplit_append show_nat_no(1) by simp
  moreover have "split_once (CHR ''/'') ?c = Some (show_nat (unat (pm_container_port m)), pm_protocol m)"
    using split_once_append show_nat_no(4) by simp
  ultimately show ?thesis by (simp add: parse_port_part_def assms(2) parse_u16_show)
qed

lemma show_mapping_no_comma: "wf_mapping m \<Longrightarrow> CHR '','' \<notin> set (show_mapping m)"
  using show_nat_no(3) by (auto simp: wf_mapping_def show_mapping_def)

lemma split_shown:
  assumes "list_all wf_mapping ms" "ms \<noteq> []" and pad: "CHR '','' \<notin> set pad"
  shows "split_on (CHR '','') (pad @ join '', '' (map show_mapping ms)) =
         (pad @ show_mapping (hd ms)) # map (\<lambda>m. SP # show_mapping m) (tl ms)"
  using assms
proof (induction ms arbitrary: pad)
  case (Cons m ms)
  have no: "CHR '','' \<notin> set (pad @ show_mapping m)" using Cons.prems show_mapping_no_comma by simp
  show ?case
  proof (cases ms)
    case Nil
    with no show ?thesis by (simp add: split_on_single)
  next
    case (Cons v vs)
    have "pad @ join '', '' (map show_mapping (m # ms)) = (pad @ show_mapping m) @ CHR '','' # [SP] @ join '', '' (map show_mapping ms)"
      using Cons by simp
    then show ?thesis
      using split_on_append [OF no] Cons.IH [of "[SP]"] Cons.prems Cons by simp
  qed
qed simp

theorem docker_ports_roundtrip:
  assumes "list_all wf_mapping ms"
  shows "parse_ports_field (join '', '' (map show_mapping ms)) = ms"
proof (cases ms)
  case Nil
  moreover have "trim [] = []" by (rule trim_idI) (simp_all add: utf8_whitespace_def)
  ultimately show ?thesis
    by (simp add: parse_ports_field_def parse_port_part_def split_once_str_def map_filter_simps)
next
  case (Cons m vs)
  have parts: "parse_port_part (show_mapping m) = Some m" "parse_port_part (SP # show_mapping m) = Some m" if "wf_mapping m" for m
    using parse_show_mapping [OF that] show_mapping_bounded [OF that] by blast+
  have "List.map_filter parse_port_part (map (\<lambda>m. SP # show_mapping m) vs) = vs" if "list_all wf_mapping vs" for vs
    using that by (induction vs) (simp_all add: map_filter_simps parts)
  then show ?thesis
    using split_shown [of ms "[]"] assms Cons parts(1) by (simp add: parse_ports_field_def map_filter_simps)
qed

end
