(* ===== verification/Topology.thy ===== *)
theory Topology
  imports Nginx Docker
begin

text \<open>
  crates/kyvon-core/src/topology.rs (graphs), crates/kyvon-topology/src/ports.rs and graph.rs: the graph of
  domains, server blocks, containers and processes of a server. A hash map is a partial function. The label of a
  container without a name is a slice of its identifier; a slice that would cut a character panics, which is
  \<open>None\<close>. The clock is an argument.
\<close>

section \<open>Graphs\<close>

datatype NodeKind = Domain | ReverseProxy | ServerBlock | Upstream | Container | Pod | Process | Port | Database | ExternalService

datatype EdgeKind = ProxiesTo | RunsIn | OwnedBy | ConnectsTo | ListensOn | DependsOn

record TopologyNode =
  tn_id :: rstr
  tn_kind :: NodeKind
  tn_label :: rstr
  tn_metadata :: "rstr \<rightharpoonup> rstr"

record TopologyEdge =
  te_from :: rstr
  te_to :: rstr
  te_kind :: EdgeKind
  te_label :: "rstr option"

record TopologyGraph =
  tg_server_id :: rstr
  tg_nodes :: "TopologyNode list"
  tg_edges :: "TopologyEdge list"
  tg_generated_at_ms :: TimestampMs

record PortBinding =
  pb_port :: u16
  pb_protocol :: rstr
  pb_address :: rstr
  pb_pid :: "u32 option"
  pb_process_name :: "rstr option"
  pb_is_world_exposed :: bool

definition index_port_bindings :: "PortBinding list \<Rightarrow> u16 \<rightharpoonup> PortBinding" where
  "index_port_bindings sockets = fold (\<lambda>s m. m(pb_port s \<mapsto> s)) sockets Map.empty"

section \<open>The builder\<close>

record TopologyBuilder =
  tb_server_id :: rstr
  tb_nodes :: "TopologyNode list"
  tb_edges :: "TopologyEdge list"
  tb_node_ids :: "rstr \<rightharpoonup> nat"

definition builder_new :: "rstr \<Rightarrow> TopologyBuilder" where
  "builder_new server_id = \<lparr>tb_server_id = server_id, tb_nodes = [], tb_edges = [], tb_node_ids = Map.empty\<rparr>"

definition add_node :: "rstr \<Rightarrow> NodeKind \<Rightarrow> rstr \<Rightarrow> (rstr \<rightharpoonup> rstr) \<Rightarrow> TopologyBuilder \<Rightarrow> TopologyBuilder" where
  "add_node nid kind label metadata b =
     (if tb_node_ids b nid = None then
        b\<lparr>tb_node_ids := (tb_node_ids b)(nid \<mapsto> length (tb_nodes b)),
          tb_nodes := tb_nodes b @ [\<lparr>tn_id = nid, tn_kind = kind, tn_label = label, tn_metadata = metadata\<rparr>]\<rparr>
      else b)"

definition add_edge :: "rstr \<Rightarrow> rstr \<Rightarrow> EdgeKind \<Rightarrow> rstr option \<Rightarrow> TopologyBuilder \<Rightarrow> TopologyBuilder" where
  "add_edge src dst kind label b = b\<lparr>tb_edges := tb_edges b @ [\<lparr>te_from = src, te_to = dst, te_kind = kind, te_label = label\<rparr>]\<rparr>"

definition build :: "TimestampMs \<Rightarrow> TopologyBuilder \<Rightarrow> TopologyGraph" where
  "build now b = \<lparr>tg_server_id = tb_server_id b, tg_nodes = tb_nodes b, tg_edges = tb_edges b, tg_generated_at_ms = now\<rparr>"

section \<open>Synthesis\<close>

definition container_node :: "DockerContainerInfo \<Rightarrow> rstr" where
  "container_node c = ''container:'' @ dc_id c"

definition pid_node :: "u32 \<Rightarrow> rstr" where
  "pid_node pid = ''pid:'' @ show_nat (unat pid)"

definition block_node :: "nat \<Rightarrow> rstr" where
  "block_node idx = ''nginx_block:'' @ show_nat idx"

definition domain_node :: "rstr \<Rightarrow> rstr" where
  "domain_node domain = ''domain:'' @ domain"

text \<open>\<open>id[..12.min(id.len())]\<close>: the cut has to be at the start of a character.\<close>

definition short_id :: "rstr \<Rightarrow> rstr option" where
  "short_id cid =
     (if length cid \<le> 12 then Some cid
      else if 128 \<le> byte (cid ! 12) \<and> byte (cid ! 12) < 192 then None
      else Some (take 12 cid))"

definition container_label :: "DockerContainerInfo \<Rightarrow> rstr option" where
  "container_label c = (case dc_names c of n # _ \<Rightarrow> Some n | [] \<Rightarrow> short_id (dc_id c))"

definition container_meta :: "DockerContainerInfo \<Rightarrow> rstr \<rightharpoonup> rstr" where
  "container_meta c =
     (let meta = [''image'' \<mapsto> dc_image c, ''status'' \<mapsto> dc_status c] in
      case dc_compose_service c of Some svc \<Rightarrow> meta(''compose_service'' \<mapsto> svc) | None \<Rightarrow> meta)"

type_synonym port_owner = "u16 \<rightharpoonup> DockerContainerInfo"

definition publish_port :: "DockerContainerInfo \<Rightarrow> ContainerPortMapping \<Rightarrow> port_owner \<Rightarrow> port_owner" where
  "publish_port c p m = m(pm_host_port p \<mapsto> c, pm_container_port p \<mapsto> c)"

primrec add_containers :: "DockerContainerInfo list \<Rightarrow> TopologyBuilder \<times> port_owner \<Rightarrow> (TopologyBuilder \<times> port_owner) option" where
  "add_containers [] st = Some st"
| "add_containers (c # cs) st =
     (case container_label c of
        None \<Rightarrow> None
      | Some label \<Rightarrow>
          add_containers cs (add_node (container_node c) Container label (container_meta c) (fst st),
                             fold (publish_port c) (dc_port_mappings c) (snd st)))"

definition process_meta :: "PortBinding \<Rightarrow> rstr \<rightharpoonup> rstr" where
  "process_meta p =
     (case pb_process_name p of Some name \<Rightarrow> [''process_name'' \<mapsto> name] | None \<Rightarrow> Map.empty)
       (''port'' \<mapsto> show_nat (unat (pb_port p)))"

definition add_binding :: "port_owner \<Rightarrow> PortBinding \<Rightarrow> TopologyBuilder \<times> (u16 \<rightharpoonup> PortBinding) \<Rightarrow> TopologyBuilder \<times> (u16 \<rightharpoonup> PortBinding)" where
  "add_binding owner p st =
     (case st of (b, bound) \<Rightarrow>
       (case pb_pid p of
          None \<Rightarrow> b
        | Some pid \<Rightarrow>
            (let b = add_node (pid_node pid) Process
                       (case pb_process_name p of Some n \<Rightarrow> n | None \<Rightarrow> ''PID '' @ show_nat (unat pid)) (process_meta p) b
             in case owner (pb_port p) of
                  Some c \<Rightarrow> add_edge (container_node c) (pid_node pid) RunsIn (Some ''process'') b
                | None \<Rightarrow> b),
        bound(pb_port p \<mapsto> p)))"

definition block_meta :: "NginxServerBlock \<Rightarrow> rstr \<rightharpoonup> rstr" where
  "block_meta block =
     (let meta = [''ssl'' \<mapsto> (if nb_is_ssl block then ''true'' else ''false'')] in
      case nb_ssl_certificate block of Some cert \<Rightarrow> meta(''ssl_certificate'' \<mapsto> cert) | None \<Rightarrow> meta)"

definition add_domain :: "rstr \<Rightarrow> rstr \<Rightarrow> TopologyBuilder \<Rightarrow> TopologyBuilder" where
  "add_domain block_id domain b =
     add_edge (domain_node domain) block_id ProxiesTo (Some ''reverse_proxy'')
       (add_node (domain_node domain) Domain domain [''domain'' \<mapsto> domain] b)"

definition proxy_port :: "rstr \<Rightarrow> u16 option" where
  "proxy_port proxy =
     (let target_cleaned = trim_end_char (CHR ''/'') (trim_start_matches ''https://'' (trim_start_matches ''http://'' proxy)) in
      case split_once (CHR '':'') target_cleaned of Some (_, port_str) \<Rightarrow> parse_u16 port_str | None \<Rightarrow> None)"

definition add_proxy :: "port_owner \<Rightarrow> (u16 \<rightharpoonup> PortBinding) \<Rightarrow> rstr \<Rightarrow> rstr \<Rightarrow> TopologyBuilder \<Rightarrow> TopologyBuilder" where
  "add_proxy owner bound block_id proxy b =
     (case proxy_port proxy of
        None \<Rightarrow> b
      | Some port \<Rightarrow>
          (let label = Some (''upstream port '' @ show_nat (unat port)) in
           case owner port of
             Some c \<Rightarrow> add_edge block_id (container_node c) ProxiesTo label b
           | None \<Rightarrow>
               (case bound port of
                  Some p \<Rightarrow> (case pb_pid p of Some pid \<Rightarrow> add_edge block_id (pid_node pid) ProxiesTo label b | None \<Rightarrow> b)
                | None \<Rightarrow> b)))"

definition add_block :: "port_owner \<Rightarrow> (u16 \<rightharpoonup> PortBinding) \<Rightarrow> nat \<times> NginxServerBlock \<Rightarrow> TopologyBuilder \<Rightarrow> TopologyBuilder" where
  "add_block owner bound ib b =
     (case ib of (idx, block) \<Rightarrow>
       let block_id = block_node idx;
           b = add_node block_id ServerBlock
                 (''vhost:'' @ (case nb_server_names block of n # _ \<Rightarrow> n | [] \<Rightarrow> ''default'')) (block_meta block) b;
           b = fold (add_domain block_id) (nb_server_names block) b
       in fold (add_proxy owner bound block_id) (nb_proxy_passes block) b)"

definition synthesize_topology ::
    "TimestampMs \<Rightarrow> rstr \<Rightarrow> NginxConfigDump option \<Rightarrow> DockerContainerInfo list \<Rightarrow> PortBinding list \<Rightarrow> TopologyGraph option" where
  "synthesize_topology now server_id nginx containers ports =
     (case add_containers containers (builder_new server_id, Map.empty) of
        None \<Rightarrow> None
      | Some (b, owner) \<Rightarrow>
          (case fold (add_binding owner) ports (b, Map.empty) of
             (b, bound) \<Rightarrow>
               Some (build now
                 (case nginx of
                    Some dump \<Rightarrow> fold (add_block owner bound) (enumerate 0 (nd_server_blocks dump)) b
                  | None \<Rightarrow> b))))"

section \<open>The graph, declaratively\<close>

text \<open>
  What the graph should be, without builder, hash maps or loops: a port belongs to the last container that
  mentions it and to the last socket bound to it, the nodes are the candidates less those whose identifier came
  before, and the edges are listed.
\<close>

definition mentions :: "u16 \<Rightarrow> DockerContainerInfo \<Rightarrow> bool" where
  "mentions port c \<longleftrightarrow> list_ex (\<lambda>p. pm_host_port p = port \<or> pm_container_port p = port) (dc_port_mappings c)"

definition owner_of :: "DockerContainerInfo list \<Rightarrow> port_owner" where
  "owner_of cs port = find (mentions port) (rev cs)"

definition bound_to :: "PortBinding list \<Rightarrow> u16 \<rightharpoonup> PortBinding" where
  "bound_to ps port = find (\<lambda>p. pb_port p = port) (rev ps)"

definition put_node :: "TopologyNode \<Rightarrow> TopologyNode list \<Rightarrow> TopologyNode list" where
  "put_node n ns = (if tn_id n \<in> tn_id ` set ns then ns else ns @ [n])"

definition container_entry :: "DockerContainerInfo \<Rightarrow> TopologyNode" where
  "container_entry c = \<lparr>tn_id = container_node c, tn_kind = Container, tn_label = the (container_label c), tn_metadata = container_meta c\<rparr>"

definition process_entry :: "PortBinding \<Rightarrow> TopologyNode option" where
  "process_entry p = map_option (\<lambda>pid. \<lparr>tn_id = pid_node pid, tn_kind = Process,
     tn_label = (case pb_process_name p of Some n \<Rightarrow> n | None \<Rightarrow> ''PID '' @ show_nat (unat pid)), tn_metadata = process_meta p\<rparr>) (pb_pid p)"

definition domain_entry :: "rstr \<Rightarrow> TopologyNode" where
  "domain_entry d = \<lparr>tn_id = domain_node d, tn_kind = Domain, tn_label = d, tn_metadata = [''domain'' \<mapsto> d]\<rparr>"

definition block_entries :: "nat \<times> NginxServerBlock \<Rightarrow> TopologyNode list" where
  "block_entries ib = (case ib of (idx, block) \<Rightarrow>
     \<lparr>tn_id = block_node idx, tn_kind = ServerBlock,
      tn_label = ''vhost:'' @ (case nb_server_names block of n # _ \<Rightarrow> n | [] \<Rightarrow> ''default''), tn_metadata = block_meta block\<rparr> #
     map domain_entry (nb_server_names block))"

definition process_edge :: "port_owner \<Rightarrow> PortBinding \<Rightarrow> TopologyEdge option" where
  "process_edge owner p = (case (pb_pid p, owner (pb_port p)) of
     (Some pid, Some c) \<Rightarrow> Some \<lparr>te_from = container_node c, te_to = pid_node pid, te_kind = RunsIn, te_label = Some ''process''\<rparr>
   | _ \<Rightarrow> None)"

definition proxy_target :: "port_owner \<Rightarrow> (u16 \<rightharpoonup> PortBinding) \<Rightarrow> u16 \<Rightarrow> rstr option" where
  "proxy_target owner bound port = (case owner port of
     Some c \<Rightarrow> Some (container_node c)
   | None \<Rightarrow> map_option pid_node (Option.bind (bound port) pb_pid))"

definition proxy_edge :: "port_owner \<Rightarrow> (u16 \<rightharpoonup> PortBinding) \<Rightarrow> rstr \<Rightarrow> rstr \<Rightarrow> TopologyEdge option" where
  "proxy_edge owner bound block_id proxy = Option.bind (proxy_port proxy) (\<lambda>port.
     map_option (\<lambda>dst. \<lparr>te_from = block_id, te_to = dst, te_kind = ProxiesTo, te_label = Some (''upstream port '' @ show_nat (unat port))\<rparr>)
       (proxy_target owner bound port))"

definition block_edges :: "port_owner \<Rightarrow> (u16 \<rightharpoonup> PortBinding) \<Rightarrow> nat \<times> NginxServerBlock \<Rightarrow> TopologyEdge list" where
  "block_edges owner bound ib = (case ib of (idx, block) \<Rightarrow>
     map (\<lambda>d. \<lparr>te_from = domain_node d, te_to = block_node idx, te_kind = ProxiesTo, te_label = Some ''reverse_proxy''\<rparr>) (nb_server_names block) @
     List.map_filter (proxy_edge owner bound (block_node idx)) (nb_proxy_passes block))"

definition server_blocks :: "NginxConfigDump option \<Rightarrow> (nat \<times> NginxServerBlock) list" where
  "server_blocks nginx = (case nginx of Some dump \<Rightarrow> enumerate 0 (nd_server_blocks dump) | None \<Rightarrow> [])"

definition graph_nodes :: "NginxConfigDump option \<Rightarrow> DockerContainerInfo list \<Rightarrow> PortBinding list \<Rightarrow> TopologyNode list" where
  "graph_nodes nginx cs ps =
     fold put_node (map container_entry cs @ List.map_filter process_entry ps @ concat (map block_entries (server_blocks nginx))) []"

definition graph_edges :: "NginxConfigDump option \<Rightarrow> DockerContainerInfo list \<Rightarrow> PortBinding list \<Rightarrow> TopologyEdge list" where
  "graph_edges nginx cs ps =
     List.map_filter (process_edge (owner_of cs)) ps @
     concat (map (block_edges (owner_of cs) (bound_to ps)) (server_blocks nginx))"

lemma find_append: "find P (xs @ ys) = (case find P xs of Some x \<Rightarrow> Some x | None \<Rightarrow> find P ys)"
  by (induction xs) auto

lemma case_option_id: "(case x of None \<Rightarrow> None | Some y \<Rightarrow> Some y) = x"
  by (cases x) auto

section \<open>The builder keeps its index\<close>

definition builder_inv :: "TopologyBuilder \<Rightarrow> bool" where
  "builder_inv b \<longleftrightarrow> distinct (map tn_id (tb_nodes b)) \<and>
     (\<forall>nid i. tb_node_ids b nid = Some i \<longleftrightarrow> i < length (tb_nodes b) \<and> tn_id (tb_nodes b ! i) = nid)"

lemma builder_inv_new: "builder_inv (builder_new s)"
  by (simp add: builder_inv_def builder_new_def)

lemma builder_index_None:
  assumes "builder_inv b"
  shows "tb_node_ids b nid = None \<longleftrightarrow> nid \<notin> tn_id ` set (tb_nodes b)"
proof -
  have "(\<exists>i. tb_node_ids b nid = Some i) \<longleftrightarrow> nid \<in> tn_id ` set (tb_nodes b)"
    using assms unfolding builder_inv_def image_iff by (metis in_set_conv_nth)
  then show ?thesis by (cases "tb_node_ids b nid") auto
qed

text \<open>A builder in step with the declarative lists.\<close>

definition in_step :: "rstr \<Rightarrow> TopologyNode list \<Rightarrow> TopologyEdge list \<Rightarrow> TopologyBuilder \<Rightarrow> bool" where
  "in_step s ns es b \<longleftrightarrow> builder_inv b \<and> tb_server_id b = s \<and> tb_nodes b = ns \<and> tb_edges b = es"

lemma add_node_step:
  assumes "in_step s ns es b"
  shows "in_step s (put_node \<lparr>tn_id = i, tn_kind = k, tn_label = l, tn_metadata = m\<rparr> ns) es (add_node i k l m b)"
proof (cases "i \<in> tn_id ` set ns")
  case True
  have "tb_node_ids b i \<noteq> None" using assms True builder_index_None [of b i] unfolding in_step_def by blast
  with assms True show ?thesis by (auto simp: put_node_def add_node_def)
next
  case False
  have b: "tb_server_id b = s" "tb_nodes b = ns" "tb_edges b = es" "builder_inv b"
    using assms by (simp_all add: in_step_def)
  from b(4) have inv: "distinct (map tn_id ns)" "\<And>nid j. tb_node_ids b nid = Some j \<longleftrightarrow> j < length ns \<and> tn_id (ns ! j) = nid"
    by (simp_all add: builder_inv_def b(2))
  have none: "tb_node_ids b i = None" using assms False builder_index_None [of b i] unfolding in_step_def by blast
  let ?n = "\<lparr>tn_id = i, tn_kind = k, tn_label = l, tn_metadata = m\<rparr>"
  have "((tb_node_ids b)(i \<mapsto> length ns)) nid = Some j \<longleftrightarrow> j < length (ns @ [?n]) \<and> tn_id ((ns @ [?n]) ! j) = nid" for nid j
    using inv(2) [of nid j] none False by (auto simp: nth_append less_Suc_eq)
  with inv(1) False none b(1-3) show ?thesis
    by (simp add: in_step_def builder_inv_def put_node_def add_node_def)
qed

lemma add_edge_step:
  "in_step s ns es b \<Longrightarrow> in_step s ns (es @ [\<lparr>te_from = x, te_to = y, te_kind = k, te_label = l\<rparr>]) (add_edge x y k l b)"
  by (auto simp: in_step_def add_edge_def builder_inv_def)

lemma put_node_ids: "tn_id ` set (put_node n ns) = insert (tn_id n) (tn_id ` set ns)"
  by (auto simp: put_node_def)

lemma fold_put_node_ids: "tn_id ` set (fold put_node xs ns) = tn_id ` set ns \<union> tn_id ` set xs"
  by (induction xs arbitrary: ns) (auto simp: put_node_ids)

section \<open>The loops\<close>

lemma publish_ports:
  "fold (publish_port c) ps m port = (if list_ex (\<lambda>p. pm_host_port p = port \<or> pm_container_port p = port) ps then Some c else m port)"
  by (induction ps arbitrary: m) (auto simp: publish_port_def)

lemma add_containers_spec:
  assumes "in_step s ns es b"
  shows "if list_all (\<lambda>c. container_label c \<noteq> None) cs
         then \<exists>b' m'. add_containers cs (b, m) = Some (b', m') \<and> in_step s (fold put_node (map container_entry cs) ns) es b' \<and>
                (\<forall>port. m' port = (case owner_of cs port of Some c \<Rightarrow> Some c | None \<Rightarrow> m port))
         else add_containers cs (b, m) = None"
  using assms
proof (induction cs arbitrary: b m ns)
  case Nil
  then show ?case by (simp add: owner_of_def)
next
  case (Cons c cs)
  show ?case
  proof (cases "container_label c")
    case None
    then show ?thesis by simp
  next
    case (Some l)
    have "put_node (container_entry c) ns = put_node \<lparr>tn_id = container_node c, tn_kind = Container, tn_label = l, tn_metadata = container_meta c\<rparr> ns"
      using Some by (simp add: container_entry_def)
    then have b: "in_step s (put_node (container_entry c) ns) es (add_node (container_node c) Container l (container_meta c) b)"
      using add_node_step [OF Cons.prems] by simp
    have own: "(case owner_of cs port of None \<Rightarrow> fold (publish_port c) (dc_port_mappings c) m port | Some c' \<Rightarrow> Some c') =
        (case owner_of (c # cs) port of None \<Rightarrow> m port | Some c' \<Rightarrow> Some c')" for port
      by (auto simp: owner_of_def find_append publish_ports mentions_def split: option.splits)
    show ?thesis
      using Cons.IH [OF b, of "fold (publish_port c) (dc_port_mappings c) m"] Some own by (simp split: if_splits)
  qed
qed

lemma add_bindings_spec:
  assumes "in_step s ns es b"
  shows "\<exists>b' m'. fold (add_binding owner) ps (b, m) = (b', m') \<and>
     in_step s (fold put_node (List.map_filter process_entry ps) ns) (es @ List.map_filter (process_edge owner) ps) b' \<and>
     (\<forall>port. m' port = (case bound_to ps port of Some p \<Rightarrow> Some p | None \<Rightarrow> m port))"
  using assms
proof (induction ps arbitrary: b m ns es)
  case Nil
  then show ?case by (simp add: bound_to_def map_filter_simps)
next
  case (Cons p ps)
  define m1 where "m1 = m(pb_port p \<mapsto> p)"
  have own: "(case bound_to ps port of None \<Rightarrow> m1 port | Some q \<Rightarrow> Some q) =
      (case bound_to (p # ps) port of None \<Rightarrow> m port | Some q \<Rightarrow> Some q)" for port
    by (auto simp: m1_def bound_to_def find_append split: option.splits)
  define b1 where "b1 = fst (add_binding owner p (b, m))"
  have step: "add_binding owner p (b, m) = (b1, m1)"
    by (simp add: b1_def m1_def add_binding_def split: option.splits)
  have "in_step s (case process_entry p of Some n \<Rightarrow> put_node n ns | None \<Rightarrow> ns)
      (es @ (case process_edge owner p of Some e \<Rightarrow> [e] | None \<Rightarrow> [])) b1"
    using Cons.prems add_node_step [OF Cons.prems] add_edge_step
    by (auto simp: b1_def add_binding_def process_entry_def process_edge_def Let_def split: option.splits)
  from Cons.IH [OF this, of m1] show ?case
    unfolding own fold_simps step by (cases "process_entry p"; cases "process_edge owner p") (simp_all add: map_filter_simps)
qed

lemma add_domains_spec:
  assumes "in_step s ns es b"
  shows "in_step s (fold put_node (map domain_entry ds) ns)
     (es @ map (\<lambda>d. \<lparr>te_from = domain_node d, te_to = block_id, te_kind = ProxiesTo, te_label = Some ''reverse_proxy''\<rparr>) ds)
     (fold (add_domain block_id) ds b)"
  using assms
proof (induction ds arbitrary: b ns es)
  case (Cons d ds)
  have "in_step s (put_node (domain_entry d) ns)
      (es @ [\<lparr>te_from = domain_node d, te_to = block_id, te_kind = ProxiesTo, te_label = Some ''reverse_proxy''\<rparr>]) (add_domain block_id d b)"
    unfolding add_domain_def domain_entry_def by (intro add_edge_step add_node_step Cons.prems)
  from Cons.IH [OF this] show ?case by simp
qed simp

lemma add_proxies_spec:
  assumes "in_step s ns es b"
  shows "in_step s ns (es @ List.map_filter (proxy_edge owner bound block_id) ps) (fold (add_proxy owner bound block_id) ps b)"
  using assms
proof (induction ps arbitrary: b es)
  case (Cons p ps)
  have "in_step s ns (es @ (case proxy_edge owner bound block_id p of Some e \<Rightarrow> [e] | None \<Rightarrow> [])) (add_proxy owner bound block_id p b)"
    using Cons.prems add_edge_step [OF Cons.prems]
    by (auto simp: add_proxy_def proxy_edge_def proxy_target_def Let_def split: option.splits)
  from Cons.IH [OF this] show ?case by (auto simp: map_filter_simps split: option.splits)
qed (simp add: map_filter_simps)

lemma add_blocks_spec:
  assumes "in_step s ns es b"
  shows "in_step s (fold put_node (concat (map block_entries ibs)) ns) (es @ concat (map (block_edges owner bound) ibs))
     (fold (add_block owner bound) ibs b)"
  using assms
proof (induction ibs arbitrary: b ns es)
  case (Cons ib ibs)
  obtain idx block where ib: "ib = (idx, block)" by fastforce
  have "in_step s (fold put_node (block_entries ib) ns) (es @ block_edges owner bound ib) (add_block owner bound ib b)"
    using add_proxies_spec [OF add_domains_spec [OF add_node_step [OF Cons.prems]]]
    by (simp add: ib add_block_def block_entries_def block_edges_def Let_def)
  from Cons.IH [OF this] show ?case by simp
qed simp

section \<open>The graph is the declared one\<close>

lemma topology_computes:
  "synthesize_topology now server_id nginx containers ports =
     (if list_all (\<lambda>c. container_label c \<noteq> None) containers
      then Some \<lparr>tg_server_id = server_id, tg_nodes = graph_nodes nginx containers ports,
             tg_edges = graph_edges nginx containers ports, tg_generated_at_ms = now\<rparr>
      else None)"
proof (cases "list_all (\<lambda>c. container_label c \<noteq> None) containers")
  case True
  have start: "in_step server_id [] [] (builder_new server_id)"
    by (simp add: in_step_def builder_inv_new) (simp add: builder_new_def)
  obtain b owner where 1: "add_containers containers (builder_new server_id, Map.empty) = Some (b, owner)"
      "in_step server_id (fold put_node (map container_entry containers) []) [] b" "owner = owner_of containers"
    using add_containers_spec [OF start, of containers Map.empty] True
    by (auto simp: fun_eq_iff case_option_id)
  obtain b' bound where 2: "fold (add_binding owner) ports (b, Map.empty) = (b', bound)" "bound = bound_to ports"
      "in_step server_id (fold put_node (List.map_filter process_entry ports) (fold put_node (map container_entry containers) []))
         ([] @ List.map_filter (process_edge owner) ports) b'"
    using add_bindings_spec [OF 1(2), of owner ports Map.empty] by (auto simp: fun_eq_iff case_option_id)
  have "(case nginx of Some dump \<Rightarrow> fold (add_block owner bound) (enumerate 0 (nd_server_blocks dump)) b' | None \<Rightarrow> b') =
      fold (add_block owner bound) (server_blocks nginx) b'"
    by (simp add: server_blocks_def split: option.splits)
  moreover have "in_step server_id (graph_nodes nginx containers ports) (graph_edges nginx containers ports)
      (fold (add_block owner bound) (server_blocks nginx) b')"
    using add_blocks_spec [OF 2(3), of "server_blocks nginx" owner bound] 1(3) 2(2)
    by (simp add: graph_nodes_def graph_edges_def)
  ultimately show ?thesis
    using True 1(1) 2(1) by (simp add: synthesize_topology_def build_def in_step_def)
next
  case False
  have "in_step server_id [] [] (builder_new server_id)"
    by (simp add: in_step_def builder_inv_new) (simp add: builder_new_def)
  from add_containers_spec [OF this, of containers Map.empty] False show ?thesis
    by (simp add: synthesize_topology_def split: if_splits)
qed

text \<open>C8. The synthesis computes exactly the declared graph: every container, every socket with a known process, every
  server block and every domain is a node, the first of each identifier; a port belongs to the last container
  that mentions it, else to the process of the last socket on it, and the edges are exactly the process edges and, block
  by block, the domain and proxy edges. It fails, by a panic, exactly when a container without a name has an
  identifier that cannot be cut after twelve bytes.\<close>

theorem topology_exact:
  "synthesize_topology now server_id nginx containers ports =
     (if list_all (\<lambda>c. container_label c \<noteq> None) containers
      then Some \<lparr>tg_server_id = server_id, tg_nodes = graph_nodes nginx containers ports,
             tg_edges = graph_edges nginx containers ports, tg_generated_at_ms = now\<rparr>
      else None)"
  by (rule topology_computes)

section \<open>The graph is closed\<close>

lemma find_Some_mem: "find P xs = Some x \<Longrightarrow> x \<in> set xs \<and> P x"
  by (auto simp: find_Some_iff)

lemma distinct_put_node: "distinct (map tn_id ns) \<Longrightarrow> distinct (map tn_id (put_node n ns))"
  by (simp add: put_node_def)

lemma distinct_fold_put_node: "distinct (map tn_id ns) \<Longrightarrow> distinct (map tn_id (fold put_node xs ns))"
  by (induction xs arbitrary: ns) (auto simp: distinct_put_node)

lemma graph_node_ids:
  "tn_id ` set (graph_nodes nginx cs ps) =
     container_node ` set cs \<union> {pid_node pid |p pid. p \<in> set ps \<and> pb_pid p = Some pid} \<union>
     (\<Union>(idx, block) \<in> set (server_blocks nginx). insert (block_node idx) (domain_node ` set (nb_server_names block)))"
proof -
  have "tn_id ` set (List.map_filter process_entry ps) = {pid_node pid |p pid. p \<in> set ps \<and> pb_pid p = Some pid}"
    by (induction ps) (auto simp: map_filter_simps process_entry_def split: option.splits)
  moreover have "tn_id ` set (block_entries ib) = (case ib of (idx, block) \<Rightarrow> insert (block_node idx) (domain_node ` set (nb_server_names block)))" for ib
    by (cases ib) (simp add: block_entries_def domain_entry_def image_image)
  moreover have "tn_id ` set (map container_entry cs) = container_node ` set cs"
    by (simp add: container_entry_def image_image)
  ultimately show ?thesis
    unfolding graph_nodes_def fold_put_node_ids by (simp add: image_Un image_UN Un_assoc)
qed

lemma in_map_filter: "y \<in> set (List.map_filter f xs) \<longleftrightarrow> (\<exists>x \<in> set xs. f x = Some y)"
  by (induction xs) (auto simp: map_filter_simps split: option.splits)

lemma owner_node: "owner_of cs port = Some c \<Longrightarrow> container_node c \<in> container_node ` set cs"
  using find_Some_mem unfolding owner_of_def by fastforce

lemma proxy_target_node:
  assumes "proxy_target (owner_of cs) (bound_to ps) port = Some dst"
  shows "dst \<in> container_node ` set cs \<union> {pid_node pid |p pid. p \<in> set ps \<and> pb_pid p = Some pid}"
proof (cases "owner_of cs port")
  case None
  with assms obtain p pid where "bound_to ps port = Some p" "pb_pid p = Some pid" "dst = pid_node pid"
    by (auto simp: proxy_target_def bind_eq_Some_conv)
  then show ?thesis using find_Some_mem unfolding bound_to_def by fastforce
next
  case (Some c)
  with assms owner_node [OF Some] show ?thesis by (auto simp: proxy_target_def)
qed

lemma graph_node_of:
  "x \<in> container_node ` set cs \<union> {pid_node pid |p pid. p \<in> set ps \<and> pb_pid p = Some pid} \<Longrightarrow> x \<in> tn_id ` set (graph_nodes nginx cs ps)"
  "(idx, block) \<in> set (server_blocks nginx) \<Longrightarrow> block_node idx \<in> tn_id ` set (graph_nodes nginx cs ps)"
  "(idx, block) \<in> set (server_blocks nginx) \<Longrightarrow> d \<in> set (nb_server_names block) \<Longrightarrow>
     domain_node d \<in> tn_id ` set (graph_nodes nginx cs ps)"
  unfolding graph_node_ids by blast+

lemma block_edge_cases:
  assumes "e \<in> set (block_edges owner bound (idx, block))"
  obtains (domain) d where "d \<in> set (nb_server_names block)" "te_from e = domain_node d" "te_to e = block_node idx"
    | (proxy) port where "te_from e = block_node idx" "proxy_target owner bound port = Some (te_to e)"
proof -
  have "(\<exists>d \<in> set (nb_server_names block). te_from e = domain_node d \<and> te_to e = block_node idx) \<or>
      (\<exists>port. te_from e = block_node idx \<and> proxy_target owner bound port = Some (te_to e))"
    using assms by (auto simp: block_edges_def in_map_filter proxy_edge_def bind_eq_Some_conv)
  then show thesis using domain proxy by blast
qed

lemma graph_edges_closed:
  assumes "e \<in> set (graph_edges nginx cs ps)"
  shows "te_from e \<in> tn_id ` set (graph_nodes nginx cs ps) \<and> te_to e \<in> tn_id ` set (graph_nodes nginx cs ps)"
proof -
  have "(\<exists>p \<in> set ps. process_edge (owner_of cs) p = Some e) \<or>
      (\<exists>ib \<in> set (server_blocks nginx). e \<in> set (block_edges (owner_of cs) (bound_to ps) ib))"
    using assms by (auto simp: graph_edges_def in_map_filter)
  then consider (process) p where "p \<in> set ps" "process_edge (owner_of cs) p = Some e"
    | (block) idx block where "(idx, block) \<in> set (server_blocks nginx)" "e \<in> set (block_edges (owner_of cs) (bound_to ps) (idx, block))"
    by (metis surj_pair)
  then show ?thesis
  proof cases
    case process
    then obtain pid c where e: "pb_pid p = Some pid" "owner_of cs (pb_port p) = Some c" "te_from e = container_node c" "te_to e = pid_node pid"
      by (auto simp: process_edge_def split: option.splits)
    have "te_to e \<in> {pid_node pid |p pid. p \<in> set ps \<and> pb_pid p = Some pid}" using e process(1) by blast
    with e(3) owner_node [OF e(2)] show ?thesis by (simp add: graph_node_of(1))
  next
    case block
    from block(2) show ?thesis
    proof (cases rule: block_edge_cases)
      case domain
      with block(1) show ?thesis using graph_node_of(2,3) by simp
    next
      case proxy
      from graph_node_of(1) [OF proxy_target_node [OF proxy(2)]] proxy(1) graph_node_of(2) [OF block(1)]
      show ?thesis by simp
    qed
  qed
qed

text \<open>C37. A synthesised graph is closed: its node identifiers are pairwise distinct and both ends of every edge are nodes.\<close>

theorem topology_closed:
  "case synthesize_topology now server_id nginx containers ports of
     None \<Rightarrow> list_ex (\<lambda>c. container_label c = None) containers
   | Some g \<Rightarrow> distinct (map tn_id (tg_nodes g)) \<and>
       list_all (\<lambda>e. te_from e \<in> tn_id ` set (tg_nodes g) \<and> te_to e \<in> tn_id ` set (tg_nodes g)) (tg_edges g)"
proof -
  have "distinct (map tn_id (graph_nodes nginx containers ports))"
    unfolding graph_nodes_def by (rule distinct_fold_put_node) simp
  then show ?thesis
    using graph_edges_closed [of _ nginx containers ports] topology_computes [of now server_id nginx containers ports]
    by (auto simp: list_all_iff list_ex_iff)
qed

text \<open>
  A container claims the ports inside it as if they were ports of the host: a proxy to such a port is drawn to the
  container even when another process holds that port of the host.
\<close>

theorem inner_port_shadows_process:
  assumes "pm \<in> set (dc_port_mappings c)"
  shows "proxy_target (owner_of [c]) bound (pm_container_port pm) = Some (container_node c)"
  using assms by (auto simp: proxy_target_def owner_of_def mentions_def list_ex_iff)

end
