(* ===== verification/Slice_Sort.thy ===== *)
theory Slice_Sort
  imports Ieee "HOL-Library.Multiset"
begin

text \<open>
  \<open>slice::sort_by\<close>. The sort is stable; on a comparison that orders the elements weakly every stable sort gives
  one and the same list, and the model inserts from the left, as the standard library does on short slices. With
  a value that is not a number \<open>partial_cmp(..).unwrap_or(Equal)\<close> is no order and the standard library leaves the
  result of a long slice unspecified; the ordering lemmas exclude that case, the locale says how.
\<close>

section \<open>Insertion from the left\<close>

text \<open>The sorted part is kept with its last element first; an element moves left past those it is less than.\<close>

fun insert_left :: "('a \<Rightarrow> 'a \<Rightarrow> bool) \<Rightarrow> 'a \<Rightarrow> 'a list \<Rightarrow> 'a list" where
  "insert_left lt x [] = [x]"
| "insert_left lt x (y # ys) = (if lt x y then y # insert_left lt x ys else x # y # ys)"

definition sort_by :: "('a \<Rightarrow> 'a \<Rightarrow> bool) \<Rightarrow> 'a list \<Rightarrow> 'a list" where
  "sort_by lt xs = rev (fold (insert_left lt) xs [])"

lemma mset_insert_left: "mset (insert_left lt x ys) = add_mset x (mset ys)"
  by (induction ys) auto

lemma mset_fold_insert_left: "mset (fold (insert_left lt) xs ys) = mset xs + mset ys"
  by (induction xs arbitrary: ys) (auto simp: mset_insert_left)

lemma mset_sort_by [simp]: "mset (sort_by lt xs) = mset xs"
  by (simp add: sort_by_def mset_fold_insert_left)

lemma set_insert_left [simp]: "set (insert_left lt x ys) = insert x (set ys)"
  using mset_insert_left [of lt x ys] by (metis set_mset_add_mset_insert set_mset_mset)

lemma set_sort_by [simp]: "set (sort_by lt xs) = set xs"
  using mset_sort_by by (rule mset_eq_setD)

lemma length_sort_by [simp]: "length (sort_by lt xs) = length xs"
  using mset_sort_by by (rule mset_eq_length)

section \<open>Comparisons that order weakly\<close>

locale weak_order =
  fixes lt :: "'a \<Rightarrow> 'a \<Rightarrow> bool" and comparable :: "'a \<Rightarrow> bool"
  assumes asym: "comparable x \<Longrightarrow> comparable y \<Longrightarrow> lt x y \<Longrightarrow> \<not> lt y x"
    and neg_trans: "comparable x \<Longrightarrow> comparable y \<Longrightarrow> comparable z \<Longrightarrow> \<not> lt x y \<Longrightarrow> \<not> lt y z \<Longrightarrow> \<not> lt x z"
begin

lemma insert_left_sorted:
  assumes "comparable x" "\<forall>y \<in> set ys. comparable y" "sorted_wrt (\<lambda>a b. \<not> lt a b) ys"
  shows "sorted_wrt (\<lambda>a b. \<not> lt a b) (insert_left lt x ys)"
  using assms
proof (induction ys)
  case (Cons y ys)
  show ?case
  proof (cases "lt x y")
    case True
    with Cons show ?thesis using asym [of x y] by simp
  next
    case False
    have "\<not> lt x z" if "z \<in> set ys" for z
      using that Cons.prems False neg_trans [of x y z] by simp
    with Cons.prems False show ?thesis by simp
  qed
qed simp

lemma fold_insert_left_sorted:
  assumes "\<forall>x \<in> set xs. comparable x" "\<forall>y \<in> set ys. comparable y" "sorted_wrt (\<lambda>a b. \<not> lt a b) ys"
  shows "sorted_wrt (\<lambda>a b. \<not> lt a b) (fold (insert_left lt) xs ys)"
  using assms by (induction xs arbitrary: ys) (simp_all add: insert_left_sorted)

lemma sort_by_sorted:
  assumes "\<forall>x \<in> set xs. comparable x"
  shows "sorted_wrt (\<lambda>a b. \<not> lt b a) (sort_by lt xs)"
  using fold_insert_left_sorted [OF assms, of "[]"] by (simp add: sort_by_def sorted_wrt_rev)

lemma filter_insert_left:
  assumes "comparable x" "comparable k" "\<forall>y \<in> set ys. comparable y"
  shows "filter (\<lambda>y. \<not> lt y k \<and> \<not> lt k y) (insert_left lt x ys) =
         filter (\<lambda>y. \<not> lt y k \<and> \<not> lt k y) (x # ys)"
  using assms
proof (induction ys)
  case (Cons y ys)
  show ?case
  proof (cases "lt x y")
    case True
    with Cons.prems have "\<not> (\<not> lt x k \<and> \<not> lt k x) \<or> \<not> (\<not> lt y k \<and> \<not> lt k y)"
      using neg_trans [of x k y] by auto
    with Cons True show ?thesis by auto
  next
    case False
    then show ?thesis by simp
  qed
qed simp

lemma sort_by_stable:
  assumes "\<forall>x \<in> set xs. comparable x" "comparable k"
  shows "filter (\<lambda>y. \<not> lt y k \<and> \<not> lt k y) (sort_by lt xs) = filter (\<lambda>y. \<not> lt y k \<and> \<not> lt k y) xs"
proof -
  have "filter (\<lambda>y. \<not> lt y k \<and> \<not> lt k y) (fold (insert_left lt) xs ys) =
      rev (filter (\<lambda>y. \<not> lt y k \<and> \<not> lt k y) xs) @ filter (\<lambda>y. \<not> lt y k \<and> \<not> lt k y) ys"
    if "\<forall>x \<in> set xs. comparable x" "\<forall>y \<in> set ys. comparable y" for xs ys
    using that by (induction xs arbitrary: ys) (simp_all add: filter_insert_left assms(2))
  from this [OF assms(1), of "[]"] show ?thesis by (simp add: sort_by_def rev_filter [symmetric])
qed

end

section \<open>Floats\<close>

text \<open>\<open>a.partial_cmp(b).unwrap_or(Equal)\<close> is \<open>Less\<close> exactly when \<open>a < b\<close>; the reversed comparison sorts downwards.\<close>

lemma flt_less_asym: "flt_less x y \<Longrightarrow> \<not> flt_less y x"
  by (cases x; cases y) auto

lemma flt_less_neg_trans:
  "\<not> is_nan y \<Longrightarrow> \<not> flt_less x y \<Longrightarrow> \<not> flt_less y z \<Longrightarrow> \<not> flt_less x z"
  by (cases x; cases y; cases z) (auto simp: is_nan_def)

definition ascending :: "('a \<Rightarrow> flt) \<Rightarrow> 'a \<Rightarrow> 'a \<Rightarrow> bool" where
  "ascending f a b = flt_less (f a) (f b)"

definition descending :: "('a \<Rightarrow> flt) \<Rightarrow> 'a \<Rightarrow> 'a \<Rightarrow> bool" where
  "descending f a b = flt_less (f b) (f a)"

interpretation asc: weak_order "ascending f" "\<lambda>x. \<not> is_nan (f x)"
  by unfold_locales (auto simp: ascending_def dest: flt_less_asym flt_less_neg_trans)

interpretation desc: weak_order "descending f" "\<lambda>x. \<not> is_nan (f x)"
  by unfold_locales (auto simp: descending_def dest: flt_less_asym flt_less_neg_trans)

end
