(* ===== verification/Attribution.thy ===== *)
theory Attribution
  imports Slice_Sort Core_Types
begin

text \<open>
  crates/kyvon-topology/src/attribution.rs and the consumer types of crates/kyvon-core/src/topology.rs: which
  kind of process uses the processor.
\<close>

section \<open>Consumers\<close>

record ResourceConsumer =
  rc_name :: rstr
  rc_kind :: rstr
  rc_percentage :: flt
  rc_container :: "rstr option"
  rc_pid :: "u32 option"
  rc_memory_mb :: "flt option"

record VpsResourceBreakdown =
  vb_total_cpu_pct :: flt
  vb_applications_pct :: flt
  vb_databases_pct :: flt
  vb_docker_pct :: flt
  vb_nginx_pct :: flt
  vb_system_pct :: flt
  vb_other_pct :: flt
  vb_top_consumers :: "ResourceConsumer list"

text \<open>The five sums the loop keeps.\<close>

record cpu_sums =
  apps_pct :: flt
  dbs_pct :: flt
  docker_pct :: flt
  nginx_pct :: flt
  system_pct :: flt

definition APP_KINDS :: "rstr list" where
  "APP_KINDS = [''application'', ''app'', ''node'', ''python'', ''php'', ''go'', ''rust'', ''java'']"

definition DB_KINDS :: "rstr list" where
  "DB_KINDS = [''database'', ''postgres'', ''postgresql'', ''mysql'', ''mariadb'', ''redis'', ''mongodb'']"

definition DOCKER_KINDS :: "rstr list" where
  "DOCKER_KINDS = [''docker'', ''containerd'']"

definition NGINX_KINDS :: "rstr list" where
  "NGINX_KINDS = [''nginx'', ''caddy'', ''apache'', ''traefik'']"

definition SYSTEM_KINDS :: "rstr list" where
  "SYSTEM_KINDS = [''system'', ''kernel'', ''systemd'']"

definition attribute_consumer :: "ResourceConsumer \<Rightarrow> cpu_sums \<Rightarrow> cpu_sums" where
  "attribute_consumer c s =
     (let k = rc_kind c; plus = (\<lambda>x. fadd F64 x (rc_percentage c)) in
      if k \<in> set APP_KINDS then s\<lparr>apps_pct := plus (apps_pct s)\<rparr>
      else if k \<in> set DB_KINDS then s\<lparr>dbs_pct := plus (dbs_pct s)\<rparr>
      else if k \<in> set DOCKER_KINDS then s\<lparr>docker_pct := plus (docker_pct s)\<rparr>
      else if k \<in> set NGINX_KINDS then s\<lparr>nginx_pct := plus (nginx_pct s)\<rparr>
      else if k \<in> set SYSTEM_KINDS then s\<lparr>system_pct := plus (system_pct s)\<rparr>
      else s\<lparr>apps_pct := plus (apps_pct s)\<rparr>)"

definition calculate_resource_breakdown :: "flt \<Rightarrow> ResourceConsumer list \<Rightarrow> VpsResourceBreakdown" where
  "calculate_resource_breakdown total_cpu_pct consumers =
     (let s = fold attribute_consumer consumers
                \<lparr>apps_pct = Fin 0, dbs_pct = Fin 0, docker_pct = Fin 0, nginx_pct = Fin 0, system_pct = Fin 0\<rparr>;
          classified = fadd F64 (fadd F64 (fadd F64 (fadd F64 (apps_pct s) (dbs_pct s)) (docker_pct s)) (nginx_pct s)) (system_pct s)
      in \<lparr>vb_total_cpu_pct = total_cpu_pct, vb_applications_pct = apps_pct s, vb_databases_pct = dbs_pct s,
          vb_docker_pct = docker_pct s, vb_nginx_pct = nginx_pct s, vb_system_pct = system_pct s,
          vb_other_pct = f_max (fsub F64 total_cpu_pct classified) (Fin 0),
          vb_top_consumers = sort_by (descending rc_percentage) consumers\<rparr>)"

section \<open>Each consumer counts once\<close>

datatype category = Apps | Databases | Docker_Engine | Web_Server | System_Part

definition category_of :: "rstr \<Rightarrow> category" where
  "category_of k =
     (if k \<in> set DB_KINDS then Databases else if k \<in> set DOCKER_KINDS then Docker_Engine
      else if k \<in> set NGINX_KINDS then Web_Server else if k \<in> set SYSTEM_KINDS then System_Part else Apps)"

definition total_of :: "category \<Rightarrow> ResourceConsumer list \<Rightarrow> flt \<Rightarrow> flt" where
  "total_of g cs = fold (\<lambda>c x. fadd F64 x (rc_percentage c)) (filter (\<lambda>c. category_of (rc_kind c) = g) cs)"

lemma kinds_disjoint:
  "list_all (\<lambda>k. k \<notin> set DB_KINDS \<and> k \<notin> set DOCKER_KINDS \<and> k \<notin> set NGINX_KINDS \<and> k \<notin> set SYSTEM_KINDS) APP_KINDS"
  by code_simp

lemma app_kind: "k \<in> set APP_KINDS \<Longrightarrow> category_of k = Apps"
  using kinds_disjoint unfolding list_all_iff category_of_def by simp

lemma attribute_step:
  "attribute_consumer c s =
     (let plus = (\<lambda>x. fadd F64 x (rc_percentage c)) in
      case category_of (rc_kind c) of
        Apps \<Rightarrow> s\<lparr>apps_pct := plus (apps_pct s)\<rparr>
      | Databases \<Rightarrow> s\<lparr>dbs_pct := plus (dbs_pct s)\<rparr>
      | Docker_Engine \<Rightarrow> s\<lparr>docker_pct := plus (docker_pct s)\<rparr>
      | Web_Server \<Rightarrow> s\<lparr>nginx_pct := plus (nginx_pct s)\<rparr>
      | System_Part \<Rightarrow> s\<lparr>system_pct := plus (system_pct s)\<rparr>)"
proof (cases "rc_kind c \<in> set APP_KINDS")
  case True
  then show ?thesis by (simp only: attribute_consumer_def Let_def if_True app_kind category.case)
next
  case False
  then show ?thesis unfolding attribute_consumer_def category_of_def Let_def by (simp only: if_False) auto
qed

lemma attribute_fold:
  "fold attribute_consumer cs s =
     \<lparr>apps_pct = total_of Apps cs (apps_pct s), dbs_pct = total_of Databases cs (dbs_pct s),
      docker_pct = total_of Docker_Engine cs (docker_pct s), nginx_pct = total_of Web_Server cs (nginx_pct s),
      system_pct = total_of System_Part cs (system_pct s)\<rparr>"
proof (induction cs arbitrary: s)
  case Nil
  then show ?case by (simp add: total_of_def)
next
  case (Cons c cs)
  then show ?case by (cases "category_of (rc_kind c)") (simp_all add: attribute_step total_of_def)
qed

lemma f_max_zero: "flt_le (Fin 0) (f_max x (Fin 0))"
  by (cases x) (auto simp: f_max_def is_nan_def)

text \<open>The breakdown counts every consumer in exactly one category, a consumer of unknown kind as an application: each
  figure is the floating point sum, in order, of the consumers of its category, and the rest of the load is never
  negative. The consumers are listed by falling share, equal shares in their original order, none lost.\<close>

theorem attribution_exact:
  assumes "list_all (\<lambda>c. \<not> is_nan (rc_percentage c)) cs" and "r = calculate_resource_breakdown cpu cs"
  shows "[vb_applications_pct r, vb_databases_pct r, vb_docker_pct r, vb_nginx_pct r, vb_system_pct r] =
           map (\<lambda>g. total_of g cs (Fin 0)) [Apps, Databases, Docker_Engine, Web_Server, System_Part] \<and>
         flt_le (Fin 0) (vb_other_pct r) \<and> mset (vb_top_consumers r) = mset cs \<and>
         sorted_wrt (\<lambda>a b. \<not> flt_less (rc_percentage a) (rc_percentage b)) (vb_top_consumers r) \<and>
         (\<forall>q. filter (\<lambda>c. rc_percentage c = Fin q) (vb_top_consumers r) = filter (\<lambda>c. rc_percentage c = Fin q) cs)"
proof (intro conjI allI)
  have nan: "\<forall>c \<in> set cs. \<not> is_nan (rc_percentage c)" using assms(1) by (simp add: list_all_iff)
  have top: "vb_top_consumers r = sort_by (descending rc_percentage) cs"
    by (simp add: assms(2) calculate_resource_breakdown_def Let_def)
  show "[vb_applications_pct r, vb_databases_pct r, vb_docker_pct r, vb_nginx_pct r, vb_system_pct r] =
      map (\<lambda>g. total_of g cs (Fin 0)) [Apps, Databases, Docker_Engine, Web_Server, System_Part]"
    "flt_le (Fin 0) (vb_other_pct r)"
    by (simp_all add: assms(2) calculate_resource_breakdown_def Let_def attribute_fold f_max_zero)
  show "mset (vb_top_consumers r) = mset cs" by (simp add: top)
  show "sorted_wrt (\<lambda>a b. \<not> flt_less (rc_percentage a) (rc_percentage b)) (vb_top_consumers r)"
    using desc.sort_by_sorted [OF nan] unfolding top descending_def .
  fix q
  let ?k = "\<lparr>rc_name = [], rc_kind = [], rc_percentage = Fin q, rc_container = None, rc_pid = None, rc_memory_mb = None\<rparr>"
  have eq: "\<not> flt_less (Fin q) x \<and> \<not> flt_less x (Fin q) \<longleftrightarrow> x = Fin q" if "\<not> is_nan x" for x
    using that by (cases x) (auto simp: is_nan_def)
  have same: "filter (\<lambda>c. rc_percentage c = Fin q) xs = filter (\<lambda>y. \<not> descending rc_percentage y ?k \<and> \<not> descending rc_percentage ?k y) xs"
    if "set xs = set cs" for xs
    using that nan eq by (intro filter_cong) (simp_all add: descending_def)
  show "filter (\<lambda>c. rc_percentage c = Fin q) (vb_top_consumers r) = filter (\<lambda>c. rc_percentage c = Fin q) cs"
    using desc.sort_by_stable [OF nan, of ?k] by (simp add: top same is_nan_def)
qed

definition demo_consumer :: "rstr \<Rightarrow> rat \<Rightarrow> ResourceConsumer" where
  "demo_consumer k q = \<lparr>rc_name = k, rc_kind = k, rc_percentage = Fin q, rc_container = None, rc_pid = None, rc_memory_mb = None\<rparr>"

theorem attribution_exact_witness:
  "map rc_name (vb_top_consumers (calculate_resource_breakdown (Fin 72) [demo_consumer ''redis'' 11, demo_consumer ''deno'' 21])) = [''deno'', ''redis''] \<and>
   sorted_wrt (\<lambda>a b. \<not> flt_less (rc_percentage a) (rc_percentage b))
     (vb_top_consumers (calculate_resource_breakdown (Fin 72) [demo_consumer ''redis'' 11, demo_consumer ''deno'' 21]))"
proof
  show "map rc_name (vb_top_consumers (calculate_resource_breakdown (Fin 72) [demo_consumer ''redis'' 11, demo_consumer ''deno'' 21])) = [''deno'', ''redis'']"
    by (simp add: calculate_resource_breakdown_def Let_def sort_by_def descending_def demo_consumer_def)
  have "list_all (\<lambda>c. \<not> is_nan (rc_percentage c)) [demo_consumer ''redis'' 11, demo_consumer ''deno'' 21]"
    by (simp add: demo_consumer_def is_nan_def)
  from attribution_exact [OF this refl, of "Fin 72"]
  show "sorted_wrt (\<lambda>a b. \<not> flt_less (rc_percentage a) (rc_percentage b))
     (vb_top_consumers (calculate_resource_breakdown (Fin 72) [demo_consumer ''redis'' 11, demo_consumer ''deno'' 21]))"
    by blast
qed

end
