(* ===== verification/Outage_Risk.thy ===== *)
theory Outage_Risk
  imports Slice_Sort Core_Types
begin

text \<open>
  crates/kyvon-core/src/diagnostics.rs (the outage risk) and crates/kyvon-diagnostics/src/outage_risk.rs: a score
  from eight groups of signals. A group is one step on the list of factors and the running total, as the code has
  them. The clock is an argument.
\<close>

section \<open>Printing floats\<close>

text \<open>\<open>{:.n}\<close>: the exact value rounded to \<open>n\<close> digits, ties to even.\<close>

definition pad_zeros :: "nat \<Rightarrow> rstr \<Rightarrow> rstr" where
  "pad_zeros n s = replicate (n - length s) (CHR ''0'') @ s"

definition show_digits :: "nat \<Rightarrow> rat \<Rightarrow> rstr" where
  "show_digits n q = (let m = nat (round_even (q * 10 ^ n)) in show_nat (m div 10 ^ n) @ ''.'' @ pad_zeros n (show_nat (m mod 10 ^ n)))"

primrec show_fixed :: "nat \<Rightarrow> flt \<Rightarrow> rstr" where
  "show_fixed n (Fin q) = (if q < 0 then ''-'' @ show_digits n (- q) else show_digits n q)"
| "show_fixed n PInf = ''inf''"
| "show_fixed n NInf = ''-inf''"
| "show_fixed n NaN = ''NaN''"

section \<open>Signals and score\<close>

datatype OutageRiskLevel = RiskLow | RiskModerate | RiskHigh | RiskCritical

record RiskFactor =
  rf_name :: rstr
  rf_score_impact :: int
  rf_current_value :: rstr
  rf_description :: rstr

record OutageRiskScore =
  or_score :: u32
  or_level :: OutageRiskLevel
  or_factors :: "RiskFactor list"
  or_recommendation :: rstr
  or_calculated_at_ms :: TimestampMs

record RiskSignals =
  rs_cpu_pct :: flt
  rs_load_avg_5m :: flt
  rs_cpu_cores :: u32
  rs_mem_available_pct :: flt
  rs_swap_used_pct :: flt
  rs_swap_in_growth :: bool
  rs_disk_used_pct :: flt
  rs_disk_io_wait_pct :: flt
  rs_db_connection_util_pct :: "flt option"
  rs_container_crash_count_10m :: u32
  rs_oom_kill_count_1h :: u32
  rs_http_5xx_rate_pct :: "flt option"
  rs_http_p95_latency_ms :: "flt option"
  rs_days_until_cert_expiry :: "int option"
  rs_open_unexpected_ports :: u32

type_synonym risk_state = "RiskFactor list \<times> u32"

abbreviation above :: "flt \<Rightarrow> flt \<Rightarrow> bool" where
  "above x y \<equiv> flt_less y x"

definition warn :: "rstr \<Rightarrow> int \<Rightarrow> rstr \<Rightarrow> rstr \<Rightarrow> u32 \<Rightarrow> risk_state \<Rightarrow> risk_state" where
  "warn name impact current description points st =
     (fst st @ [\<lparr>rf_name = name, rf_score_impact = impact, rf_current_value = current, rf_description = description\<rparr>], snd st + points)"

definition load_ratio :: "RiskSignals \<Rightarrow> flt" where
  "load_ratio s = fdiv F64 (rs_load_avg_5m s) (of_unsigned F64 (max (rs_cpu_cores s) 1))"

definition cpu_check :: "RiskSignals \<Rightarrow> risk_state \<Rightarrow> risk_state" where
  "cpu_check s st =
     (if above (rs_cpu_pct s) (Fin 90) \<or> above (load_ratio s) (rnd F64 (18 / 10)) then
        warn ''CPU Saturation'' 18 (show_fixed 1 (rs_cpu_pct s) @ ''% (load: '' @ show_fixed 2 (rs_load_avg_5m s) @ '')'')
          ''High CPU utilization exceeding sustainable baseline headroom.'' 18 st
      else if above (rs_cpu_pct s) (Fin 80) \<or> above (load_ratio s) (rnd F64 (13 / 10)) then
        warn ''CPU Pressure'' 10 (show_fixed 1 (rs_cpu_pct s) @ ''%'') ''Moderate CPU saturation detected.'' 10 st
      else st)"

definition memory_check :: "RiskSignals \<Rightarrow> risk_state \<Rightarrow> risk_state" where
  "memory_check s st =
     (if flt_less (rs_mem_available_pct s) (Fin 8) \<or> above (rs_swap_used_pct s) (Fin 70) \<and> rs_swap_in_growth s then
        warn ''Critical RAM Exhaustion'' 18
          (show_fixed 1 (rs_mem_available_pct s) @ ''% avail, '' @ show_fixed 1 (rs_swap_used_pct s) @ ''% swap'')
          ''System is in imminent risk of OOM termination.'' 18 st
      else if flt_less (rs_mem_available_pct s) (Fin 15) then
        warn ''RAM Pressure'' 12 (show_fixed 1 (rs_mem_available_pct s) @ ''% available'')
          ''Available buffer and cache memory below recommended threshold.'' 12 st
      else st)"

definition oom_check :: "RiskSignals \<Rightarrow> risk_state \<Rightarrow> risk_state" where
  "oom_check s st =
     (if rs_oom_kill_count_1h s > 0 then
        warn ''Kernel OOM Kills Detected'' 25 (show_nat (unat (rs_oom_kill_count_1h s)) @ '' kills in 1h'')
          ''Kernel has actively killed processes due to memory starvation.'' 25 st
      else st)"

definition crash_check :: "RiskSignals \<Rightarrow> risk_state \<Rightarrow> risk_state" where
  "crash_check s st =
     (if rs_container_crash_count_10m s > 2 then
        warn ''Frequent Container Crashes'' 20 (show_nat (unat (rs_container_crash_count_10m s)) @ '' restarts in 10m'')
          ''Containers entering crash loops or exit code failures.'' 20 st
      else if rs_container_crash_count_10m s > 0 then
        warn ''Container Restarting'' 8 (show_nat (unat (rs_container_crash_count_10m s)) @ '' restarts'')
          ''Unplanned container restart detected.'' 8 st
      else st)"

definition disk_check :: "RiskSignals \<Rightarrow> risk_state \<Rightarrow> risk_state" where
  "disk_check s st =
     (if above (rs_disk_used_pct s) (Fin 92) then
        warn ''Critical Disk Space'' 15 (show_fixed 1 (rs_disk_used_pct s) @ ''% full'')
          ''Root or log partition near complete saturation.'' 15 st
      else if above (rs_disk_used_pct s) (Fin 82) then
        warn ''Disk Capacity Warning'' 8 (show_fixed 1 (rs_disk_used_pct s) @ ''% full'')
          ''Storage capacity nearing warning ceiling.'' 8 st
      else st)"

definition db_check :: "RiskSignals \<Rightarrow> risk_state \<Rightarrow> risk_state" where
  "db_check s st =
     (case rs_db_connection_util_pct s of
        None \<Rightarrow> st
      | Some db_util \<Rightarrow>
          if above db_util (Fin 90) then
            warn ''Database Connection Exhaustion'' 15 (show_fixed 1 db_util @ ''% pool used'')
              ''Postgres/MySQL connection pool near max_connections limit.'' 15 st
          else if above db_util (Fin 75) then
            warn ''Database Pool Pressure'' 8 (show_fixed 1 db_util @ ''% pool used'') ''Elevated connection pooling usage.'' 8 st
          else st)"

definition http_check :: "RiskSignals \<Rightarrow> risk_state \<Rightarrow> risk_state" where
  "http_check s st =
     (case rs_http_5xx_rate_pct s of
        None \<Rightarrow> st
      | Some err_rate \<Rightarrow>
          if above err_rate (Fin 3) then
            warn ''Elevated HTTP 5xx Error Rate'' 15 (show_fixed 2 err_rate @ ''% errors'')
              ''Web or API traffic suffering significant server-side failures.'' 15 st
          else if above err_rate (Fin 1) then
            warn ''Minor HTTP 5xx Errors'' 6 (show_fixed 2 err_rate @ ''% errors'') ''Sporadic server error burst detected.'' 6 st
          else st)"

definition tls_check :: "RiskSignals \<Rightarrow> risk_state \<Rightarrow> risk_state" where
  "tls_check s st =
     (case rs_days_until_cert_expiry s of
        None \<Rightarrow> st
      | Some days \<Rightarrow>
          if days < 3 then
            warn ''Imminent TLS Certificate Expiry'' 15 (show_int days @ '' days remaining'') ''SSL/TLS cert expiring in under 72 hours.'' 15 st
          else if days < 10 then
            warn ''TLS Certificate Expiring Soon'' 6 (show_int days @ '' days remaining'') ''SSL certificate renewal required.'' 6 st
          else st)"

definition level_of :: "u32 \<Rightarrow> OutageRiskLevel \<times> rstr" where
  "level_of score =
     (if score \<le> 35 then (RiskLow, ''Operating nominal. Ample resource headroom and zero critical saturation.'')
      else if score \<le> 65 then
        (RiskModerate, ''Elevated resource consumption detected. Review active consumers and connection pools.'')
      else if score \<le> 80 then
        (RiskHigh, ''High risk of service degradation. Immediate attention recommended for top warning factors.'')
      else (RiskCritical, ''Critical availability emergency! Immediate intervention required to prevent total downtime.''))"

definition risk_checks :: "(RiskSignals \<Rightarrow> risk_state \<Rightarrow> risk_state) list" where
  "risk_checks = [cpu_check, memory_check, oom_check, crash_check, disk_check, db_check, http_check, tls_check]"

definition calculate_outage_risk :: "TimestampMs \<Rightarrow> RiskSignals \<Rightarrow> OutageRiskScore" where
  "calculate_outage_risk now signals =
     (case fold (\<lambda>check. check signals) risk_checks ([], 0) of
        (factors, total_score) \<Rightarrow>
          (let clamped_score = min total_score 100 in
           case level_of clamped_score of
             (level, recommendation) \<Rightarrow>
               \<lparr>or_score = clamped_score, or_level = level, or_factors = factors, or_recommendation = recommendation,
                or_calculated_at_ms = now\<rparr>))"

section \<open>The score is the sum of its factors\<close>

text \<open>What one group adds: nothing, or one factor and the same number of points.\<close>

definition adds :: "(risk_state \<Rightarrow> risk_state) \<Rightarrow> nat \<Rightarrow> bool" where
  "adds f n \<longleftrightarrow> (\<forall>fs t. \<exists>new. fst (f (fs, t)) = fs @ new \<and> snd (f (fs, t)) = t + of_nat n \<and>
     sum_list (map rf_score_impact new) = int n \<and> (new = [] \<longleftrightarrow> n = 0) \<and> length new \<le> 1 \<and> list_all (\<lambda>r. rf_score_impact r > 0) new)"

lemma adds_none: "adds (\<lambda>st. st) 0"
  by (simp add: adds_def)

lemma adds_warn: "0 < n \<Longrightarrow> adds (warn name (int n) v d (of_nat n)) n"
  by (auto simp: adds_def warn_def)

definition cpu_points :: "RiskSignals \<Rightarrow> nat" where
  "cpu_points s =
     (if above (rs_cpu_pct s) (Fin 90) \<or> above (load_ratio s) (rnd F64 (18 / 10)) then 18
      else if above (rs_cpu_pct s) (Fin 80) \<or> above (load_ratio s) (rnd F64 (13 / 10)) then 10 else 0)"

definition memory_points :: "RiskSignals \<Rightarrow> nat" where
  "memory_points s =
     (if flt_less (rs_mem_available_pct s) (Fin 8) \<or> above (rs_swap_used_pct s) (Fin 70) \<and> rs_swap_in_growth s then 18
      else if flt_less (rs_mem_available_pct s) (Fin 15) then 12 else 0)"

definition oom_points :: "RiskSignals \<Rightarrow> nat" where
  "oom_points s = (if rs_oom_kill_count_1h s > 0 then 25 else 0)"

definition crash_points :: "RiskSignals \<Rightarrow> nat" where
  "crash_points s = (if rs_container_crash_count_10m s > 2 then 20 else if rs_container_crash_count_10m s > 0 then 8 else 0)"

definition grade :: "(flt \<Rightarrow> nat) \<Rightarrow> flt option \<Rightarrow> nat" where
  "grade f v = (case v of Some x \<Rightarrow> f x | None \<Rightarrow> 0)"

definition points :: "RiskSignals \<Rightarrow> nat list" where
  "points s =
     [cpu_points s, memory_points s, oom_points s, crash_points s,
      (if above (rs_disk_used_pct s) (Fin 92) then 15 else if above (rs_disk_used_pct s) (Fin 82) then 8 else 0),
      grade (\<lambda>x. if above x (Fin 90) then 15 else if above x (Fin 75) then 8 else 0) (rs_db_connection_util_pct s),
      grade (\<lambda>x. if above x (Fin 3) then 15 else if above x (Fin 1) then 6 else 0) (rs_http_5xx_rate_pct s),
      (case rs_days_until_cert_expiry s of Some d \<Rightarrow> if d < 3 then 15 else if d < 10 then 6 else 0 | None \<Rightarrow> 0)]"

lemmas check_defs = cpu_check_def memory_check_def oom_check_def crash_check_def disk_check_def db_check_def http_check_def tls_check_def

lemma adds_if: "(P \<Longrightarrow> adds f m) \<Longrightarrow> (\<not> P \<Longrightarrow> adds g n) \<Longrightarrow> adds (\<lambda>st. if P then f st else g st) (if P then m else n)"
  by simp

lemma adds_points:
  "adds (warn name 18 v d 18) 18" "adds (warn name 10 v d 10) 10" "adds (warn name 12 v d 12) 12" "adds (warn name 25 v d 25) 25"
  "adds (warn name 20 v d 20) 20" "adds (warn name 8 v d 8) 8" "adds (warn name 15 v d 15) 15" "adds (warn name 6 v d 6) 6"
  using adds_warn [of 18 name v d] adds_warn [of 10 name v d] adds_warn [of 12 name v d] adds_warn [of 25 name v d]
    adds_warn [of 20 name v d] adds_warn [of 8 name v d] adds_warn [of 15 name v d] adds_warn [of 6 name v d] by simp_all

lemma checks_add: "list_all2 (\<lambda>check n. adds (check s) n) risk_checks (points s)"
proof -
  have "adds (cpu_check s) (cpu_points s)" "adds (memory_check s) (memory_points s)" "adds (oom_check s) (oom_points s)"
      "adds (crash_check s) (crash_points s)"
    unfolding check_defs [abs_def] cpu_points_def memory_points_def oom_points_def crash_points_def
    by (intro adds_if adds_points adds_none)+
  moreover have "adds (disk_check s) (if above (rs_disk_used_pct s) (Fin 92) then 15 else if above (rs_disk_used_pct s) (Fin 82) then 8 else 0)"
    unfolding check_defs [abs_def] by (intro adds_if adds_points adds_none)
  moreover have "adds (db_check s) (grade (\<lambda>x. if above x (Fin 90) then 15 else if above x (Fin 75) then 8 else 0) (rs_db_connection_util_pct s))"
    by (cases "rs_db_connection_util_pct s")
      (simp_all only: check_defs [abs_def] grade_def option.case, rule adds_none, intro adds_if adds_points adds_none)
  moreover have "adds (http_check s) (grade (\<lambda>x. if above x (Fin 3) then 15 else if above x (Fin 1) then 6 else 0) (rs_http_5xx_rate_pct s))"
    by (cases "rs_http_5xx_rate_pct s")
      (simp_all only: check_defs [abs_def] grade_def option.case, rule adds_none, intro adds_if adds_points adds_none)
  moreover have "adds (tls_check s) (case rs_days_until_cert_expiry s of Some d \<Rightarrow> if d < 3 then 15 else if d < 10 then 6 else 0 | None \<Rightarrow> 0)"
    by (cases "rs_days_until_cert_expiry s")
      (simp_all only: check_defs [abs_def] option.case, rule adds_none, intro adds_if adds_points adds_none)
  ultimately show ?thesis by (simp only: risk_checks_def points_def list.rel_inject list_all2_Nil simp_thms)
qed

lemma fold_adds:
  assumes "list_all2 (\<lambda>check n. adds (check s) n) cks ns"
  shows "\<exists>new. fold (\<lambda>check. check s) cks (fs, t) = (fs @ new, t + of_nat (sum_list ns)) \<and>
     sum_list (map rf_score_impact new) = int (sum_list ns) \<and> list_all (\<lambda>r. rf_score_impact r > 0) new \<and> length new \<le> length ns"
  using assms
proof (induction arbitrary: fs t rule: list_all2_induct)
  case Nil
  then show ?case by simp
next
  case (Cons c cks n ns)
  then obtain new where new: "fst (c s (fs, t)) = fs @ new" "snd (c s (fs, t)) = t + of_nat n"
      "sum_list (map rf_score_impact new) = int n" "length new \<le> 1" "list_all (\<lambda>r. rf_score_impact r > 0) new"
    unfolding adds_def by meson
  have "c s (fs, t) = (fs @ new, t + of_nat n)" using new(1,2) by (simp add: prod_eq_iff)
  moreover obtain more where "fold (\<lambda>check. check s) cks (fs @ new, t + of_nat n) = ((fs @ new) @ more, t + of_nat n + of_nat (sum_list ns))"
      "sum_list (map rf_score_impact more) = int (sum_list ns)" "list_all (\<lambda>r. rf_score_impact r > 0) more" "length more \<le> length ns"
    using Cons.IH by metis
  ultimately show ?case using new by (intro exI [of _ "new @ more"]) simp
qed

lemma points_bound: "sum_list (points s) \<le> 141"
proof -
  have 1: "cpu_points s \<le> 18" "memory_points s \<le> 18" "oom_points s \<le> 25" "crash_points s \<le> 20"
    by (simp_all add: cpu_points_def memory_points_def oom_points_def crash_points_def)
  have 2: "(if above (rs_disk_used_pct s) (Fin 92) then 15 else if above (rs_disk_used_pct s) (Fin 82) then 8 else 0) \<le> (15::nat)"
      "grade (\<lambda>x. if above x (Fin 90) then 15 else if above x (Fin 75) then 8 else 0) (rs_db_connection_util_pct s) \<le> 15"
      "grade (\<lambda>x. if above x (Fin 3) then 15 else if above x (Fin 1) then 6 else 0) (rs_http_5xx_rate_pct s) \<le> 15"
      "(case rs_days_until_cert_expiry s of Some d \<Rightarrow> if d < 3 then 15 else if d < 10 then 6 else 0 | None \<Rightarrow> 0) \<le> (15::nat)"
    by (simp_all add: grade_def split: option.splits)
  show ?thesis using add_mono [OF add_mono [OF add_mono [OF 1(1,2)] 1(3)] 1(4)] add_mono [OF add_mono [OF add_mono [OF 2(1,2)] 2(3)] 2(4)]
    unfolding points_def sum_list.Cons sum_list.Nil by linarith
qed

lemma score_points:
  "\<exists>new. calculate_outage_risk now s =
     \<lparr>or_score = of_nat (min 100 (sum_list (points s))), or_level = fst (level_of (of_nat (min 100 (sum_list (points s))))),
      or_factors = new, or_recommendation = snd (level_of (of_nat (min 100 (sum_list (points s))))), or_calculated_at_ms = now\<rparr> \<and>
     sum_list (map rf_score_impact new) = int (sum_list (points s)) \<and> list_all (\<lambda>r. rf_score_impact r > 0) new \<and> length new \<le> 8"
proof -
  let ?n = "sum_list (points s)"
  obtain new where new: "fold (\<lambda>check. check s) risk_checks ([], 0) = ([] @ new, 0 + of_nat ?n)"
      "sum_list (map rf_score_impact new) = int ?n" "list_all (\<lambda>r. rf_score_impact r > 0) new" "length new \<le> length (points s)"
    using fold_adds [OF checks_add, of s "[]" 0] by blast
  have "unat (of_nat ?n :: u32) = ?n" using points_bound [of s] by (simp add: unsigned_of_nat take_bit_nat_eq_self)
  then have "min (of_nat ?n :: u32) 100 = of_nat (min 100 ?n)"
    by (auto simp: min_def word_le_nat_alt)
  then show ?thesis
    using new by (intro exI [of _ new]) (simp add: calculate_outage_risk_def Let_def points_def split: prod.splits)
qed

lemma level_of_nat:
  assumes "unat (of_nat n :: u32) = n"
  shows "fst (level_of (of_nat n)) = (if n \<le> 35 then RiskLow else if n \<le> 65 then RiskModerate else if n \<le> 80 then RiskHigh else RiskCritical)"
  unfolding level_of_def word_le_nat_alt assms by simp

text \<open>The outage score is the sum of the impacts of the factors it lists, cut off at 100: at most eight factors, each
  with a positive impact, and the 32-bit total never wraps. The level is Low, Moderate, High or Critical for a score up
  to 35, 65, 80 and above.\<close>

theorem outage_score_is_sum:
  "int (unat (or_score (calculate_outage_risk now s))) =
     min 100 (sum_list (map rf_score_impact (or_factors (calculate_outage_risk now s)))) \<and>
   list_all (\<lambda>r. rf_score_impact r > 0) (or_factors (calculate_outage_risk now s)) \<and>
   length (or_factors (calculate_outage_risk now s)) \<le> 8 \<and>
   or_level (calculate_outage_risk now s) =
     (let n = unat (or_score (calculate_outage_risk now s)) in
      if n \<le> 35 then RiskLow else if n \<le> 65 then RiskModerate else if n \<le> 80 then RiskHigh else RiskCritical)"
proof -
  let ?n = "min 100 (sum_list (points s))"
  have n: "unat (of_nat ?n :: u32) = ?n" by (simp add: unsigned_of_nat take_bit_nat_eq_self)
  obtain new where new: "calculate_outage_risk now s = \<lparr>or_score = of_nat ?n, or_level = fst (level_of (of_nat ?n)),
      or_factors = new, or_recommendation = snd (level_of (of_nat ?n)), or_calculated_at_ms = now\<rparr>"
      "sum_list (map rf_score_impact new) = int (sum_list (points s))" "list_all (\<lambda>r. rf_score_impact r > 0) new" "length new \<le> 8"
    using score_points by blast
  have "fst (level_of (of_nat ?n)) =
      (let n = ?n in if n \<le> 35 then RiskLow else if n \<le> 65 then RiskModerate else if n \<le> 80 then RiskHigh else RiskCritical)"
    using level_of_nat [OF n] by (simp only: Let_def)
  with new n show ?thesis by (simp add: Let_def)
qed

section \<open>Worse signals never score lower\<close>

definition opt_le :: "flt option \<Rightarrow> flt option \<Rightarrow> bool" where
  "opt_le v w = (case v of None \<Rightarrow> True | Some x \<Rightarrow> (case w of None \<Rightarrow> False | Some y \<Rightarrow> flt_le x y))"

definition worse :: "RiskSignals \<Rightarrow> RiskSignals \<Rightarrow> bool" where
  "worse s t \<longleftrightarrow>
     flt_le (rs_cpu_pct s) (rs_cpu_pct t) \<and> flt_le (load_ratio s) (load_ratio t) \<and>
     flt_le (rs_mem_available_pct t) (rs_mem_available_pct s) \<and> flt_le (rs_swap_used_pct s) (rs_swap_used_pct t) \<and>
     (rs_swap_in_growth s \<longrightarrow> rs_swap_in_growth t) \<and> flt_le (rs_disk_used_pct s) (rs_disk_used_pct t) \<and>
     opt_le (rs_db_connection_util_pct s) (rs_db_connection_util_pct t) \<and>
     rs_container_crash_count_10m s \<le> rs_container_crash_count_10m t \<and> rs_oom_kill_count_1h s \<le> rs_oom_kill_count_1h t \<and>
     opt_le (rs_http_5xx_rate_pct s) (rs_http_5xx_rate_pct t) \<and>
     (case rs_days_until_cert_expiry s of None \<Rightarrow> True
      | Some d \<Rightarrow> (case rs_days_until_cert_expiry t of None \<Rightarrow> False | Some e \<Rightarrow> e \<le> d))"

lemma above_mono: "flt_le x y \<Longrightarrow> above x z \<Longrightarrow> above y z"
  by (cases x; cases y; cases z) auto

lemma below_mono: "flt_le y x \<Longrightarrow> flt_less x z \<Longrightarrow> flt_less y z"
  by (cases x; cases y; cases z) auto

lemma tiered_mono:
  assumes "P \<Longrightarrow> P'" "Q \<Longrightarrow> Q'" "b \<le> a"
  shows "(if P then a else if Q then b else 0) \<le> (if P' then a else if Q' then b else (0::nat))"
  using assms by auto

lemma grade_mono:
  assumes "opt_le v w" "b \<le> a"
  shows "grade (\<lambda>x. if above x p then a else if above x q then b else 0) v \<le> grade (\<lambda>x. if above x p then a else if above x q then b else 0) w"
  using assms by (cases v; cases w) (auto simp: opt_le_def grade_def intro!: tiered_mono dest: above_mono)

lemma points_mono:
  assumes "worse s t"
  shows "list_all2 (\<le>) (points s) (points t)"
proof -
  have w: "flt_le (rs_cpu_pct s) (rs_cpu_pct t)" "flt_le (load_ratio s) (load_ratio t)"
      "flt_le (rs_mem_available_pct t) (rs_mem_available_pct s)" "flt_le (rs_swap_used_pct s) (rs_swap_used_pct t)"
      "rs_swap_in_growth s \<longrightarrow> rs_swap_in_growth t" "flt_le (rs_disk_used_pct s) (rs_disk_used_pct t)"
      "opt_le (rs_db_connection_util_pct s) (rs_db_connection_util_pct t)"
      "rs_container_crash_count_10m s \<le> rs_container_crash_count_10m t" "rs_oom_kill_count_1h s \<le> rs_oom_kill_count_1h t"
      "opt_le (rs_http_5xx_rate_pct s) (rs_http_5xx_rate_pct t)"
      "case rs_days_until_cert_expiry s of None \<Rightarrow> True | Some d \<Rightarrow> (case rs_days_until_cert_expiry t of None \<Rightarrow> False | Some e \<Rightarrow> e \<le> d)"
    using assms unfolding worse_def by blast+
  have "cpu_points s \<le> cpu_points t"
    unfolding cpu_points_def by (rule tiered_mono) (use above_mono [OF w(1)] above_mono [OF w(2)] in auto)
  moreover have "memory_points s \<le> memory_points t"
    unfolding memory_points_def by (rule tiered_mono) (use below_mono [OF w(3)] above_mono [OF w(4)] w(5) in auto)
  moreover have "oom_points s \<le> oom_points t"
    using w(9) by (auto simp: oom_points_def)
  moreover have "crash_points s \<le> crash_points t"
    unfolding crash_points_def by (rule tiered_mono) (use w(8) in auto)
  moreover have "(if above (rs_disk_used_pct s) (Fin 92) then 15 else if above (rs_disk_used_pct s) (Fin 82) then 8 else 0) \<le>
      (if above (rs_disk_used_pct t) (Fin 92) then 15 else if above (rs_disk_used_pct t) (Fin 82) then 8 else (0::nat))"
    by (rule tiered_mono) (use above_mono [OF w(6)] in auto)
  moreover have "(case rs_days_until_cert_expiry s of Some d \<Rightarrow> if d < 3 then 15 else if d < 10 then 6 else 0 | None \<Rightarrow> 0) \<le>
      (case rs_days_until_cert_expiry t of Some d \<Rightarrow> if d < 3 then 15 else if d < 10 then 6 else 0 | None \<Rightarrow> (0::nat))"
    using w(11) by (cases "rs_days_until_cert_expiry s"; cases "rs_days_until_cert_expiry t") auto
  ultimately show ?thesis
    using grade_mono [OF w(7), of 8 15 "Fin 90" "Fin 75"] grade_mono [OF w(10), of 6 15 "Fin 3" "Fin 1"]
    by (simp only: points_def list.rel_inject list_all2_Nil simp_thms)
qed

text \<open>C38. The outage score is monotone: if no signal is better, the ratio of load to processors included, then the score is not
  lower. The signals that are compared are numbers.\<close>

theorem outage_risk_monotone:
  assumes "worse s t"
  shows "or_score (calculate_outage_risk now s) \<le> or_score (calculate_outage_risk later t)"
proof -
  have "sum_list (points s) \<le> sum_list (points t)"
    using points_mono [OF assms] by (induction rule: list_all2_induct) auto
  then have "min 100 (sum_list (points s)) \<le> min 100 (sum_list (points t))" by simp
  moreover have "unat (of_nat (min 100 n) :: u32) = min 100 n" for n by (simp add: unsigned_of_nat take_bit_nat_eq_self)
  ultimately have "(of_nat (min 100 (sum_list (points s))) :: u32) \<le> of_nat (min 100 (sum_list (points t)))"
    by (simp only: word_le_nat_alt)
  moreover obtain f g where "or_score (calculate_outage_risk now s) = of_nat (min 100 (sum_list (points s)))"
      "or_score (calculate_outage_risk later t) = of_nat (min 100 (sum_list (points t)))"
    using score_points [of now s] score_points [of later t] by auto
  ultimately show ?thesis by simp
qed

definition demo_signals :: "rat \<Rightarrow> u32 \<Rightarrow> RiskSignals" where
  "demo_signals cpu ooms = \<lparr>rs_cpu_pct = Fin cpu, rs_load_avg_5m = Fin 1, rs_cpu_cores = 1, rs_mem_available_pct = Fin 60,
     rs_swap_used_pct = Fin 0, rs_swap_in_growth = False, rs_disk_used_pct = Fin 45, rs_disk_io_wait_pct = Fin 0,
     rs_db_connection_util_pct = Some (Fin 20), rs_container_crash_count_10m = 0, rs_oom_kill_count_1h = ooms,
     rs_http_5xx_rate_pct = None, rs_http_p95_latency_ms = None, rs_days_until_cert_expiry = Some 60, rs_open_unexpected_ports = 0\<rparr>"

theorem outage_risk_monotone_witness:
  "worse (demo_signals 25 0) (demo_signals 95 2) \<and>
   or_score (calculate_outage_risk 0 (demo_signals 25 0)) \<le> or_score (calculate_outage_risk 0 (demo_signals 95 2))"
proof -
  have "worse (demo_signals 25 0) (demo_signals 95 2)"
    by (simp add: worse_def demo_signals_def load_ratio_def opt_le_def of_unsigned_def)
  with outage_risk_monotone [OF this] show ?thesis by blast
qed

text \<open>Three of the signals are never looked at.\<close>

theorem unused_signals:
  "calculate_outage_risk now (s\<lparr>rs_disk_io_wait_pct := a, rs_http_p95_latency_ms := b, rs_open_unexpected_ports := c\<rparr>) = calculate_outage_risk now s"
proof -
  let ?t = "s\<lparr>rs_disk_io_wait_pct := a, rs_http_p95_latency_ms := b, rs_open_unexpected_ports := c\<rparr>"
  have same: "rs_cpu_pct ?t = rs_cpu_pct s" "rs_load_avg_5m ?t = rs_load_avg_5m s" "rs_cpu_cores ?t = rs_cpu_cores s"
      "rs_mem_available_pct ?t = rs_mem_available_pct s" "rs_swap_used_pct ?t = rs_swap_used_pct s"
      "rs_swap_in_growth ?t = rs_swap_in_growth s" "rs_disk_used_pct ?t = rs_disk_used_pct s"
      "rs_db_connection_util_pct ?t = rs_db_connection_util_pct s" "rs_oom_kill_count_1h ?t = rs_oom_kill_count_1h s"
      "rs_container_crash_count_10m ?t = rs_container_crash_count_10m s" "rs_http_5xx_rate_pct ?t = rs_http_5xx_rate_pct s"
      "rs_days_until_cert_expiry ?t = rs_days_until_cert_expiry s"
    by simp_all
  have "cpu_check ?t = cpu_check s" "memory_check ?t = memory_check s" "oom_check ?t = oom_check s" "crash_check ?t = crash_check s"
      "disk_check ?t = disk_check s" "db_check ?t = db_check s" "http_check ?t = http_check s" "tls_check ?t = tls_check s"
    unfolding check_defs [abs_def] load_ratio_def same by (rule refl)+
  then show ?thesis unfolding calculate_outage_risk_def risk_checks_def by (simp only: fold_simps)
qed

end
