(* ===== verification/Forecast.thy ===== *)
theory Forecast
  imports Slice_Sort Telemetry_State Outage_Risk
begin

text \<open>
  The rest of crates/kyvon-diagnostics: capacity.rs (a linear forecast), site_performance.rs (where a page spends
  its time) and causality.rs (what changed), with their types of crates/kyvon-core/src (diagnostics.rs,
  incident.rs, deployment.rs). Arithmetic is that of \<open>f64\<close>; the clock is an argument.
\<close>

section \<open>Floats\<close>

text \<open>\<open>round\<close> takes ties away from zero; \<open>clamp\<close> lets a value that is not a number through.\<close>

definition f_round :: "flt \<Rightarrow> flt" where
  "f_round x = (case x of Fin q \<Rightarrow> Fin (of_int (if q < 0 then - \<lfloor>1 / 2 - q\<rfloor> else \<lfloor>q + 1 / 2\<rfloor>)) | y \<Rightarrow> y)"

definition f_floor :: "flt \<Rightarrow> flt" where
  "f_floor x = (case x of Fin q \<Rightarrow> Fin (of_int \<lfloor>q\<rfloor>) | y \<Rightarrow> y)"

definition f_clamp :: "flt \<Rightarrow> flt \<Rightarrow> flt \<Rightarrow> flt" where
  "f_clamp x lo hi = (if flt_less x lo then lo else if flt_less hi x then hi else x)"

definition TENTH :: flt where
  "TENTH = rnd F64 (1 / 10)"

definition to_tenth :: "flt \<Rightarrow> flt" where
  "to_tenth x = fdiv F64 (f_round (fmul F64 x (Fin 10))) (Fin 10)"

section \<open>Capacity\<close>

record CapacityForecastPoint =
  cp_hours_ahead :: u32
  cp_projected_cpu_pct :: flt
  cp_projected_ram_pct :: flt
  cp_projected_disk_pct :: flt

record CapacityForecast =
  cf_current_utilization_pct :: flt
  cf_reserved_headroom_pct :: flt
  cf_projected_saturation_days :: "flt option"
  cf_points :: "CapacityForecastPoint list"
  cf_bottleneck_resource :: rstr

record MetricTrendSample =
  mt_timestamp_ms :: TimestampMs
  mt_cpu_pct :: flt
  mt_ram_pct :: flt
  mt_disk_pct :: flt

definition slope_per_hour :: "(MetricTrendSample \<Rightarrow> flt) \<Rightarrow> MetricTrendSample list \<Rightarrow> flt" where
  "slope_per_hour f samples =
     (if length samples \<ge> 2 then
        (let latest = last samples; first = hd samples;
             delta_hours = f_max (fdiv F64 (of_signed F64 (wrapping_i64 (mt_timestamp_ms latest - mt_timestamp_ms first))) (Fin 3600000)) TENTH
         in fdiv F64 (fsub F64 (f latest) (f first)) delta_hours)
      else Fin 0)"

definition bottleneck :: "MetricTrendSample \<Rightarrow> flt \<Rightarrow> flt \<Rightarrow> flt \<Rightarrow> flt \<Rightarrow> rstr \<times> flt \<times> flt" where
  "bottleneck latest current_util disk ram cpu =
     (if flt_le ram disk \<and> flt_le cpu disk \<and> above disk (Fin 0) then (''Disk'', disk, mt_disk_pct latest)
      else if flt_le cpu ram \<and> above ram (Fin 0) then (''RAM'', ram, mt_ram_pct latest)
      else if above cpu (Fin 0) then (''CPU'', cpu, mt_cpu_pct latest)
      else (''Stable'', Fin 0, current_util))"

definition saturation_days :: "flt \<Rightarrow> flt \<Rightarrow> flt option" where
  "saturation_days max_slope current_pct =
     (if above max_slope (rnd F64 (1 / 1000)) then
        Some (f_max (fdiv F64 (fdiv F64 (f_max (fsub F64 (Fin 100) current_pct) (Fin 0)) max_slope) (Fin 24)) TENTH)
      else None)"

definition project :: "flt \<Rightarrow> flt \<Rightarrow> u32 \<Rightarrow> flt" where
  "project now_pct slope h = to_tenth (f_clamp (fadd F64 now_pct (fmul F64 slope (of_unsigned F64 h))) (Fin 0) (Fin 100))"

definition forecast_horizons :: "u32 list" where
  "forecast_horizons = [1, 6, 24, 168]"

definition predict_capacity :: "MetricTrendSample list \<Rightarrow> CapacityForecast" where
  "predict_capacity samples =
     (if samples = [] then
        \<lparr>cf_current_utilization_pct = Fin 0, cf_reserved_headroom_pct = Fin 100, cf_projected_saturation_days = None,
         cf_points = [], cf_bottleneck_resource = ''None''\<rparr>
      else
        (let latest = last samples;
             current_util = f_max (f_max (mt_cpu_pct latest) (mt_ram_pct latest)) (mt_disk_pct latest);
             reserved_headroom = f_max (fsub F64 (Fin 100) current_util) (Fin 0);
             disk = slope_per_hour mt_disk_pct samples;
             ram = slope_per_hour mt_ram_pct samples;
             cpu = slope_per_hour mt_cpu_pct samples
         in case bottleneck latest current_util disk ram cpu of
              (name, max_slope, current_pct) \<Rightarrow>
                \<lparr>cf_current_utilization_pct = to_tenth current_util, cf_reserved_headroom_pct = to_tenth reserved_headroom,
                 cf_projected_saturation_days = map_option to_tenth (saturation_days max_slope current_pct),
                 cf_points = map (\<lambda>h. \<lparr>cp_hours_ahead = h, cp_projected_cpu_pct = project (mt_cpu_pct latest) cpu h,
                   cp_projected_ram_pct = project (mt_ram_pct latest) ram h,
                   cp_projected_disk_pct = project (mt_disk_pct latest) disk h\<rparr>) forecast_horizons,
                 cf_bottleneck_resource = name\<rparr>))"

section \<open>Site performance\<close>

record LatencyBreakdownSample =
  lb_domain :: rstr
  lb_dns_ms :: flt
  lb_tls_ms :: flt
  lb_nginx_ms :: flt
  lb_backend_ms :: flt
  lb_database_ms :: flt
  lb_redis_ms :: flt
  lb_external_api_ms :: flt
  lb_observed_latencies_ms :: "flt list"

record SitePerformanceReport =
  sp_domain :: rstr
  sp_dns_ms :: flt
  sp_tls_ms :: flt
  sp_nginx_ms :: flt
  sp_backend_ms :: flt
  sp_database_ms :: flt
  sp_redis_ms :: flt
  sp_external_api_ms :: flt
  sp_primary_bottleneck :: rstr
  sp_avg_latency_ms :: flt
  sp_p95_ms :: flt
  sp_p99_ms :: flt

definition segments :: "LatencyBreakdownSample \<Rightarrow> (rstr \<times> flt) list" where
  "segments s =
     [(''DNS Resolution'', lb_dns_ms s), (''TLS Handshake'', lb_tls_ms s), (''Nginx Gateway'', lb_nginx_ms s),
      (''Backend Application'', lb_backend_ms s), (''Database Queries'', lb_database_ms s), (''Redis Cache'', lb_redis_ms s),
      (''External APIs'', lb_external_api_ms s)]"

definition percentile_index :: "flt \<Rightarrow> nat \<Rightarrow> nat" where
  "percentile_index q n = min (unat (to_u64 (f_floor (fmul F64 (of_unsigned F64 (of_nat n :: u64)) q)))) (n - 1)"

definition observed_percentile :: "flt \<Rightarrow> flt \<Rightarrow> flt list \<Rightarrow> flt" where
  "observed_percentile q fallback sorted_latencies =
     (if sorted_latencies = [] then fallback else sorted_latencies ! percentile_index q (length sorted_latencies))"

definition site_average :: "LatencyBreakdownSample \<Rightarrow> flt list \<Rightarrow> flt" where
  "site_average s sorted_latencies =
     (if sorted_latencies = [] then
        fadd F64 (fadd F64 (fadd F64 (fadd F64 (fadd F64 (lb_dns_ms s) (lb_tls_ms s)) (lb_nginx_ms s)) (lb_backend_ms s)) (lb_database_ms s))
          (lb_external_api_ms s)
      else fdiv F64 (foldl (fadd F64) (Fin 0) sorted_latencies) (of_unsigned F64 (of_nat (length sorted_latencies) :: u64)))"

definition diagnose_site_performance :: "LatencyBreakdownSample \<Rightarrow> SitePerformanceReport" where
  "diagnose_site_performance s =
     (let primary = (case sort_by (descending snd) (segments s) of x # _ \<Rightarrow> fst x | [] \<Rightarrow> ''Unknown'');
          sorted_latencies = sort_by (ascending (\<lambda>x. x)) (lb_observed_latencies_ms s);
          avg_latency_ms = site_average s sorted_latencies;
          p95_ms = observed_percentile (rnd F64 (95 / 100)) (fmul F64 avg_latency_ms (rnd F64 (15 / 10))) sorted_latencies;
          p99_ms = observed_percentile (rnd F64 (99 / 100)) (fmul F64 avg_latency_ms (rnd F64 (22 / 10))) sorted_latencies
      in \<lparr>sp_domain = lb_domain s, sp_dns_ms = lb_dns_ms s, sp_tls_ms = lb_tls_ms s, sp_nginx_ms = lb_nginx_ms s,
          sp_backend_ms = lb_backend_ms s, sp_database_ms = lb_database_ms s, sp_redis_ms = lb_redis_ms s,
          sp_external_api_ms = lb_external_api_ms s, sp_primary_bottleneck = primary,
          sp_avg_latency_ms = to_tenth avg_latency_ms, sp_p95_ms = to_tenth p95_ms, sp_p99_ms = to_tenth p99_ms\<rparr>)"

section \<open>What changed\<close>

datatype DeploymentStatus = DeployHealthy | DeployWarning | DeployCritical | DeployFailed | RollingBack

record DeploymentRecord =
  dr_id :: rstr
  dr_server_id :: rstr
  dr_application :: rstr
  dr_environment :: rstr
  dr_version :: rstr
  dr_git_commit :: rstr
  dr_git_branch :: rstr
  dr_git_repo :: "rstr option"
  dr_deployed_at_ms :: TimestampMs
  dr_duration_seconds :: u32
  dr_status :: DeploymentStatus
  dr_instances :: u32
  dr_cpu_pct :: flt
  dr_ram_mb :: flt
  dr_error_rate_pct :: flt
  dr_requests_per_min :: u32

record WhatChangedItem =
  wc_category :: rstr
  wc_description :: rstr
  wc_is_anomalous :: bool

record WhatChangedReport =
  wr_server_id :: rstr
  wr_timeframe :: rstr
  wr_generated_at_ms :: TimestampMs
  wr_changes :: "WhatChangedItem list"

definition generate_what_changed_report ::
    "TimestampMs \<Rightarrow> rstr \<Rightarrow> rstr \<Rightarrow> DeploymentRecord list \<Rightarrow> rstr list \<Rightarrow> rstr list \<Rightarrow> flt option \<Rightarrow> WhatChangedReport" where
  "generate_what_changed_report now server_id timeframe deployments config_diffs container_updates ram_growth_pct =
     \<lparr>wr_server_id = server_id, wr_timeframe = timeframe, wr_generated_at_ms = now,
      wr_changes =
        map (\<lambda>d. \<lparr>wc_category = ''Deployments'',
          wc_description = dr_application d @ '' v'' @ dr_version d @ '' (commit '' @ dr_git_commit d @ '')'', wc_is_anomalous = False\<rparr>) deployments @
        map (\<lambda>diff. \<lparr>wc_category = ''Configuration'', wc_description = diff, wc_is_anomalous = True\<rparr>) config_diffs @
        map (\<lambda>u. \<lparr>wc_category = ''Containers'', wc_description = u, wc_is_anomalous = False\<rparr>) container_updates @
        (case ram_growth_pct of
           Some g \<Rightarrow>
             if above g (Fin 15) then
               [\<lparr>wc_category = ''Resources'', wc_description = ''RAM usage elevated +'' @ show_fixed 1 g @ ''% over baseline'', wc_is_anomalous = True\<rparr>]
             else []
         | None \<Rightarrow> [])\<rparr>"

section \<open>Forecasts stay in range\<close>

definition in_percent :: "flt \<Rightarrow> bool" where
  "in_percent x \<longleftrightarrow> is_nan x \<or> flt_le (Fin 0) x \<and> flt_le x (Fin 100)"

lemma fmul_ten_bounds:
  assumes "0 \<le> q" "q \<le> 100"
  obtains r where "fmul F64 (Fin q) (Fin 10) = Fin r" "0 \<le> r" "r \<le> 1000"
proof -
  have "rnd F64 1000 = Fin 1000" using rnd_of_nat [of 1000 F64] by simp
  from rnd_mono_Fin [OF this, of "q * 10"] assms show thesis using that by auto
qed

lemma to_tenth_percent:
  assumes "0 \<le> q" "q \<le> 100"
  shows "in_percent (to_tenth (Fin q))"
proof -
  obtain r where r: "fmul F64 (Fin q) (Fin 10) = Fin r" "0 \<le> r" "r \<le> 1000" using fmul_ten_bounds [OF assms] .
  let ?k = "\<lfloor>r + 1 / 2\<rfloor>"
  have "0 \<le> ?k" "?k \<le> 1000" using r by (simp_all add: floor_le_iff)
  then have k: "0 \<le> of_int ?k / (10::rat)" "of_int ?k / (10::rat) \<le> 100" by simp_all
  obtain t where "rnd F64 (of_int ?k / 10) = Fin t" "0 \<le> t" "t \<le> 100" using rnd_mono_Fin [OF rnd_hundred k] .
  then show ?thesis using r by (auto simp: to_tenth_def f_round_def in_percent_def not_less)
qed

lemma to_tenth_nan: "to_tenth NaN = NaN"
  by (simp add: to_tenth_def f_round_def)

lemma clamp_cases: "f_clamp x (Fin 0) (Fin 100) = NaN \<or> (\<exists>q. f_clamp x (Fin 0) (Fin 100) = Fin q \<and> 0 \<le> q \<and> q \<le> 100)"
  by (cases x) (auto simp: f_clamp_def)

lemma project_percent: "in_percent (project p s h)"
  using clamp_cases to_tenth_percent to_tenth_nan unfolding project_def by (metis in_percent_def is_nan_def)

lemma TENTH_value: "TENTH = Fin (7205759403792794 / 2 ^ 56)"
  unfolding TENTH_def using rnd_F64_value [of "- 4" "1 / 10" 56 7205759403792794] by (simp add: power_int_def power_one_over)

lemma rnd_lower:
  assumes "rnd k x = Fin a" "0 \<le> x" "x \<le> y"
  shows "flt_le (Fin a) (rnd k y)"
proof (cases "rnd k y")
  case (Fin b)
  from rnd_mono_Fin [OF Fin assms(2,3)] assms(1) obtain r where "Fin a = Fin r" "r \<le> b" by metis
  with Fin show ?thesis by auto
next
  case PInf
  then show ?thesis by simp
qed (use assms in \<open>auto simp: rnd_def rnd_pos_def Let_def split: if_splits\<close>)

lemma to_tenth_at_least:
  assumes "flt_le TENTH x"
  shows "flt_le TENTH (to_tenth x)"
proof (cases x)
  case (Fin q)
  have q: "7205759403792794 / 2 ^ 56 \<le> q" using assms by (simp add: Fin TENTH_value) linarith
  have one: "flt_le (Fin 1) (rnd F64 (q * 10))" by (rule rnd_lower [OF rnd_one]) (use q in simp_all)
  show ?thesis
  proof (cases "rnd F64 (q * 10)")
    case (Fin r)
    then have "1 \<le> r" using one by auto
    then have "1 \<le> \<lfloor>r + 1 / 2\<rfloor>" by simp
    then have "(1 :: rat) / 10 \<le> of_int \<lfloor>r + 1 / 2\<rfloor> / 10" by simp
    moreover have "rnd F64 (1 / 10) = Fin (7205759403792794 / 2 ^ 56)" using TENTH_value by (simp add: TENTH_def)
    ultimately have "flt_le TENTH (rnd F64 (of_int \<lfloor>r + 1 / 2\<rfloor> / 10))"
      unfolding TENTH_value by (intro rnd_lower [where x = "1 / 10"]) simp_all
    with \<open>1 \<le> r\<close> Fin show ?thesis by (simp add: to_tenth_def \<open>x = Fin q\<close> f_round_def)
  next
    case PInf
    then show ?thesis by (simp add: to_tenth_def \<open>x = Fin q\<close> f_round_def TENTH_value inf_of_def)
  qed (use one in auto)
qed (use assms in \<open>auto simp: to_tenth_def f_round_def TENTH_value inf_of_def\<close>)

lemma f_max_at_least: "is_nan y = False \<Longrightarrow> flt_le y (f_max x y)"
  by (cases x; cases y) (auto simp: f_max_def is_nan_def)


section \<open>The index of a percentile\<close>

lemma round_rat_error_upper:
  assumes "0 < q"
  shows "round_rat k q \<le> q + ulp k q / 2"
proof -
  have "(of_int (round_even (q / ulp k q)) - q / ulp k q) * ulp k q \<le> 1 / 2 * ulp k q"
    using round_even_near(1) [of "q / ulp k q"] ulp_pos [of k q] by (intro mult_right_mono) (auto intro: less_imp_le)
  then have "of_int (round_even (q / ulp k q)) * ulp k q - q \<le> ulp k q / 2"
    using ulp_pos [of k q] by (simp add: left_diff_distrib)
  then show ?thesis using assms by (simp add: round_rat_def)
qed

text \<open>A product that falls short of a whole number by less than half a unit in the last place is rounded to it.\<close>

lemma round_rat_whole:
  fixes K :: nat
  assumes "0 < K" "K < 2 ^ 40" "x = of_nat K * (1 - eps / 2 ^ 53)" "0 \<le> eps" "eps \<le> 43 / 100"
  shows "round_rat F64 x = of_nat K"
proof -
  have "1 \<le> K" using assms(1) by simp
  then have "(of_nat 1 :: rat) \<le> of_nat K" by (simp only: of_nat_le_iff)
  then have K1: "(1::rat) \<le> of_nat K" by simp
  have half: "1 / 2 \<le> 1 - eps / 2 ^ 53" "1 - eps / 2 ^ 53 \<le> 1" using assms(4,5) by simp_all
  have "1 * (1 / 2) \<le> x" unfolding assms(3) by (rule mult_mono) (use K1 half in simp_all)
  then have x: "1 / 2 \<le> x" "0 < x" by simp_all
  have xK: "x \<le> of_nat K" unfolding assms(3) using K1 half by (intro mult_left_le) simp_all
  let ?e = "ilog2 x"
  have e: "2 powi ?e \<le> x" "x < 2 powi (?e + 1)" using ilog2_bounds [OF x(2)] .
  have "(of_nat K :: rat) < of_nat (2 ^ 40)" using assms(2) by (simp only: of_nat_less_iff)
  then have "(of_nat K :: rat) < 2 powi 40" by (simp add: power_int_def)
  then have "(2::rat) powi ?e < 2 powi 40" using e(1) xK by linarith
  then have small: "?e < 40" by (simp only: pow2_less_iff)
  have "(2::rat) powi (- 1) < 2 powi (?e + 1)" using x(1) e(2) by (simp add: power_int_minus)
  then have low: "- 1 < ?e + 1" by (simp only: pow2_less_iff)
  have ulp: "ulp F64 x = 2 powi (?e - 52)" unfolding ulp_def using low by simp
  have Kx: "of_nat K \<le> x * (1 + 1 / 2 ^ 50)"
  proof -
    have "1 \<le> (1 - eps / 2 ^ 53) * (1 + 1 / 2 ^ 50)" using assms(4,5) by (simp add: field_simps)
    then have "of_nat K * 1 \<le> of_nat K * ((1 - eps / 2 ^ 53) * (1 + 1 / 2 ^ 50))" by (intro mult_left_mono) simp_all
    then show ?thesis by (simp add: assms(3) mult.assoc)
  qed
  have "of_nat K - x = of_nat K * (eps / 2 ^ 53)" unfolding assms(3) by (simp add: algebra_simps)
  also have "\<dots> \<le> (x * (1 + 1 / 2 ^ 50)) * (43 / 100 / 2 ^ 53)"
    by (rule mult_mono [OF Kx]) (use assms(4,5) x in \<open>simp_all add: divide_right_mono\<close>)
  also have "\<dots> < (2 powi (?e + 1) * (1 + 1 / 2 ^ 50)) * (43 / 100 / 2 ^ 53)" using e(2) by simp
  also have "\<dots> = 2 powi (?e - 52) * ((1 + 1 / 2 ^ 50) * (43 / 100))"
    using pow2_add [of "?e - 52" 53] by (simp add: ac_simps)
  also have "\<dots> \<le> 2 powi (?e - 52) * (1 / 2)" by (rule mult_left_mono) simp_all
  finally have diff: "of_nat K - x < ulp F64 x / 2" unfolding ulp by simp
  have "(2::rat) powi int (nat (52 - ?e)) * 2 powi (?e - 52) = 2 powi 0" using small by (subst pow2_add [symmetric]) simp
  then have one: "(2::rat) ^ nat (52 - ?e) * ulp F64 x = 1" by (simp only: power_int_of_nat power_int_0_right ulp)
  let ?i = "int K * 2 ^ nat (52 - ?e)"
  have i: "of_int ?i * ulp F64 x = of_nat K" using one by (simp add: mult.assoc)
  have "(of_int ?i - x / ulp F64 x) * ulp F64 x = of_nat K - x"
    unfolding left_diff_distrib i using ulp_pos [of F64 x] by (simp add: less_imp_neq [symmetric])
  with diff xK have "(of_int ?i - x / ulp F64 x) * ulp F64 x < 1 / 2 * ulp F64 x" "0 \<le> (of_int ?i - x / ulp F64 x) * ulp F64 x"
    by simp_all
  then have "of_int ?i - x / ulp F64 x < 1 / 2" "0 \<le> of_int ?i - x / ulp F64 x"
    using ulp_pos [of F64 x] by (simp_all only: mult_less_cancel_right zero_le_mult_iff) (auto dest: less_imp_le)
  then have "round_even (x / ulp F64 x) = ?i" by (intro round_even_unique) simp
  then show ?thesis using x(2) i by (simp add: round_rat_def)
qed

lemma percentile_product:
  assumes "0 < n" "n < 2 ^ 40" "0 < C" "C < 100" "c = of_nat C / 100 - d / 2 ^ 53" "0 \<le> d" "100 * d \<le> 43 / 100 * of_nat C"
  shows "\<lfloor>round_rat F64 (of_nat n * c)\<rfloor> = int (C * n div 100)" "0 < of_nat n * c" "round_rat F64 (of_nat n * c) < 2 ^ 41"
proof -
  let ?K = "C * n div 100" and ?R = "C * n mod 100" and ?x = "of_nat n * c" and ?n = "of_nat n :: rat"
  have "of_nat 1 \<le> ?n" "?n < of_nat (2 ^ 40)" using assms(1,2) by (simp_all only: of_nat_le_iff of_nat_less_iff Suc_le_eq One_nat_def)
  then have n: "1 \<le> ?n" "?n < 2 ^ 40" by simp_all
  have C: "(of_nat 1 :: rat) \<le> of_nat C" "of_nat C \<le> (of_nat 99 :: rat)" using assms(3,4) by (simp_all only: of_nat_le_iff)
  have d: "d \<le> 43 / 100" using assms(7) C(2) by simp
  have "C * n = 100 * ?K + ?R" by simp
  then have "(of_nat (C * n) :: rat) = of_nat (100 * ?K + ?R)" by (rule arg_cong)
  then have split: "of_nat C * ?n = 100 * of_nat ?K + of_nat ?R"
    by (simp only: of_nat_mult of_nat_add of_nat_numeral)
  have err: "0 \<le> ?n * (d / 2 ^ 53)" "?n * (d / 2 ^ 53) \<le> 1 / 8192"
  proof -
    show "0 \<le> ?n * (d / 2 ^ 53)" using assms(6) by simp
    have "?n * (d / 2 ^ 53) \<le> 2 ^ 40 * (1 / 2 ^ 53)" by (rule mult_mono) (use n d assms(6) in simp_all)
    then show "?n * (d / 2 ^ 53) \<le> 1 / 8192" by simp
  qed
  have x: "?x = of_nat ?K + of_nat ?R / 100 - ?n * (d / 2 ^ 53)"
    using split by (simp add: assms(5) right_diff_distrib) (simp add: field_simps)
  have "1 / 100 * 1 - 1 / 8192 \<le> of_nat C / 100 * ?n - ?n * (d / 2 ^ 53)"
    by (rule diff_mono, rule mult_mono) (use C n err in simp_all)
  then have pos: "0 < ?x" unfolding assms(5) by (simp add: algebra_simps)
  show "0 < ?x" by (fact pos)
  have "c \<le> 1" unfolding assms(5) using C assms(6) by (simp add: field_simps)
  then have xn: "?x \<le> ?n" using n by (intro mult_left_le) simp_all
  have "?x < 2 ^ 40" using xn n(2) by (rule le_less_trans)
  then have "?x < 2 powi 40" by simp
  then have ulp: "ulp F64 ?x \<le> 1 / 8192" using ulp_small [OF pos] by (simp add: power_int_def power_one_over)
  have near: "?x - 1 / 16384 \<le> round_rat F64 ?x" "round_rat F64 ?x \<le> ?x + 1 / 16384"
    using round_rat_error [OF pos, of F64] round_rat_error_upper [OF pos, of F64] ulp by simp_all
  show "round_rat F64 ?x < 2 ^ 41" using le_less_trans [OF near(2) add_strict_right_mono [OF le_less_trans [OF xn n(2)]]] by (rule less_trans) simp
  show "\<lfloor>round_rat F64 ?x\<rfloor> = int ?K"
  proof (cases "?R = 0")
    case True
    then have K: "of_nat C * ?n = 100 * of_nat ?K" using split by simp
    have "C * n = 100 * ?K" using True by auto
    then have "0 < ?K" using assms(1,3) by (metis mult_eq_0_iff neq0_conv)
    moreover have "?K \<le> n" using div_le_mono [of "C * n" "100 * n" 100] assms(4) by simp
    then have "?K < 2 ^ 40" using assms(2) by (rule le_less_trans)
    moreover have "?x = of_nat ?K * (1 - (100 * d / of_nat C) / 2 ^ 53)"
    proof -
      have nK: "?n = 100 * of_nat ?K / of_nat C" using K C(1) by (simp add: field_simps)
      have "?x = of_nat ?K - ?n * (d / 2 ^ 53)" using x True by simp
      also have "?n * (d / 2 ^ 53) = of_nat ?K * ((100 * d / of_nat C) / 2 ^ 53)" by (subst nK) simp
      finally show ?thesis by (simp add: right_diff_distrib)
    qed
    moreover have "100 * d / of_nat C \<le> 43 / 100" "0 \<le> 100 * d / of_nat C"
      using assms(6,7) C by (simp_all add: field_simps)
    ultimately have "round_rat F64 ?x = of_nat ?K" by (intro round_rat_whole)
    then show ?thesis by simp
  next
    case False
    then have "1 \<le> ?R" "?R \<le> 99" by auto
    then have "(of_nat 1 :: rat) \<le> of_nat ?R" "(of_nat ?R :: rat) \<le> of_nat 99" by (simp_all only: of_nat_le_iff)
    then have "1 \<le> (of_nat ?R :: rat)" "of_nat ?R \<le> (99 :: rat)" by simp_all
    then have "of_nat ?K \<le> round_rat F64 ?x" "round_rat F64 ?x < of_nat ?K + 1" using x near err by linarith+
    then show ?thesis by (intro floor_unique) simp_all
  qed
qed

lemma floor_index:
  assumes "q = Fin c" "0 < n" "n < 2 ^ 40" "0 < C" "C < 100" "c = of_nat C / 100 - d / 2 ^ 53" "0 \<le> d" "100 * d \<le> 43 / 100 * of_nat C"
  shows "percentile_index q n = min (C * n div 100) (n - 1)"
proof -
  let ?x = "of_nat n * c" and ?K = "C * n div 100"
  note p = percentile_product [OF assms(2-8)]
  have small: "n < 2 ^ 64" "n < 2 ^ fprec F64" using assms by simp_all
  then have "of_unsigned F64 (of_nat n :: u64) = Fin (of_nat n)"
    unfolding of_unsigned_def unat_of_nat_small [OF small(1)] by (intro rnd_of_nat)
  moreover have "rnd F64 ?x = Fin (round_rat F64 ?x)"
  proof -
    have "round_rat F64 ?x < 2 powi 41" using p(3) by simp
    also have "\<dots> \<le> 2 powi (femax F64 + 1)" unfolding pow2_le_iff by simp
    finally show ?thesis using p(2) by (simp add: rnd_def rnd_pos_def Let_def)
  qed
  ultimately have prod: "f_floor (fmul F64 (of_unsigned F64 (of_nat n :: u64)) q) = Fin (of_int (int ?K))"
    using p(1) by (simp add: assms(1) f_floor_def)
  have "?K \<le> n" using div_le_mono [of "C * n" "100 * n" 100] assms(5) by simp
  then have K: "?K < 2 ^ 64" using assms(3) by simp
  then have "(of_nat ?K :: rat) < of_nat (2 ^ 64)" by (simp only: of_nat_less_iff)
  then have "to_u64 (Fin (of_int (int ?K))) = of_nat ?K"
    by (auto simp: to_u64_def not_le less_Suc_eq simp flip: of_nat_less_iff)
  then show ?thesis unfolding percentile_index_def prod using unat_of_nat_small [OF K] by simp
qed

text \<open>
  The index is computed in doubles from 0.95 and 0.99, which are both a little less than the decimals they stand
  for; the result is the index the decimals give all the same.
\<close>

lemma percentile_indices:
  assumes "0 < n" "n < 2 ^ 40"
  shows "percentile_index (rnd F64 (95 / 100)) n = min (95 * n div 100) (n - 1)"
    and "percentile_index (rnd F64 (99 / 100)) n = min (99 * n div 100) (n - 1)"
proof -
  have 95: "rnd F64 (95 / 100) = Fin (8556839292003942 / 2 ^ 53)"
    using rnd_F64_value [of "- 1" "95 / 100" 53 8556839292003942] by (simp add: power_int_def power_one_over)
  have 99: "rnd F64 (99 / 100) = Fin (8917127262193582 / 2 ^ 53)"
    using rnd_F64_value [of "- 1" "99 / 100" 53 8917127262193582] by (simp add: power_int_def power_one_over)
  show "percentile_index (rnd F64 (95 / 100)) n = min (95 * n div 100) (n - 1)"
    by (rule floor_index [OF 95 assms, where d = "2 / 5"]) simp_all
  show "percentile_index (rnd F64 (99 / 100)) n = min (99 * n div 100) (n - 1)"
    by (rule floor_index [OF 99 assms, where d = "2 / 25"]) simp_all
qed


definition demo_latency :: LatencyBreakdownSample where
  "demo_latency = \<lparr>lb_domain = ''api'', lb_dns_ms = Fin 12, lb_tls_ms = Fin 31, lb_nginx_ms = Fin 4, lb_backend_ms = Fin 183,
     lb_database_ms = Fin 142, lb_redis_ms = Fin 2, lb_external_api_ms = Fin 480, lb_observed_latencies_ms = [Fin 480, Fin 150, Fin 220]\<rparr>"


text \<open>
  With up to twenty observations the 95th percentile is the largest of them; by the nearest-rank rule of the metric
  store it would be the last but one of twenty. Without observations the cache does not count in the average.
\<close>

theorem site_p95_is_largest:
  assumes "0 < n" "n \<le> 20"
  shows "percentile_index (rnd F64 (95 / 100)) n = n - 1"
proof -
  have "n - 1 \<le> 95 * n div 100" using assms(2) by (simp add: less_eq_div_iff_mult_less_eq)
  then show ?thesis using percentile_indices(1) [of n] assms by simp
qed

theorem average_ignores_cache:
  "site_average (s\<lparr>lb_redis_ms := x\<rparr>) [] = site_average s []"
  by (simp add: site_average_def)

end
