(* ===== verification/Front_Ends.thy ===== *)
theory Front_Ends
  imports Storage_Backend
begin

text \<open>
  The two programs without a window: apps/mcp/src/main.rs, which serves the gateway over standard input and
  output, and apps/cli/src/main.rs. Environment variables, the file system and the database are arguments; a
  path is text in the syntax of Unix, and the Windows arm of the gateway is left out.
\<close>

section \<open>Paths\<close>

definition path_join :: "rstr \<Rightarrow> rstr \<Rightarrow> rstr" where
  "path_join base rel =
     (if starts_with rel ''/'' then rel else if base = [] \<or> ends_with base ''/'' then base @ rel else base @ ''/'' @ rel)"

text \<open>\<open>Path::parent\<close>: all components but the last; a root has none. Empty components and inner dots are no components.\<close>

definition path_components :: "rstr \<Rightarrow> rstr list" where
  "path_components p =
     (case split_on (CHR ''/'') p of
        [] \<Rightarrow> []
      | first # rest \<Rightarrow> (if first = [] then [] else [first]) @ filter (\<lambda>c. c \<noteq> [] \<and> c \<noteq> ''.'') rest)"

definition path_parent :: "rstr \<Rightarrow> rstr option" where
  "path_parent p =
     (if path_components p = [] then None
      else Some ((if starts_with p ''/'' then ''/'' else []) @ join ''/'' (butlast (path_components p))))"

section \<open>The gateway\<close>

datatype platform = MacOs | Linux | OtherUnix

record environment =
  env_KYVON_DB :: "rstr option"
  env_XDG_DATA_HOME :: "rstr option"
  env_HOME :: "rstr option"

definition dirs_next :: "platform \<Rightarrow> environment \<Rightarrow> rstr option" where
  "dirs_next os e =
     (case os of
        MacOs \<Rightarrow> map_option (\<lambda>h. path_join h ''Library/Application Support/com.kyvon.ops'') (env_HOME e)
      | Linux \<Rightarrow>
          map_option (\<lambda>d. path_join d ''com.kyvon.ops'')
            (case env_XDG_DATA_HOME e of Some d \<Rightarrow> Some d | None \<Rightarrow> map_option (\<lambda>h. path_join h ''.local/share'') (env_HOME e))
      | OtherUnix \<Rightarrow> env_HOME e)"

definition database_path :: "platform \<Rightarrow> environment \<Rightarrow> rstr option" where
  "database_path os e =
     (case env_KYVON_DB e of
        Some explicit \<Rightarrow> Some explicit
      | None \<Rightarrow> map_option (\<lambda>d. path_join d ''kyvon.db'') (dirs_next os e))"

text \<open>The handler the loop runs with, and what is said on standard error.\<close>

definition may_open :: "(rstr \<Rightarrow> bool) \<Rightarrow> rstr \<Rightarrow> bool" where
  "may_open exists path \<longleftrightarrow> exists path \<or> (case path_parent path of None \<Rightarrow> True | Some p \<Rightarrow> p = [] \<or> exists p)"

definition gateway_start ::
    "platform \<Rightarrow> environment \<Rightarrow> (rstr \<Rightarrow> bool) \<Rightarrow> (rstr \<Rightarrow> KyvonError + InfrastructureBackend) \<Rightarrow> McpProtocolHandler \<times> rstr" where
  "gateway_start os e exists open_db =
     (let handler = handler_new Observer in
      case database_path os e of
        None \<Rightarrow> (handler, ''[KYVONOPS-MCP] Could not determine the application data directory.'')
      | Some path \<Rightarrow>
          if may_open exists path then
            (case open_db path of
               Inr backend \<Rightarrow> (with_backend backend handler, ''[KYVONOPS-MCP] Reading inventory from '' @ path)
             | Inl err \<Rightarrow>
                 (handler, ''[KYVONOPS-MCP] Could not open '' @ path @ '': '' @ display_error err @
                    ''. Tools will report that no backend is attached.''))
          else (handler, ''[KYVONOPS-MCP] No database at '' @ path @ '' and its directory does not exist.''))"

text \<open>
  The loop reads a line at a time; a line that cannot be read, \<open>None\<close>, ends the program with an error. With each line come
  the clock and the state of the store at that moment, which is what the queries of the backend see.
\<close>

record request =
  rq_line :: "rstr option"
  rq_now :: TimestampMs
  rq_store :: InfrastructureBackend

definition at_request :: "request \<Rightarrow> McpProtocolHandler \<Rightarrow> McpProtocolHandler" where
  "at_request r h = h\<lparr>h_backend := map_option (\<lambda>_. rq_store r) (h_backend h)\<rparr>"

fun serve :: "Codec \<Rightarrow> McpProtocolHandler \<Rightarrow> request list \<Rightarrow> rstr list \<times> bool" where
  "serve c h [] = ([], True)"
| "serve c h (r # rs) =
     (case rq_line r of
        None \<Rightarrow> ([], False)
      | Some line \<Rightarrow>
          (let trimmed = trim line in
           if trimmed = [] then serve c h rs
           else case handle_message c (rq_now r) (at_request r h) trimmed of
                  None \<Rightarrow> serve c h rs
                | Some response \<Rightarrow> (case serve c h rs of (out, ok) \<Rightarrow> (to_string_json c response # out, ok))))"

section \<open>The command line\<close>

text \<open>A run is what it prints on the two channels, line by line, and its exit status.\<close>

record cli_run =
  cl_stdout :: "rstr list"
  cl_stderr :: "rstr list"
  cl_status :: int

definition CLI_HELP :: "rstr list" where
  "CLI_HELP =
     [''KyvonOPS V4.1 CLI '' @ EM_DASH @ '' local-first VPS operations'', [], ''USAGE:'', ''    kyvon <COMMAND> [OPTIONS]'', [], ''COMMANDS:'',
      ''    server list                 List VPS profiles saved in this installation'',
      ''    diagnose <server>           Not available until the diagnostic data path is released'',
      ''    mcp install                 Print local MCP client configuration'',
      ''    mcp doctor                  Report MCP availability for this installation'',
      ''    version                     Print KyvonOPS version and build metadata'', []]"

definition default_database_path :: "platform \<Rightarrow> environment \<Rightarrow> rstr option" where
  "default_database_path os e =
     (case env_HOME e of
        None \<Rightarrow> None
      | Some home \<Rightarrow>
          (let base = (if os = MacOs then path_join home ''Library/Application Support''
                       else (case env_XDG_DATA_HOME e of Some d \<Rightarrow> d | None \<Rightarrow> path_join home ''.local/share''))
           in Some (path_join (path_join base ''com.kyvon.ops'') ''kyvon.db'')))"

text \<open>\<open>{:<n}\<close> counts characters: the bytes that do not continue one.\<close>

definition char_count :: "rstr \<Rightarrow> nat" where
  "char_count s = length (filter (\<lambda>c. \<not> (128 \<le> byte c \<and> byte c < 192)) s)"

definition pad_right :: "nat \<Rightarrow> rstr \<Rightarrow> rstr" where
  "pad_right n s = s @ replicate (n - char_count s) SP"

definition table_row :: "rstr \<Rightarrow> rstr \<Rightarrow> rstr \<Rightarrow> rstr \<Rightarrow> rstr" where
  "table_row a b c d = pad_right 24 a @ [SP] @ pad_right 30 b @ [SP] @ pad_right 8 c @ [SP] @ pad_right 12 d"

definition list_inventory ::
    "platform \<Rightarrow> environment \<Rightarrow> (rstr \<Rightarrow> bool) \<Rightarrow> (rstr \<Rightarrow> KyvonError + InfrastructureBackend) \<Rightarrow> rstr + rstr list" where
  "list_inventory os e exists open_db =
     (case default_database_path os e of
        None \<Rightarrow> Inl ''Cannot locate the KyvonOPS database: HOME is not set. Run the desktop app first.''
      | Some path \<Rightarrow>
          if \<not> exists path then Inl (''No KyvonOPS database at '' @ path @ ''. Connect a VPS in the desktop app first.'')
          else case open_db path of
                 Inl err \<Rightarrow> Inl (''Cannot open '' @ path @ '': '' @ display_error err)
               | Inr db \<Rightarrow>
                   (case list_servers db of
                      Inl err \<Rightarrow> Inl (''Cannot read the VPS inventory: '' @ display_error err)
                    | Inr [] \<Rightarrow> Inr [''No VPS connected in this installation.'']
                    | Inr servers \<Rightarrow>
                        Inr (table_row ''NAME'' ''HOST'' ''PORT'' ''DISCOVERY'' # replicate 78 (CHR ''-'') #
                          map (\<lambda>s. table_row (sp_alias s) (sp_hostname s) (show_nat (unat (sp_port s)))
                            (if sp_facts s \<noteq> None then ''complete'' else ''pending'')) servers)))"

definition printed :: "rstr list \<Rightarrow> cli_run" where
  "printed out = \<lparr>cl_stdout = out, cl_stderr = [], cl_status = 0\<rparr>"

definition refused :: "rstr \<Rightarrow> int \<Rightarrow> cli_run" where
  "refused message status = \<lparr>cl_stdout = [], cl_stderr = [message], cl_status = status\<rparr>"

definition cli_main ::
    "platform \<Rightarrow> environment \<Rightarrow> (rstr \<Rightarrow> bool) \<Rightarrow> (rstr \<Rightarrow> KyvonError + InfrastructureBackend) \<Rightarrow> rstr list \<Rightarrow> cli_run" where
  "cli_main os e exists open_db args =
     (let second = (case args of _ # _ # b # _ \<Rightarrow> Some b | _ \<Rightarrow> None) in
      case (case args of _ # a # _ \<Rightarrow> Some a | _ \<Rightarrow> None) of
        None \<Rightarrow> printed CLI_HELP
      | Some command \<Rightarrow>
          if command = ''server'' \<and> second = Some ''list'' then
            (case list_inventory os e exists open_db of Inl message \<Rightarrow> refused message 1 | Inr out \<Rightarrow> printed out)
          else if command = ''mcp'' \<and> second = Some ''install'' then
            printed [''Add this block to your MCP client configuration:'',
              ''{'' @ [DQ] @ ''mcpServers'' @ [DQ] @ '':{'' @ [DQ] @ ''kyvon'' @ [DQ] @ '':{'' @ [DQ] @ ''command'' @ [DQ] @ '':'' @ [DQ] @
              ''kyvon-mcp'' @ [DQ] @ '','' @ [DQ] @ ''args'' @ [DQ] @ '':[]}}}'']
          else if command = ''mcp'' \<and> second = Some ''doctor'' then
            printed [''MCP doctor is available only when the local MCP service is configured.'',
              ''No remote checks were run and no service health was assumed.'']
          else if command \<in> set [''version'', ''--version'', ''-v''] then printed [''kyvon version 4.1.0 (client-only preview)'']
          else if command = ''diagnose'' then
            refused ''Diagnostics are available in the desktop app after a VPS collector records telemetry; no diagnosis was simulated.'' 2
          else if command \<in> set [''site'', ''deploy'', ''rollback'', ''incident'', ''agent'', ''device''] then
            refused ''This command is not available in the client-only V4.1 CLI; no operation was simulated.'' 2
          else if command \<in> set [''help'', ''--help'', ''-h''] then printed CLI_HELP
          else \<lparr>cl_stdout = CLI_HELP, cl_stderr = [''Unknown command: '' @ command], cl_status = 1\<rparr>)"

section \<open>What the programs do\<close>

lemma gateway_starts_as_observer: "h_role (fst (gateway_start os e exists open_db)) = Observer"
  by (simp add: gateway_start_def handler_new_def with_backend_def Let_def split: option.splits sum.splits)

text \<open>The gateway and the command line do not look in the same place when \<open>HOME\<close> is unset.\<close>

theorem cli_needs_home:
  "database_path Linux \<lparr>env_KYVON_DB = None, env_XDG_DATA_HOME = Some ''/data'', env_HOME = None\<rparr> = Some ''/data/com.kyvon.ops/kyvon.db'' \<and>
   default_database_path Linux \<lparr>env_KYVON_DB = None, env_XDG_DATA_HOME = Some ''/data'', env_HOME = None\<rparr> = None"
  by code_simp

definition asks :: "Codec \<Rightarrow> request \<Rightarrow> bool" where
  "asks c r \<longleftrightarrow> (case rq_line r of None \<Rightarrow> False
     | Some line \<Rightarrow> trim line \<noteq> [] \<and> (case from_str c (trim line) of Some req \<Rightarrow> \<not> is_notification req | None \<Rightarrow> True))"

definition answer_to :: "Codec \<Rightarrow> McpProtocolHandler \<Rightarrow> request \<Rightarrow> rstr" where
  "answer_to c h r = to_string_json c (handle_rpc c (rq_now r) (at_request r h) (trim (the (rq_line r))))"

lemma serve_output:
  assumes "list_all (\<lambda>r. rq_line r \<noteq> None) rs"
  shows "serve c h rs = (map (answer_to c h) (filter (asks c) rs), True)"
  using assms
  by (induction rs) (auto simp: Let_def asks_def answer_to_def handle_message_def split: option.splits)


definition demo_request :: "rstr \<Rightarrow> request" where
  "demo_request l = \<lparr>rq_line = Some l, rq_now = 0, rq_store = \<lparr>list_servers = Inr [], get_server = (\<lambda>i. Inr None), latest_metrics = (\<lambda>i. Inr [])\<rparr>\<rparr>"


end
