(* ===== verification/Spec2Isabelle.thy ===== *)
theory Spec2Isabelle
  imports Risk_Theorems Redact_Theorems Host_Key Storage_Backend Pipeline Collectors Aggregate
    Db_History Desktop_Theorems Terminals Sftp Collector_Start Topology Attribution Outage_Risk Forecast Front_Ends
begin

text \<open>
  \<^bold>\<open>A verification library for KyvonOPS.\<close>

  KyvonOPS is a desktop application, with a command line tool and an MCP gateway, for looking after Linux
  servers over SSH. Its Rust crates fall into a few parts, and this library follows them. All definitions are
  executable functions on explicit state; the theorems are about those definitions.

  \<^bold>\<open>The parts and how they interact.\<close>

  \<^item> Everything that reaches a server is a command line. \<open>kyvon-security\<close> builds it (\<open>shell.rs\<close>), checks remote
    paths (\<open>path.rs\<close>) and judges how dangerous a command is before it runs (\<open>risk.rs\<close>).
  \<^item> Everything that comes back is text from an untrusted machine. \<open>kyvon-core/redact.rs\<close> and
    \<open>kyvon-policy/redactor.rs\<close> remove secrets from it.
  \<^item> \<open>kyvon-policy\<close> is the gateway through which a language model may query the fleet: a tool catalogue
    (\<open>tools.rs\<close>), tokens (\<open>tokens.rs\<close>), approvals (\<open>approvals.rs\<close>) and the message handler (\<open>mcp_server.rs\<close>),
    served from the local store by \<open>apps/mcp/src/storage_backend.rs\<close>.
  \<^item> \<open>kyvon-ssh\<close> opens sessions: it verifies host keys with the operator's help (\<open>hostkey.rs\<close> of the crate and of
    the desktop application, \<open>kyvon-storage/hosts.rs\<close>) and collects or streams command output (\<open>session.rs\<close>).
  \<^item> \<open>kyvon-telemetry\<close> is the live picture: a shell script writes framed blocks, a reader cuts them out of the
    stream (\<open>collector.rs\<close>), parsers read each section (\<open>proc.rs\<close>, \<open>commands.rs\<close>), two readings become a rate
    (\<open>state.rs\<close>), a block becomes frames and rows (\<open>protocol.rs\<close>, \<open>sample.rs\<close>), and rows become buckets
    (\<open>aggregate.rs\<close>). The loop of \<open>commands/telemetry.rs\<close> in the desktop application drives all of it.
  \<^item> \<open>kyvon-storage\<close> keeps servers, metrics, known hosts, the audit ledger, snapshots, notes and settings.
  \<^item> The desktop application (\<open>apps/desktop/src-tauri\<close>) joins these: it adds and connects servers, controls
    services under the classifier and the ledger, opens terminals and starts collectors.
  \<^item> \<open>kyvon-topology\<close> reads nginx and Docker and draws the graph of a server; \<open>kyvon-diagnostics\<close> scores,
    forecasts and explains. \<open>apps/mcp\<close> and \<open>apps/cli\<close> are the programs without a window.

  \<^bold>\<open>Theories.\<close>

  \<^item> \<open>Prelude\<close>: Rust strings as UTF-8 byte lists, the string functions of the standard library, saturating and
    checked \<open>i64\<close> arithmetic, hash maps and ordered maps as association lists. \<open>Rust_Text\<close>: \<open>lines\<close>,
    \<open>split_once\<close>, \<open>split_ascii_whitespace\<close> and integer parsing, with the lemmas that text put together from
    words and numbers reads back. \<open>Ieee\<close>: \<open>f32\<close> and \<open>f64\<close> as rationals with one correctly rounded operation at a
    time; rounding is monotone and exact on small integers, so a part of a whole is at most 100 percent.
  \<^item> \<open>Core_Types\<close>: the types of \<open>kyvon-core\<close> (\<open>risk.rs\<close>, \<open>error.rs\<close>, \<open>capability.rs\<close>, \<open>mcp.rs\<close>,
    \<open>inventory.rs\<close>, \<open>host.rs\<close>) with their methods. Errors are values of \<open>KyvonError\<close>, results are sums.
  \<^item> \<open>Shell\<close>: the command builder, against a reader of POSIX words; the locale \<open>word_reader\<close> is the contract a
    reader of quoted words meets, and both that reader and the classifier's own parser are instances.
    \<open>Path_Check\<close>: validation and classification of remote paths. \<open>Risk_Parse\<close>, \<open>Risk_Classify\<close>: the parser and
    the program table of the classifier; \<open>Risk_Theorems\<close> shows that the verdict is the worst of the parts and
    what a command must look like to run without confirmation.
  \<^item> \<open>Redact\<close>, \<open>Redact_Theorems\<close>: the line redactor is exact on the spans it recognises. \<open>Json\<close>: documents and
    the structural redactor, path by path.
  \<^item> \<open>Mcp_Tools\<close>, \<open>Tokens\<close>, \<open>Approvals\<close>, \<open>Mcp_Server\<close>: the gateway. The locale \<open>single_use\<close> (theory
    \<open>Single_Use\<close>) is the contract of a table whose entries are consumed; tokens, approvals and host key prompts
    are its instances. Clock and random identifiers are arguments; the JSON codec is a record of parameters.
  \<^item> \<open>Known_Hosts\<close> (locale \<open>keyed_table\<close>: the trust store refines a map), \<open>Host_Key\<close>: prompts, verifier and the
    SSH callback. \<open>Ssh_Session\<close>: lossy decoding, capped collection and line streaming over the messages of a
    channel.
  \<^item> \<open>Inventory\<close>, \<open>Metrics\<close>, \<open>Store_Invariant\<close>, \<open>Storage_Backend\<close>: the tables and their repositories, one
    function per SQL statement; an invariant over all histories; the locale \<open>backend_contract\<close> is what the
    gateway relies on, and the store provides it.
  \<^item> \<open>Telemetry_Types\<close>, \<open>Proc\<close>, \<open>Telemetry_State\<close>, \<open>Telemetry_Commands\<close> (locale \<open>keyed_merge\<close>: what merging rows
    into a list computes, with three instances), \<open>Collector\<close>, \<open>Protocol\<close>, \<open>Pipeline\<close>, \<open>Collectors\<close>, \<open>Aggregate\<close>:
    the telemetry crate and the desktop loop. The reader is equivalent to a stateless reading of the stream;
    a tick of the script is recovered from any state of the reader; the frames of a block are those its sections
    call for and are well formed; \<open>Pipeline\<close> composes script, transport, reader, parsers and store end to end;
    \<open>Collectors\<close> is the table of running tasks as a step relation, exact when starting is atomic and not
    otherwise; \<open>Aggregate\<close> agrees with the rollup that \<open>Metrics\<close> does in SQL.

  \<^item> \<open>App_Database\<close> (locale \<open>child_table\<close>: rows that belong to a server, with the ledger, the notes and the snapshots
    as instances), \<open>Audit_Log\<close>, \<open>Snapshots\<close>, \<open>Notebook\<close>: the other tables and their repositories. \<open>Db_History\<close>: over every
    history of all operations and failures the keys and references hold and the ledger only grows.
  \<^item> \<open>Ssh_Connect\<close>, \<open>Ssh_Channels\<close>: connecting, authentication, and what is sent on a channel; \<open>Discovery\<close>: the
    report of the probe reads back; \<open>Sftp\<close>: an operation depends on the server at its target only; \<open>Keychain\<close>: the vault.
  \<^item> \<open>Services\<close>, \<open>Desktop\<close>, \<open>Desktop_Theorems\<close>, \<open>Terminals\<close>, \<open>Collector_Start\<close>: the commands of the application. A service
    action runs the command that was shown and leaves one row; connection states are a legal path of the state
    machine; the step relation \<open>session_step\<close> has the interleavings of connection attempts, and no session is
    lost in any of them; what a terminal shows is what the shell sent.
  \<^item> \<open>Nginx\<close>: printed configurations read back. \<open>Docker\<close>, \<open>Topology\<close>: the builder computes a graph that is
    given declaratively, and the graph is closed. \<open>Slice_Sort\<close> (locale \<open>weak_order\<close>, with rising and falling floats
    as instances), \<open>Attribution\<close>: the breakdown of the load.
  \<^item> \<open>Outage_Risk\<close>, \<open>Forecast\<close>: the score is the sum of its factors and monotone; forecasts stay in range;
    percentiles are observations at positions that floating point does not disturb.
  \<^item> \<open>Front_Ends\<close>: the gateway process answers each request once and in order, as an observer; the command line.

  \<^bold>\<open>Conventions and bounds.\<close> Strings are bytes; integers are words of their width or integers kept in range by
  \<open>in_i64\<close>; arithmetic that may overflow wraps, as in the release build. Every loop is a total function, by
  structural recursion or with a measure, so no fuel is used. The failure of a database statement or of the
  keychain is an argument, and every statement has its error branch; the SSH library, the SFTP client, the
  JSON codec, the clock, random identifiers, the environment and the file system are arguments. Limits of the code (four megabytes
  of output, one megabyte per line, 64 lines of preamble, 60 seconds for an approval) are constants of
  the model. The bound of \<open>2 ^ 40\<close> samples in the statements about percentiles keeps the rounding error of a product small.

  \<^bold>\<open>Not modelled.\<close> The TypeScript window; the registration of the commands with Tauri (\<open>lib.rs\<close>, \<open>main.rs\<close> of
  the desktop application); the derived serialisers and the JSON text format; SQLite itself and the opening of a pool;
  the SSH library, the agent and the runtime behind it, among them the abort of a task whose handle is dropped; the
  Windows arm of the data directory; types of \<open>kyvon-core\<close> without an operation in the sources (incidents,
  drift reports, the digital twin, the attribution of sites).
\<close>

end
